theory Spec2Isabelle
  imports Complex_Main "HOL-Library.Word"
begin

unbundle bit_operations_syntax

section \<open>The object model shared by reader, writer and page code\<close>

text \<open>
  Python exceptions raised by the modelled code. A function that can raise returns
  \<open>py_error + 'a\<close>, with \<open>Inl\<close> for the exception.
\<close>

datatype py_error =
    PdfReadError
  | ValueError
  | KeyError
  | IndexError
  | TypeError
  | AttributeError
  | AssertionError
  | NotImplementedError
  | UnboundLocalError
  | PageSizeNotDefinedError
  | ZeroDivisionError
  | StructError
  | PyException

text \<open>
  The PDF objects of \<^verbatim>\<open>generic.py\<close>, as far as the code under study tells them apart.
  A dictionary is an association list from the text of its name keys to its raw values;
  an indirect reference carries its object number and generation. Numbers are integers
  (\<^verbatim>\<open>NumberObject\<close>) or decimals (\<^verbatim>\<open>FloatObject\<close>, a rational here). A
  \<^verbatim>\<open>RectangleObject\<close> is the array subclass that the box accessors of a page return.
  A \<^verbatim>\<open>StreamObject\<close> is its dictionary and the bytes that \<^verbatim>\<open>getData()\<close> returns. A
  \<^verbatim>\<open>ContentStream\<close> (\<^verbatim>\<open>page_object.py\<close>) is the list \<^verbatim>\<open>operations\<close> of its pairs
  \<open>(operands, operator)\<close>: the operands are a list of objects, or, under the pseudo
  operator \<^verbatim>\<open>INLINE IMAGE\<close>, the settings and the bytes of an inline image.
\<close>

datatype pdf_obj =
    NullObject
  | BooleanObject bool
  | NumberObject int
  | FloatObject rat
  | NameObject string
  | StringObject string
  | ArrayObject "pdf_obj list"
  | RectangleObject "pdf_obj list"
  | DictionaryObject "(string \<times> pdf_obj) list"
  | IndirectObject int int
  | StreamObject "(string \<times> pdf_obj) list" string
  | ContentStream "(operands \<times> string) list"
and operands =
    Operands "pdf_obj list"
  | InlineImage "(pdf_obj \<times> pdf_obj) list" string

type_synonym pdf_dict = "(string \<times> pdf_obj) list"

text \<open>\<^verbatim>\<open>d[k] = v\<close> on a dictionary: replace the value of an existing key, else add the key.\<close>

fun setitem :: "('k \<times> 'v) list \<Rightarrow> 'k \<Rightarrow> 'v \<Rightarrow> ('k \<times> 'v) list" where
  "setitem [] k v = [(k, v)]"
| "setitem ((k', v') # d) k v = (if k' = k then (k, v) # d else (k', v') # setitem d k v)"

text \<open>\<^verbatim>\<open>d.setdefault(k, v)\<close>: a key that is present keeps its value.\<close>

definition setdefault :: "('k \<times> 'v) list \<Rightarrow> 'k \<Rightarrow> 'v \<Rightarrow> ('k \<times> 'v) list" where
  "setdefault d k v = (case map_of d k of Some _ \<Rightarrow> d | None \<Rightarrow> setitem d k v)"

text \<open>
  Comparing an object with a Python string literal (\<^verbatim>\<open>typ == "/XYZ"\<close>): name and
  string objects are \<^verbatim>\<open>str\<close> subclasses and compare by their text, every other
  object is unequal to a string.
\<close>

fun eq_str :: "pdf_obj \<Rightarrow> string \<Rightarrow> bool" where
  "eq_str (NameObject s) t = (s = t)"
| "eq_str (StringObject s) t = (s = t)"
| "eq_str _ t = False"

text \<open>
  \<^verbatim>\<open>xs[i]\<close> on a Python list: a negative index counts from the end, an index out of
  range raises \<^verbatim>\<open>IndexError\<close>.
\<close>

definition py_index :: "'a list \<Rightarrow> int \<Rightarrow> py_error + 'a" where
  "py_index xs i =
     (if 0 \<le> i \<and> i < int (length xs) then Inr (xs ! nat i)
      else if i < 0 \<and> - int (length xs) \<le> i then Inr (xs ! nat (int (length xs) + i))
      else Inl IndexError)"

text \<open>
  \<^verbatim>\<open>xs.insert(i, x)\<close>: a negative index counts from the end, and an index beyond either
  end is clamped to it; the list always grows by the one element.
\<close>

definition py_insert :: "'a list \<Rightarrow> int \<Rightarrow> 'a \<Rightarrow> 'a list" where
  "py_insert xs i x =
     (let n = int (length xs); j = (if i < 0 then max 0 (n + i) else min i n)
      in take (nat j) xs @ x # drop (nat j) xs)"

section \<open>Destinations (\<^verbatim>\<open>destination.py\<close>)\<close>

text \<open>
  \<^verbatim>\<open>Destination.__init__(self, title, page, typ, *args)\<close>. A tuple assignment
  \<^verbatim>\<open>(a, b, c) = args\<close> raises \<^verbatim>\<open>ValueError\<close> before it stores anything when
  \<open>args\<close> has another length. The lists of the \<^verbatim>\<open>typ in [...]\<close> tests are the
  source's, character by character.
\<close>

definition Destination ::
  "pdf_obj \<Rightarrow> pdf_obj \<Rightarrow> pdf_obj \<Rightarrow> pdf_obj list \<Rightarrow> py_error + pdf_dict" where
  "Destination title page typ args =
     (let self = setitem (setitem (setitem [] ''/Title'' title) ''/Page'' page) ''/Type'' typ in
      if eq_str typ ''/XYZ'' then
        (case args of
           [l, t, z] \<Rightarrow> Inr (setitem (setitem (setitem self ''/Left'' l) ''/Top'' t) ''/Zoom'' z)
         | _ \<Rightarrow> Inl ValueError)
      else if eq_str typ ''/FitR'' then
        (case args of
           [l, b, r, t] \<Rightarrow>
             Inr (setitem (setitem (setitem (setitem self ''/Left'' l) ''/Bottom'' b)
                    ''/Right'' r) ''/Top'' t)
         | _ \<Rightarrow> Inl ValueError)
      else if list_ex (eq_str typ) [''/FitH'', ''FitBH''] then
        (case args of [t] \<Rightarrow> Inr (setitem self ''/Top'' t) | _ \<Rightarrow> Inl ValueError)
      else if list_ex (eq_str typ) [''/FitV'', ''FitBV''] then
        (case args of [l] \<Rightarrow> Inr (setitem self ''/Left'' l) | _ \<Rightarrow> Inl ValueError)
      else if list_ex (eq_str typ) [''/Fit'', ''FitB''] then Inr self
      else Inl PdfReadError)"

section \<open>Reading the cross-reference sections and merging trailers (\<^verbatim>\<open>reader.py\<close>)\<close>

text \<open>
  \<^verbatim>\<open>PdfFileReader.read\<close> seeks to \<^verbatim>\<open>startxref\<close>, reads one byte and branches on it.
  What the loop finds at an offset is one of: a classical table (\<^verbatim>\<open>x\<close>) followed by its
  trailer dictionary; a cross-reference stream (a digit) with the stream's dictionary;
  neither of them, but the word \<^verbatim>\<open>xref\<close> at index \<open>xref_loc\<close> of the twenty bytes
  around the offset; nothing at all (the \<^verbatim>\<open>assert False\<close>); or bytes on which the
  reading of the table or stream raises. The entries of the table itself fill
  \<^verbatim>\<open>self.xref\<close> and do not touch \<^verbatim>\<open>self.trailer\<close>; they are not modelled.
\<close>

datatype at_startxref =
    XrefTable pdf_dict
  | XrefStream pdf_dict
  | XrefNearby int
  | NoXref
  | ReadFails py_error

text \<open>
  Classical table, lines 576-577:
  \<^verbatim>\<open>for key, value in newTrailer.items(): self.trailer.setdefault(key, value)\<close>.
\<close>

definition merge_table_trailer :: "pdf_dict \<Rightarrow> pdf_dict \<Rightarrow> pdf_dict" where
  "merge_table_trailer trailer newTrailer =
     fold (\<lambda>(key, val) t. setdefault t key val) newTrailer trailer"

text \<open>
  Cross-reference stream, lines 629-632: for each of the four keys,
  \<^verbatim>\<open>if key in xrefstream and key not in self.trailer:
     self.trailer[NameObject(key)] = xrefstream.raw_get(key)\<close>.
\<close>

definition trailerKeys :: "string list" where
  "trailerKeys = [''/Root'', ''/Encrypt'', ''/Info'', ''/ID'']"

definition copy_stream_key :: "pdf_dict \<Rightarrow> string \<Rightarrow> pdf_dict \<Rightarrow> pdf_dict" where
  "copy_stream_key xrefstream key trailer =
     (case map_of xrefstream key of
        Some v \<Rightarrow> (if map_of trailer key = None then setitem trailer key v else trailer)
      | None \<Rightarrow> trailer)"

definition merge_stream_trailer :: "pdf_dict \<Rightarrow> pdf_dict \<Rightarrow> pdf_dict" where
  "merge_stream_trailer trailer xrefstream = fold (copy_stream_key xrefstream) trailerKeys trailer"

text \<open>
  \<^verbatim>\<open>if "/Prev" in d: startxref = d["/Prev"]\<close>. Subscripting a dictionary resolves an
  indirect value through the reader (\<open>deref\<close>), which is a parameter
  here. The next \<^verbatim>\<open>stream.seek(startxref, 0)\<close> needs an integer.
\<close>

definition prev_of :: "(pdf_obj \<Rightarrow> pdf_obj) \<Rightarrow> pdf_dict \<Rightarrow> (py_error + int) option" where
  "prev_of deref d =
     (case map_of d ''/Prev'' of
        None \<Rightarrow> None
      | Some v \<Rightarrow>
          (case deref v of NumberObject n \<Rightarrow> Some (Inr n) | _ \<Rightarrow> Some (Inl TypeError)))"

text \<open>
  The \<^verbatim>\<open>while 1\<close> loop of \<^verbatim>\<open>read\<close>, lines 501-650, as far as it concerns the trailer.
  A \<^verbatim>\<open>/Prev\<close> chain that runs in a circle never leaves the loop: the result is then
  \<open>None\<close>.
\<close>

partial_function (option) read_trailers ::
  "(pdf_obj \<Rightarrow> pdf_obj) \<Rightarrow> (int \<Rightarrow> at_startxref) \<Rightarrow> int \<Rightarrow> pdf_dict \<Rightarrow>
   (py_error + pdf_dict) option"
where
  "read_trailers deref xrefs startxref trailer =
     (case xrefs startxref of
        XrefTable newTrailer \<Rightarrow>
          (let trailer' = merge_table_trailer trailer newTrailer in
           case prev_of deref newTrailer of
             None \<Rightarrow> Some (Inr trailer')
           | Some (Inl e) \<Rightarrow> Some (Inl e)
           | Some (Inr p) \<Rightarrow> read_trailers deref xrefs p trailer')
      | XrefStream xrefstream \<Rightarrow>
          (case map_of xrefstream ''/Type'' of
             None \<Rightarrow> Some (Inl KeyError)
           | Some ty \<Rightarrow>
               if \<not> eq_str (deref ty) ''/XRef'' then Some (Inl AssertionError)
               else
                 (let trailer' = merge_stream_trailer trailer xrefstream in
                  case prev_of deref xrefstream of
                    None \<Rightarrow> Some (Inr trailer')
                  | Some (Inl e) \<Rightarrow> Some (Inl e)
                  | Some (Inr p) \<Rightarrow> read_trailers deref xrefs p trailer'))
      | XrefNearby xref_loc \<Rightarrow>
          read_trailers deref xrefs (startxref - (10 - xref_loc)) trailer
      | NoXref \<Rightarrow> Some (Inl AssertionError)
      | ReadFails e \<Rightarrow> Some (Inl e))"

text \<open>
  What a section can contribute for a key: a classical trailer offers each of its keys,
  a cross-reference stream only the four keys of \<open>trailerKeys\<close>.
\<close>

fun offers :: "at_startxref \<Rightarrow> string \<Rightarrow> pdf_obj option" where
  "offers (XrefTable d) k = map_of d k"
| "offers (XrefStream d) k = (if k \<in> set trailerKeys then map_of d k else None)"
| "offers _ k = None"

text \<open>The value of the first section, in reading order, that offers the key.\<close>

fun first_offer :: "at_startxref list \<Rightarrow> string \<Rightarrow> pdf_obj option" where
  "first_offer [] k = None"
| "first_offer (s # ss) k = (case offers s k of Some v \<Rightarrow> Some v | None \<Rightarrow> first_offer ss k)"

text \<open>
  \<open>prev_chain deref xrefs s ss\<close>: following \<^verbatim>\<open>/Prev\<close> from offset \<open>s\<close> meets the
  sections \<open>ss\<close>, in this order, and ends at a section without \<^verbatim>\<open>/Prev\<close>.
\<close>

inductive prev_chain ::
  "(pdf_obj \<Rightarrow> pdf_obj) \<Rightarrow> (int \<Rightarrow> at_startxref) \<Rightarrow> int \<Rightarrow> at_startxref list \<Rightarrow> bool"
  for deref xrefs
where
  table_last: "xrefs s = XrefTable d \<Longrightarrow> prev_of deref d = None \<Longrightarrow>
     prev_chain deref xrefs s [XrefTable d]"
| table_prev: "xrefs s = XrefTable d \<Longrightarrow> prev_of deref d = Some (Inr p) \<Longrightarrow>
     prev_chain deref xrefs p ss \<Longrightarrow> prev_chain deref xrefs s (XrefTable d # ss)"
| stream_last: "xrefs s = XrefStream d \<Longrightarrow> map_of d ''/Type'' = Some ty \<Longrightarrow>
     eq_str (deref ty) ''/XRef'' \<Longrightarrow> prev_of deref d = None \<Longrightarrow>
     prev_chain deref xrefs s [XrefStream d]"
| stream_prev: "xrefs s = XrefStream d \<Longrightarrow> map_of d ''/Type'' = Some ty \<Longrightarrow>
     eq_str (deref ty) ''/XRef'' \<Longrightarrow> prev_of deref d = Some (Inr p) \<Longrightarrow>
     prev_chain deref xrefs p ss \<Longrightarrow> prev_chain deref xrefs s (XrefStream d # ss)"
| nearby: "xrefs s = XrefNearby loc \<Longrightarrow> prev_chain deref xrefs (s - (10 - loc)) ss \<Longrightarrow>
     prev_chain deref xrefs s ss"

text \<open>A file of two revisions: a classical table at offset 100 whose trailer points to a
  cross-reference stream at offset 10.\<close>

definition two_revisions :: "int \<Rightarrow> at_startxref" where
  "two_revisions s =
     (if s = 100 then
        XrefTable [(''/Size'', NumberObject 5), (''/Root'', IndirectObject 1 0),
                   (''/Prev'', NumberObject 10)]
      else if s = 10 then
        XrefStream [(''/Type'', NameObject ''/XRef''), (''/Size'', NumberObject 3),
                    (''/Root'', IndirectObject 9 0), (''/Info'', IndirectObject 2 0)]
      else NoXref)"

section \<open>The Standard security handler (\<^verbatim>\<open>reader.py\<close>, \<^verbatim>\<open>writer.py\<close>)\<close>

type_synonym byte = "8 word"
type_synonym bytes = "8 word list"

subsection \<open>Password authentication\<close>

text \<open>
  The primitives of \<^verbatim>\<open>algorithms.py\<close> and \<^verbatim>\<open>utils.py\<close> (MD5-based key derivation and
  RC4) are outside the files under study; the code is modelled over any choice of them.
  \<open>alg34\<close> and \<open>alg35\<close> return the pair \<open>(U, key)\<close>.
\<close>

record algorithms =
  alg33_1 :: "bytes \<Rightarrow> int \<Rightarrow> int \<Rightarrow> bytes"
  alg34 :: "bytes \<Rightarrow> bytes \<Rightarrow> int \<Rightarrow> bytes \<Rightarrow> bytes \<times> bytes"
  alg35 :: "bytes \<Rightarrow> int \<Rightarrow> int \<Rightarrow> bytes \<Rightarrow> int \<Rightarrow> bytes \<Rightarrow> bool \<Rightarrow> bytes \<times> bytes"
  RC4_encrypt :: "bytes \<Rightarrow> bytes \<Rightarrow> bytes"

text \<open>
  The resolved \<^verbatim>\<open>/Encrypt\<close> dictionary. \<^verbatim>\<open>/Length\<close> and \<^verbatim>\<open>/EncryptMetadata\<close> are
  optional entries (the writer of this library stores \<^verbatim>\<open>/Length\<close> only when
  \<^verbatim>\<open>V == 2\<close>); subscripting the dictionary with an absent key raises \<^verbatim>\<open>KeyError\<close>.
\<close>

record encrypt_dict =
  Filter :: string
  V :: int
  R :: int
  Length :: "int option"
  O_entry :: bytes
  U_entry :: bytes
  P_entry :: int
  EncryptMetadata :: "bool option"

text \<open>
  The part of a \<^verbatim>\<open>PdfFileReader\<close> that decryption reads and writes: the trailer's
  \<^verbatim>\<open>/Encrypt\<close> and \<^verbatim>\<open>/ID\<close> entries, the attribute \<^verbatim>\<open>_decryption_key\<close> (absent until
  a password has matched) and the flag \<^verbatim>\<open>_override_encryption\<close>.
\<close>

record reader =
  Encrypt :: "encrypt_dict option"
  ID :: "bytes list option"
  decryption_key :: "bytes option"
  override_encryption :: bool

text \<open>
  \<^verbatim>\<open>_authenticateUserPassword\<close>, lines 761-778. For a revision below 2 neither branch
  binds \<^verbatim>\<open>U\<close> and \<^verbatim>\<open>key\<close>, and the \<^verbatim>\<open>return\<close> raises \<^verbatim>\<open>UnboundLocalError\<close>.
\<close>

definition authenticateUserPassword ::
  "algorithms \<Rightarrow> reader \<Rightarrow> bytes \<Rightarrow> py_error + (bool \<times> bytes)" where
  "authenticateUserPassword algs self password =
     (case Encrypt self of
        None \<Rightarrow> Inl KeyError
      | Some encrypt \<Rightarrow>
          (let rev = R encrypt; owner_entry = O_entry encrypt; p_entry = P_entry encrypt in
           case ID self of
             None \<Rightarrow> Inl KeyError
           | Some [] \<Rightarrow> Inl IndexError
           | Some (id1_entry # _) \<Rightarrow>
               (let real_U = U_entry encrypt in
                if rev = 2 then
                  (let (U, key) = alg34 algs password owner_entry p_entry id1_entry
                   in Inr (U = real_U, key))
                else if rev \<ge> 3 then
                  (case Length encrypt of
                     None \<Rightarrow> Inl KeyError
                   | Some len \<Rightarrow>
                       (let (U, key) = alg35 algs password rev (len div 8) owner_entry p_entry
                                         id1_entry
                                         (case EncryptMetadata encrypt of
                                            None \<Rightarrow> False | Some b \<Rightarrow> b)
                        in Inr (take 16 U = take 16 real_U, key)))
                else Inl UnboundLocalError)))"

text \<open>
  The loop \<^verbatim>\<open>for i in range(19, -1, -1)\<close> of \<^verbatim>\<open>_decrypt\<close>: \<open>owner_rounds algs key n val\<close>
  runs the rounds \<open>i = n - 1, ..., 0\<close>, each with the key whose every byte is XOR-ed
  with \<open>i\<close>.
\<close>

fun owner_rounds :: "algorithms \<Rightarrow> bytes \<Rightarrow> nat \<Rightarrow> bytes \<Rightarrow> bytes" where
  "owner_rounds algs key 0 val = val"
| "owner_rounds algs key (Suc i) val =
     owner_rounds algs key i (RC4_encrypt algs (map (\<lambda>b. b XOR of_nat i) key) val)"

text \<open>\<^verbatim>\<open>_decrypt\<close>, lines 725-759.\<close>

definition decrypt_body :: "algorithms \<Rightarrow> reader \<Rightarrow> bytes \<Rightarrow> (py_error + int) \<times> reader" where
  "decrypt_body algs self password =
     (case Encrypt self of
        None \<Rightarrow> (Inl KeyError, self)
      | Some encrypt \<Rightarrow>
          if Filter encrypt \<noteq> ''/Standard'' then (Inl NotImplementedError, self)
          else if \<not> (V encrypt = 1 \<or> V encrypt = 2) then (Inl NotImplementedError, self)
          else
            (case authenticateUserPassword algs self password of
               Inl e \<Rightarrow> (Inl e, self)
             | Inr (user_password, key) \<Rightarrow>
                 if user_password then (Inr 1, self\<lparr>decryption_key := Some key\<rparr>)
                 else
                   (let rev = R encrypt in
                    case (if rev = 2 then Some 5 else map_option (\<lambda>l. l div 8) (Length encrypt)) of
                      None \<Rightarrow> (Inl KeyError, self)
                    | Some keylen \<Rightarrow>
                        (let key = alg33_1 algs password rev keylen;
                             real_O = O_entry encrypt;
                             userpass =
                               (if rev = 2 then RC4_encrypt algs key real_O
                                else owner_rounds algs key 20 real_O)
                         in case authenticateUserPassword algs self userpass of
                              Inl e \<Rightarrow> (Inl e, self)
                            | Inr (owner_password, key) \<Rightarrow>
                                if owner_password
                                then (Inr 2, self\<lparr>decryption_key := Some key\<rparr>)
                                else (Inr 0, self)))))"

text \<open>
  \<^verbatim>\<open>decrypt\<close>, lines 718-723: the flag is set for the call and cleared in the
  \<^verbatim>\<open>finally\<close> clause, also when \<^verbatim>\<open>_decrypt\<close> raises.
\<close>

definition decrypt :: "algorithms \<Rightarrow> reader \<Rightarrow> bytes \<Rightarrow> (py_error + int) \<times> reader" where
  "decrypt algs self password =
     (let (res, self') = decrypt_body algs (self\<lparr>override_encryption := True\<rparr>) password
      in (res, self'\<lparr>override_encryption := False\<rparr>))"

text \<open>
  The user password recovered from \<^verbatim>\<open>/O\<close> with a candidate owner password, in the
  specification's words: derive the key from the candidate, then one RC4 pass
  (revision 2) or twenty RC4 passes whose keys are the derived key XOR-ed with 19, 18,
  ..., 0 (revision 3).
\<close>

definition recover_user_password :: "algorithms \<Rightarrow> encrypt_dict \<Rightarrow> bytes \<Rightarrow> bytes" where
  "recover_user_password algs encrypt candidate =
     (let keylen = (if R encrypt = 2 then 5 else the (Length encrypt) div 8);
          key = alg33_1 algs candidate (R encrypt) keylen
      in if R encrypt = 2 then RC4_encrypt algs key (O_entry encrypt)
         else foldl (\<lambda>val i. RC4_encrypt algs (map (\<lambda>b. b XOR of_nat i) key) val)
                (O_entry encrypt) (rev [0..<20]))"

text \<open>
  Stand-ins for the primitives, to run the code on a concrete document: the key is a
  prefix of the password, \<open>U\<close> is the password followed by the first identifier, and
  the cipher XORs every byte with the XOR of the key's bytes.
\<close>

definition toy_algorithms :: algorithms where
  "toy_algorithms =
     \<lparr>alg33_1 = (\<lambda>password rev keylen. take (nat keylen) password),
      alg34 = (\<lambda>password owner_entry p_entry id1_entry. (password @ id1_entry, take 5 password)),
      alg35 = (\<lambda>password rev keylen owner_entry p_entry id1_entry metadata_encrypt.
                 (password @ id1_entry, take (nat keylen) password)),
      RC4_encrypt = (\<lambda>key plaintext. map (\<lambda>b. b XOR fold (XOR) key 0) plaintext)\<rparr>"

text \<open>
  A reader whose document has the user password \<^verbatim>\<open>foo\<close> (bytes 102 111 111) and the
  owner password \<^verbatim>\<open>bar\<close> (bytes 98 97 114) under \<open>toy_algorithms\<close>, with the given
  \<^verbatim>\<open>/V\<close>, \<^verbatim>\<open>/R\<close> and \<^verbatim>\<open>/Length\<close>.
\<close>

definition toy_reader :: "int \<Rightarrow> int \<Rightarrow> int option \<Rightarrow> reader" where
  "toy_reader v r len =
     \<lparr>Encrypt = Some \<lparr>Filter = ''/Standard'', V = v, R = r, Length = len,
                        O_entry = [23, 30, 30], U_entry = [102, 111, 111, 1],
                        P_entry = - 1, EncryptMetadata = None\<rparr>,
      ID = Some [[1], [2]], decryption_key = None, override_encryption = False\<rparr>"

subsection \<open>The per-object key\<close>

text \<open>
  \<^verbatim>\<open>struct.pack("<i", n)\<close>: the four bytes of a signed 32-bit integer, least
  significant first; \<^verbatim>\<open>struct.error\<close> outside the range.
\<close>

definition struct_pack_i :: "int \<Rightarrow> py_error + bytes" where
  "struct_pack_i n =
     (if - (2 ^ 31) \<le> n \<and> n < 2 ^ 31 then
        (let w = (word_of_int n :: 32 word) in
         Inr [ucast w, ucast (drop_bit 8 w), ucast (drop_bit 16 w), ucast (drop_bit 24 w)])
      else Inl StructError)"

text \<open>
  \<^verbatim>\<open>PdfFileReader.getObject\<close>, lines 420-431: the key with which the object just read is
  decrypted; \<open>None\<close> when nothing is decrypted (the override flag is set or the document
  is not encrypted). \<open>md5\<close> is the digest function of \<^verbatim>\<open>hashlib\<close>.
\<close>

definition getObject_key ::
  "(bytes \<Rightarrow> bytes) \<Rightarrow> reader \<Rightarrow> bool \<Rightarrow> int \<Rightarrow> int \<Rightarrow> py_error + bytes option" where
  "getObject_key md5 self isEncrypted idnum generation =
     (if \<not> override_encryption self \<and> isEncrypted then
        (case decryption_key self of
           None \<Rightarrow> Inl PyException
         | Some dkey \<Rightarrow>
             (case struct_pack_i idnum of
                Inl e \<Rightarrow> Inl e
              | Inr p1 \<Rightarrow>
                  (case struct_pack_i generation of
                     Inl e \<Rightarrow> Inl e
                   | Inr p2 \<Rightarrow>
                       (let pack1 = take 3 p1; pack2 = take 2 p2;
                            key = dkey @ pack1 @ pack2 in
                        if length key \<noteq> length dkey + 5 then Inl AssertionError
                        else
                          (let md5_hash = md5 key in
                           Inr (Some (take (min 16 (length dkey + 5)) md5_hash)))))))
      else Inr None)"

text \<open>
  \<^verbatim>\<open>PdfFileWriter.write\<close>, lines 247-254, for the object at index \<open>i\<close> of
  \<^verbatim>\<open>self._objects\<close>: \<open>encrypt\<close> is the object number of \<^verbatim>\<open>self._encrypt\<close> when the writer
  has that attribute, \<open>encrypt_key\<close> is \<^verbatim>\<open>self._encrypt_key\<close>. The writer numbers its
  objects \<open>i + 1\<close> and gives all of them generation 0.
\<close>

definition write_key ::
  "(bytes \<Rightarrow> bytes) \<Rightarrow> int option \<Rightarrow> bytes \<Rightarrow> nat \<Rightarrow> py_error + bytes option" where
  "write_key md5 encrypt encrypt_key i =
     (let idnum = int i + 1 in
      if encrypt \<noteq> None \<and> Some idnum \<noteq> encrypt then
        (case struct_pack_i (int i + 1) of
           Inl e \<Rightarrow> Inl e
         | Inr p1 \<Rightarrow>
             (case struct_pack_i 0 of
                Inl e \<Rightarrow> Inl e
              | Inr p2 \<Rightarrow>
                  (let pack1 = take 3 p1; pack2 = take 2 p2;
                       key = encrypt_key @ pack1 @ pack2 in
                   if length key \<noteq> length encrypt_key + 5 then Inl AssertionError
                   else
                     (let md5_hash = md5 key in
                      Inr (Some (take (min 16 (length encrypt_key + 5)) md5_hash))))))
      else Inr None)"

text \<open>
  The per-object key in the specification's words: the low \<open>n\<close> bytes of an integer,
  least significant first, are its base-256 digits; the key is the MD5 digest of the
  document key followed by the low 3 bytes of the object number and the low 2 bytes of
  the generation, cut to \<open>min 16 (length K + 5)\<close> bytes.
\<close>

definition low_bytes_le :: "nat \<Rightarrow> int \<Rightarrow> bytes" where
  "low_bytes_le n x = map (\<lambda>k. word_of_int ((x div 256 ^ k) mod 256)) [0..<n]"

definition per_object_key :: "(bytes \<Rightarrow> bytes) \<Rightarrow> bytes \<Rightarrow> int \<Rightarrow> int \<Rightarrow> bytes" where
  "per_object_key md5 K ident gen =
     take (min 16 (length K + 5)) (md5 (K @ low_bytes_le 3 ident @ low_bytes_le 2 gen))"

section \<open>Page boxes (\<^verbatim>\<open>rectangle.py\<close>) and blank pages (\<^verbatim>\<open>page_object.py\<close>)\<close>

text \<open>
  What the code uses of \<^verbatim>\<open>generic.py\<close> when it handles boxes; that file is not among
  the sources, so these are parameters: \<open>resolve\<close> is \<^verbatim>\<open>self.pdf.getObject\<close> on an
  indirect reference held by a page; \<open>RectangleObject_init\<close> is the constructor
  \<^verbatim>\<open>RectangleObject(arr)\<close>, which returns the four numbers of the new rectangle or
  raises (its argument is \<open>None\<close> for Python's \<^verbatim>\<open>None\<close>); \<open>getWidth\<close> and
  \<open>getHeight\<close> are the methods of that name on the four numbers.
\<close>

record boxes =
  resolve :: "pdf_obj \<Rightarrow> pdf_obj"
  RectangleObject_init :: "pdf_obj option \<Rightarrow> py_error + pdf_obj list"
  getWidth :: "pdf_obj list \<Rightarrow> pdf_obj"
  getHeight :: "pdf_obj list \<Rightarrow> pdf_obj"

text \<open>
  \<^verbatim>\<open>getRectangle(self, name, defaults)\<close>, \<^verbatim>\<open>rectangle.py\<close> lines 35-48, on the entries
  of the page: the rectangle and the page as the call leaves it (a box that was not a
  \<^verbatim>\<open>RectangleObject\<close> is converted and stored under \<open>name\<close>).
\<close>

fun first_default :: "pdf_dict \<Rightarrow> string list \<Rightarrow> pdf_obj option" where
  "first_default self [] = None"
| "first_default self (d # defaults) =
     (case map_of self d of
        Some v \<Rightarrow> Some v
      | None \<Rightarrow>
          (case defaults of
             [] \<Rightarrow> None
           | _ \<Rightarrow> first_default self defaults))"

definition getRectangle ::
  "boxes \<Rightarrow> pdf_dict \<Rightarrow> string \<Rightarrow> string list \<Rightarrow> py_error + (pdf_obj list \<times> pdf_dict)" where
  "getRectangle g self name defaults =
     (case map_of self name of
        Some (RectangleObject r) \<Rightarrow> Inr (r, self)
      | retval \<Rightarrow>
          (let retval1 = (case retval of None \<Rightarrow> first_default self defaults | Some v \<Rightarrow> Some v);
               retval2 = (case retval1 of
                            Some (IndirectObject i gen) \<Rightarrow> Some (resolve g (IndirectObject i gen))
                          | v \<Rightarrow> v)
           in case RectangleObject_init g retval2 of
                Inl e \<Rightarrow> Inl e
              | Inr r \<Rightarrow> Inr (r, setitem self name (RectangleObject r))))"

text \<open>The property \<^verbatim>\<open>mediaBox = createRectangleAccessor("/MediaBox", ())\<close>, read.\<close>

definition mediaBox :: "boxes \<Rightarrow> pdf_dict \<Rightarrow> py_error + (pdf_obj list \<times> pdf_dict)" where
  "mediaBox g self = getRectangle g self ''/MediaBox'' []"

section \<open>The writer's page tree (\<^verbatim>\<open>writer.py\<close>)\<close>

text \<open>
  A \<^verbatim>\<open>PdfFileWriter\<close>: the list \<^verbatim>\<open>_objects\<close> and the indirect references \<^verbatim>\<open>_pages\<close>,
  \<^verbatim>\<open>_info\<close> and \<^verbatim>\<open>_root\<close>. Object number \<open>n\<close> is the element at index \<open>n - 1\<close>.
  A page is a dictionary; the attributes \<^verbatim>\<open>pdf\<close> and \<^verbatim>\<open>indirectRef\<close> of a
  \<^verbatim>\<open>PageObject\<close> play no part in the functions modelled here.
\<close>

record PdfFileWriter =
  objects :: "pdf_obj list"
  pages_ref :: pdf_obj
  info_ref :: pdf_obj
  root_ref :: pdf_obj

text \<open>\<^verbatim>\<open>__init__\<close>, lines 49-67; \<open>producer\<close> is the text of the \<^verbatim>\<open>/Producer\<close> string.\<close>

definition PdfFileWriter_init :: PdfFileWriter where
  "PdfFileWriter_init =
     \<lparr>objects =
        [DictionaryObject [(''/Type'', NameObject ''/Pages''), (''/Count'', NumberObject 0),
                           (''/Kids'', ArrayObject [])],
         DictionaryObject [(''/Producer'',
                            StringObject ''Python PDF Library - http://pybrary.net/pyPdf/'')],
         DictionaryObject [(''/Type'', NameObject ''/Catalog''),
                           (''/Pages'', IndirectObject 1 0)]],
      pages_ref = IndirectObject 1 0,
      info_ref = IndirectObject 2 0,
      root_ref = IndirectObject 3 0\<rparr>"

text \<open>\<^verbatim>\<open>_addObject\<close>, lines 69-71: the new reference and the writer.\<close>

definition addObject :: "PdfFileWriter \<Rightarrow> pdf_obj \<Rightarrow> pdf_obj \<times> PdfFileWriter" where
  "addObject self obj =
     (let objs = objects self @ [obj]
      in (IndirectObject (int (length objs)) 0, self\<lparr>objects := objs\<rparr>))"

text \<open>
  \<^verbatim>\<open>getObject\<close>, lines 73-77, for a reference of this writer:
  \<^verbatim>\<open>self._objects[ido.idnum - 1]\<close>. \<open>object_index\<close> is the position that subscript
  reads.
\<close>

definition getObject :: "PdfFileWriter \<Rightarrow> pdf_obj \<Rightarrow> py_error + pdf_obj" where
  "getObject self ido =
     (case ido of
        IndirectObject idnum gen \<Rightarrow> py_index (objects self) (idnum - 1)
      | _ \<Rightarrow> Inl AttributeError)"

definition object_index :: "PdfFileWriter \<Rightarrow> int \<Rightarrow> nat" where
  "object_index self idnum =
     (let i = idnum - 1 in nat (if i < 0 then int (length (objects self)) + i else i))"

text \<open>
  The two actions that \<^verbatim>\<open>addPage\<close> and \<^verbatim>\<open>insertPage\<close> hand to \<^verbatim>\<open>_addPage\<close>:
  \<^verbatim>\<open>list.append\<close> and \<^verbatim>\<open>lambda l, p: l.insert(index, p)\<close>.
\<close>

datatype action = Append | Insert int

fun apply_action :: "action \<Rightarrow> pdf_obj list \<Rightarrow> pdf_obj \<Rightarrow> pdf_obj list" where
  "apply_action Append l p = l @ [p]"
| "apply_action (Insert index) l p = py_insert l index p"

text \<open>
  \<^verbatim>\<open>_addPage\<close>, lines 86-92. Subscripting a dictionary resolves the value; the values
  read here (\<^verbatim>\<open>/Type\<close>, \<^verbatim>\<open>/Kids\<close>, \<^verbatim>\<open>/Count\<close>) are direct objects in every
  dictionary the writer builds, and a value of another kind ends in the exception that
  the operation on it raises. The writer is returned as the call leaves it, also when
  it raises.
\<close>

definition addPage_action ::
  "PdfFileWriter \<Rightarrow> pdf_obj \<Rightarrow> action \<Rightarrow> (py_error + unit) \<times> PdfFileWriter" where
  "addPage_action self page act =
     (case page of
        DictionaryObject d \<Rightarrow>
          (case map_of d ''/Type'' of
             None \<Rightarrow> (Inl KeyError, self)
           | Some ty \<Rightarrow>
               if \<not> eq_str ty ''/Page'' then (Inl AssertionError, self)
               else
                 (let (pageref, self1) =
                        addObject self (DictionaryObject (setitem d ''/Parent'' (pages_ref self)))
                  in case pages_ref self1 of
                       IndirectObject pid pgen \<Rightarrow>
                         (case getObject self1 (pages_ref self1) of
                            Inl e \<Rightarrow> (Inl e, self1)
                          | Inr (DictionaryObject pages) \<Rightarrow>
                              (case map_of pages ''/Kids'' of
                                 None \<Rightarrow> (Inl KeyError, self1)
                               | Some (ArrayObject kids) \<Rightarrow>
                                   (let pages1 = setitem pages ''/Kids''
                                                   (ArrayObject (apply_action act kids pageref));
                                        self2 = self1\<lparr>objects := (objects self1)
                                                  [object_index self1 pid := DictionaryObject pages1]\<rparr>
                                    in case map_of pages1 ''/Count'' of
                                         None \<Rightarrow> (Inl KeyError, self2)
                                       | Some (NumberObject n) \<Rightarrow>
                                           (Inr (),
                                            self2\<lparr>objects := (objects self2)
                                              [object_index self2 pid :=
                                                 DictionaryObject
                                                   (setitem pages1 ''/Count'' (NumberObject (n + 1)))]\<rparr>)
                                       | Some _ \<Rightarrow> (Inl TypeError, self2))
                               | Some _ \<Rightarrow> (Inl TypeError, self1))
                          | Inr _ \<Rightarrow> (Inl TypeError, self1))
                     | _ \<Rightarrow> (Inl AttributeError, self1)))
      | _ \<Rightarrow> (Inl TypeError, self))"

definition addPage :: "PdfFileWriter \<Rightarrow> pdf_obj \<Rightarrow> (py_error + unit) \<times> PdfFileWriter" where
  "addPage self page = addPage_action self page Append"

definition insertPage ::
  "PdfFileWriter \<Rightarrow> pdf_obj \<Rightarrow> int \<Rightarrow> (py_error + unit) \<times> PdfFileWriter" where
  "insertPage self page index = addPage_action self page (Insert index)"

text \<open>\<^verbatim>\<open>getNumPages\<close>, lines 126-128: \<^verbatim>\<open>int(pages["/Count"])\<close>.\<close>

definition getNumPages :: "PdfFileWriter \<Rightarrow> py_error + int" where
  "getNumPages self =
     (case getObject self (pages_ref self) of
        Inl e \<Rightarrow> Inl e
      | Inr (DictionaryObject pages) \<Rightarrow>
          (case map_of pages ''/Count'' of
             None \<Rightarrow> Inl KeyError
           | Some (NumberObject n) \<Rightarrow> Inr n
           | Some (FloatObject r) \<Rightarrow> Inr \<lfloor>r\<rfloor>
           | Some _ \<Rightarrow> Inl TypeError)
      | Inr _ \<Rightarrow> Inl TypeError)"

text \<open>
  \<^verbatim>\<open>getPage\<close>, lines 118-121: \<^verbatim>\<open>pages["/Kids"][pageNumber].getObject()\<close>; the result is
  the page's entries together with the position of the page in \<^verbatim>\<open>_objects\<close>, where a
  change made to the page through the returned object lands. Every kid the writer
  stores is a reference; a kid of another kind is answered with an exception here.
\<close>

definition getPage :: "PdfFileWriter \<Rightarrow> int \<Rightarrow> py_error + (pdf_dict \<times> nat)" where
  "getPage self pageNumber =
     (case getObject self (pages_ref self) of
        Inl e \<Rightarrow> Inl e
      | Inr (DictionaryObject pages) \<Rightarrow>
          (case map_of pages ''/Kids'' of
             None \<Rightarrow> Inl KeyError
           | Some (ArrayObject kids) \<Rightarrow>
               (case py_index kids pageNumber of
                  Inl e \<Rightarrow> Inl e
                | Inr (IndirectObject idnum gen) \<Rightarrow>
                    (case getObject self (IndirectObject idnum gen) of
                       Inl e \<Rightarrow> Inl e
                     | Inr (DictionaryObject page) \<Rightarrow> Inr (page, object_index self idnum)
                     | Inr _ \<Rightarrow> Inl AttributeError)
                | Inr _ \<Rightarrow> Inl AttributeError)
           | Some _ \<Rightarrow> Inl TypeError)
      | Inr _ \<Rightarrow> Inl TypeError)"

text \<open>
  The size of an existing page, as \<^verbatim>\<open>createBlankPage\<close> and \<^verbatim>\<open>insertBlankPage\<close> read
  it: \<^verbatim>\<open>p.mediaBox.getWidth()\<close>, then \<^verbatim>\<open>p.mediaBox.getHeight()\<close>. Reading the box can
  store a converted rectangle in the page, which is an element of \<^verbatim>\<open>_objects\<close>.
\<close>

definition page_size ::
  "boxes \<Rightarrow> PdfFileWriter \<Rightarrow> int \<Rightarrow> (py_error + pdf_obj \<times> pdf_obj) \<times> PdfFileWriter" where
  "page_size g self pageNumber =
     (case getPage self pageNumber of
        Inl e \<Rightarrow> (Inl e, self)
      | Inr (page, k) \<Rightarrow>
          (case mediaBox g page of
             Inl e \<Rightarrow> (Inl e, self)
           | Inr (r1, page1) \<Rightarrow>
               (let self1 = self\<lparr>objects := (objects self)[k := DictionaryObject page1]\<rparr>
                in case mediaBox g page1 of
                     Inl e \<Rightarrow> (Inl e, self1)
                   | Inr (r2, page2) \<Rightarrow>
                       (Inr (getWidth g r1, getHeight g r2),
                        self1\<lparr>objects := (objects self1)[k := DictionaryObject page2]\<rparr>))))"

text \<open>
  \<^verbatim>\<open>PageObject.createBlankPage(pdf, width, height)\<close>, \<^verbatim>\<open>page_object.py\<close> lines 182-199,
  called with the writer as \<open>pdf\<close>; \<open>None\<close> is Python's \<^verbatim>\<open>None\<close>. \<open>blank_size\<close> is
  the \<^verbatim>\<open>if width is None or height is None\<close> statement: the size the new page gets.
\<close>

definition blank_size ::
  "boxes \<Rightarrow> PdfFileWriter \<Rightarrow> pdf_obj option \<Rightarrow> pdf_obj option \<Rightarrow>
   (py_error + pdf_obj \<times> pdf_obj) \<times> PdfFileWriter" where
  "blank_size g pdf width height =
     (if width = None \<or> height = None then
        (case getNumPages pdf of
           Inl e \<Rightarrow> (Inl e, pdf)
         | Inr n \<Rightarrow>
             if n > 0 then page_size g pdf (n - 1)
             else (Inl PageSizeNotDefinedError, pdf))
      else (Inr (the width, the height), pdf))"

definition createBlankPage ::
  "boxes \<Rightarrow> PdfFileWriter \<Rightarrow> pdf_obj option \<Rightarrow> pdf_obj option \<Rightarrow>
   (py_error + pdf_obj) \<times> PdfFileWriter" where
  "createBlankPage g pdf width height =
     (let page = [(''/Type'', NameObject ''/Page''), (''/Parent'', NullObject),
                  (''/Resources'', DictionaryObject [])]
      in case blank_size g pdf width height of
           (Inl e, pdf') \<Rightarrow> (Inl e, pdf')
         | (Inr (w, h), pdf') \<Rightarrow>
             (case RectangleObject_init g
                     (Some (ArrayObject [NumberObject 0, NumberObject 0, w, h])) of
                Inl e \<Rightarrow> (Inl e, pdf')
              | Inr r \<Rightarrow>
                  (Inr (DictionaryObject (setitem page ''/MediaBox'' (RectangleObject r))),
                   pdf')))"

text \<open>\<^verbatim>\<open>addBlankPage\<close>, lines 138-141.\<close>

definition addBlankPage ::
  "boxes \<Rightarrow> PdfFileWriter \<Rightarrow> pdf_obj option \<Rightarrow> pdf_obj option \<Rightarrow>
   (py_error + unit) \<times> PdfFileWriter" where
  "addBlankPage g self width height =
     (case createBlankPage g self width height of
        (Inl e, self') \<Rightarrow> (Inl e, self')
      | (Inr page, self') \<Rightarrow> addPage self' page)"

text \<open>
  \<^verbatim>\<open>insertBlankPage\<close>, lines 152-160. The condition is
  \<^verbatim>\<open>width is None or height is None and (self.getNumPages() - 1) >= index\<close>, in which
  \<^verbatim>\<open>and\<close> binds tighter than \<^verbatim>\<open>or\<close>: the page count is read only when a width is
  given and the height is not. \<open>old_size\<close> is that \<^verbatim>\<open>if\<close> statement: the width and
  height handed on to \<^verbatim>\<open>createBlankPage\<close>.
\<close>

definition old_size ::
  "boxes \<Rightarrow> PdfFileWriter \<Rightarrow> pdf_obj option \<Rightarrow> pdf_obj option \<Rightarrow> int \<Rightarrow>
   (py_error + pdf_obj option \<times> pdf_obj option) \<times> PdfFileWriter" where
  "old_size g self width height index =
     (case (if width = None then Inr True
            else if height = None then
              (case getNumPages self of Inl e \<Rightarrow> Inl e | Inr n \<Rightarrow> Inr (n - 1 \<ge> index))
            else Inr False) of
        Inl e \<Rightarrow> (Inl e, self)
      | Inr True \<Rightarrow>
          (case page_size g self index of
             (Inl e, self') \<Rightarrow> (Inl e, self')
           | (Inr (w, h), self') \<Rightarrow> (Inr (Some w, Some h), self'))
      | Inr False \<Rightarrow> (Inr (width, height), self))"

definition insertBlankPage ::
  "boxes \<Rightarrow> PdfFileWriter \<Rightarrow> pdf_obj option \<Rightarrow> pdf_obj option \<Rightarrow> int \<Rightarrow>
   (py_error + unit) \<times> PdfFileWriter" where
  "insertBlankPage g self width height index =
     (case old_size g self width height index of
        (Inl e, self') \<Rightarrow> (Inl e, self')
      | (Inr (width', height'), self') \<Rightarrow>
          (case createBlankPage g self' width' height' of
             (Inl e, self'') \<Rightarrow> (Inl e, self'')
           | (Inr page, self'') \<Rightarrow> insertPage self'' page index))"

text \<open>
  A call of one of the four methods, and a sequence of calls on one writer; a call that
  raises leaves the writer as it is at that moment, and the caller goes on.
\<close>

datatype page_call =
    AddPage pdf_obj
  | InsertPage pdf_obj int
  | AddBlankPage "pdf_obj option" "pdf_obj option"
  | InsertBlankPage "pdf_obj option" "pdf_obj option" int

fun do_call :: "boxes \<Rightarrow> page_call \<Rightarrow> PdfFileWriter \<Rightarrow> (py_error + unit) \<times> PdfFileWriter" where
  "do_call g (AddPage page) self = addPage self page"
| "do_call g (InsertPage page index) self = insertPage self page index"
| "do_call g (AddBlankPage width height) self = addBlankPage g self width height"
| "do_call g (InsertBlankPage width height index) self = insertBlankPage g self width height index"

fun run_calls :: "boxes \<Rightarrow> page_call list \<Rightarrow> PdfFileWriter \<Rightarrow> PdfFileWriter" where
  "run_calls g [] self = self"
| "run_calls g (c # cs) self = run_calls g cs (snd (do_call g c self))"

text \<open>The number of calls of the sequence that return without raising.\<close>

fun returned :: "boxes \<Rightarrow> page_call list \<Rightarrow> PdfFileWriter \<Rightarrow> nat" where
  "returned g [] self = 0"
| "returned g (c # cs) self =
     (case do_call g c self of
        (Inl e, self') \<Rightarrow> returned g cs self'
      | (Inr u, self') \<Rightarrow> Suc (returned g cs self'))"

text \<open>The \<^verbatim>\<open>/Kids\<close> array and the \<^verbatim>\<open>/Count\<close> entry of the pages root.\<close>

definition kids_of :: "PdfFileWriter \<Rightarrow> pdf_obj list option" where
  "kids_of self =
     (case getObject self (pages_ref self) of
        Inr (DictionaryObject pages) \<Rightarrow>
          (case map_of pages ''/Kids'' of Some (ArrayObject kids) \<Rightarrow> Some kids | _ \<Rightarrow> None)
      | _ \<Rightarrow> None)"

definition count_of :: "PdfFileWriter \<Rightarrow> pdf_obj option" where
  "count_of self =
     (case getObject self (pages_ref self) of
        Inr (DictionaryObject pages) \<Rightarrow> map_of pages ''/Count''
      | _ \<Rightarrow> None)"

definition nkids :: "PdfFileWriter \<Rightarrow> nat option" where
  "nkids self = map_option length (kids_of self)"

text \<open>
  The shape of the page tree that every call keeps: the pages root is object 1, a
  dictionary of type \<^verbatim>\<open>/Pages\<close> whose \<^verbatim>\<open>/Count\<close> is the length of \<^verbatim>\<open>/Kids\<close>, and each
  kid is a reference to an object of the writer other than the root.
\<close>

definition page_tree_ok :: "PdfFileWriter \<Rightarrow> bool" where
  "page_tree_ok self \<longleftrightarrow>
     pages_ref self = IndirectObject 1 0 \<and>
     (case objects self of
        DictionaryObject pages # rest \<Rightarrow>
          map_of pages ''/Type'' = Some (NameObject ''/Pages'') \<and>
          (case map_of pages ''/Kids'' of
             Some (ArrayObject kids) \<Rightarrow>
               map_of pages ''/Count'' = Some (NumberObject (int (length kids))) \<and>
               list_all (\<lambda>k. case k of
                               IndirectObject i gen \<Rightarrow> 2 \<le> i \<and> i \<le> 1 + int (length rest)
                             | _ \<Rightarrow> False) kids
           | _ \<Rightarrow> False)
      | _ \<Rightarrow> False)"

text \<open>Stand-ins for the box code, to run the calls on concrete pages: a rectangle is made
  from an array of four objects, and the width and height are its third and fourth
  entries (every box below has its lower left corner at the origin).\<close>

definition toy_boxes :: boxes where
  "toy_boxes =
     \<lparr>resolve = (\<lambda>v. v),
      RectangleObject_init =
        (\<lambda>arr. case arr of
                  Some (ArrayObject [a, b, c, d]) \<Rightarrow> Inr [a, b, c, d]
                | Some (RectangleObject [a, b, c, d]) \<Rightarrow> Inr [a, b, c, d]
                | _ \<Rightarrow> Inl TypeError),
      getWidth = (\<lambda>r. r ! 2),
      getHeight = (\<lambda>r. r ! 3)\<rparr>"

section \<open>Writing the file (\<^verbatim>\<open>writer.py\<close>, \<^verbatim>\<open>PdfFileWriter.write\<close>)\<close>

text \<open>
  Python's \<^verbatim>\<open>str(n)\<close> and \<^verbatim>\<open>"%d" % n\<close> for a natural number, and the zero padding of
  \<^verbatim>\<open>"%010d"\<close> and \<^verbatim>\<open>"%05d"\<close>: a number with more digits than the width is printed
  in full.
\<close>

definition digit_char :: "nat \<Rightarrow> char" where
  "digit_char d = ''0123456789'' ! d"

function str_nat :: "nat \<Rightarrow> string" where
  "str_nat n = (if n < 10 then [digit_char n] else str_nat (n div 10) @ [digit_char (n mod 10)])"
  by pat_completeness auto
termination
  by (relation "measure id") auto

declare str_nat.simps [simp del]

definition zero_pad :: "nat \<Rightarrow> string \<Rightarrow> string" where
  "zero_pad width s = replicate (width - length s) CHR ''0'' @ s"

text \<open>Line 265: \<^verbatim>\<open>"%010d %05d n \n" % (offset, 0)\<close>.\<close>

definition xref_entry :: "nat \<Rightarrow> string" where
  "xref_entry offset = zero_pad 10 (str_nat offset) @ '' '' @ zero_pad 5 (str_nat 0) @ '' n \<newline>''"

text \<open>
  The writer when \<^verbatim>\<open>write\<close> reaches the comment \<^verbatim>\<open># Begin writing\<close> (line 239), after
  the sweep for indirect references: \<^verbatim>\<open>_header\<close>, the list \<^verbatim>\<open>_objects\<close> (an element
  is \<open>None\<close> for Python's \<^verbatim>\<open>None\<close>, the placeholder of the sweep), \<^verbatim>\<open>_root\<close>,
  \<^verbatim>\<open>_info\<close>, and the attributes that exist only after \<^verbatim>\<open>encrypt\<close> was called:
  \<^verbatim>\<open>_ID\<close>, the object number of \<^verbatim>\<open>_encrypt\<close>, and \<^verbatim>\<open>_encrypt_key\<close>.
\<close>

record swept_writer =
  header :: string
  swept_objects :: "pdf_obj option list"
  root :: pdf_obj
  info :: pdf_obj
  ID_attr :: "pdf_obj option"
  encrypt_attr :: "int option"
  encrypt_key :: bytes

text \<open>
  \<^verbatim>\<open>obj.writeToStream(stream, key)\<close> of \<^verbatim>\<open>generic.py\<close>, as the bytes it appends to the
  stream, and the digest function of \<^verbatim>\<open>hashlib\<close>; both are parameters.
\<close>

record serializer =
  writeToStream :: "pdf_obj \<Rightarrow> bytes option \<Rightarrow> string"
  md5_digest :: "bytes \<Rightarrow> bytes"

text \<open>
  The loop of lines 242-257 from index \<open>i\<close> on. The stream is the list of the bytes
  written so far, and \<^verbatim>\<open>stream.tell()\<close> is its length.
\<close>

fun write_objects ::
  "serializer \<Rightarrow> swept_writer \<Rightarrow> nat \<Rightarrow> pdf_obj option list \<Rightarrow> string \<Rightarrow> nat list \<Rightarrow>
   py_error + string \<times> nat list" where
  "write_objects g self i [] stream object_positions = Inr (stream, object_positions)"
| "write_objects g self i (obj # rest) stream object_positions =
     (let idnum = i + 1;
          object_positions1 = object_positions @ [length stream];
          stream1 = stream @ str_nat idnum @ '' 0 obj\<newline>''
      in case write_key (md5_digest g) (encrypt_attr self) (encrypt_key self) i of
           Inl e \<Rightarrow> Inl e
         | Inr key \<Rightarrow>
             write_objects g self (i + 1) rest
               (case obj of
                  None \<Rightarrow> stream1
                | Some ob \<Rightarrow> stream1 @ writeToStream g ob key @ ''\<newline>endobj\<newline>'')
               object_positions1)"

text \<open>The trailer dictionary of lines 269-277.\<close>

definition trailer_of :: "swept_writer \<Rightarrow> pdf_dict" where
  "trailer_of self =
     (let trailer = [(''/Size'', NumberObject (int (length (swept_objects self)) + 1)),
                     (''/Root'', root self), (''/Info'', info self)];
          trailer1 = (case ID_attr self of
                        None \<Rightarrow> trailer
                      | Some ident \<Rightarrow> setitem trailer ''/ID'' ident)
      in case encrypt_attr self of
           None \<Rightarrow> trailer1
         | Some e \<Rightarrow> setitem trailer1 ''/Encrypt'' (IndirectObject e 0))"

text \<open>
  Lines 239-281. The result is the stream after the call together with the values of
  the local variables \<^verbatim>\<open>object_positions\<close> and \<^verbatim>\<open>xref_location\<close>.
\<close>

definition write_swept ::
  "serializer \<Rightarrow> swept_writer \<Rightarrow> string \<Rightarrow> py_error + string \<times> nat list \<times> nat" where
  "write_swept g self stream =
     (case write_objects g self 0 (swept_objects self) (stream @ header self @ ''\<newline>'') [] of
        Inl e \<Rightarrow> Inl e
      | Inr (stream1, object_positions) \<Rightarrow>
          (let xref_location = length stream1;
               stream2 = stream1 @ ''xref\<newline>'';
               stream3 = stream2 @ ''0 '' @ str_nat (length (swept_objects self) + 1) @ ''\<newline>'';
               stream4 = stream3 @ zero_pad 10 (str_nat 0) @ '' '' @ zero_pad 5 (str_nat 65535) @
                           '' f \<newline>'';
               stream5 = stream4 @ concat (map xref_entry object_positions);
               stream6 = stream5 @ ''trailer\<newline>'';
               stream7 = stream6 @ writeToStream g (DictionaryObject (trailer_of self)) None
           in Inr (stream7 @ ''\<newline>startxref\<newline>'' @ str_nat xref_location @
                     ''\<newline>%%EOF\<newline>'',
                   object_positions, xref_location)))"

text \<open>Reading a decimal field back, as a reader of the table does.\<close>

definition digit_val :: "char \<Rightarrow> nat" where
  "digit_val c = of_char c - 48"

definition nat_of_decimal :: "string \<Rightarrow> nat" where
  "nat_of_decimal s = foldl (\<lambda>a c. 10 * a + digit_val c) 0 s"

text \<open>
  A writer to run the code on: the three objects of a new \<^verbatim>\<open>PdfFileWriter\<close>, and a
  stand-in serializer that writes every object as \<^verbatim>\<open><<>>\<close>.
\<close>

definition toy_serializer :: serializer where
  "toy_serializer = \<lparr>writeToStream = (\<lambda>ob key. ''<<>>''), md5_digest = (\<lambda>key. key)\<rparr>"

definition new_swept_writer :: swept_writer where
  "new_swept_writer =
     \<lparr>header = ''%PDF-1.3'',
      swept_objects = map Some (objects PdfFileWriter_init),
      root = root_ref PdfFileWriter_init,
      info = info_ref PdfFileWriter_init,
      ID_attr = None, encrypt_attr = None, encrypt_key = []\<rparr>"

section \<open>Content streams (\<^verbatim>\<open>page_object.py\<close>, class \<^verbatim>\<open>ContentStream\<close>)\<close>

type_synonym operation = "operands \<times> string"

text \<open>
  What the content-stream code uses of \<^verbatim>\<open>generic.py\<close> and \<^verbatim>\<open>utils.py\<close>, which are not
  among the sources; the code is modelled over any choice of them.
  \<^item> \<open>getObject_of\<close>: the method \<^verbatim>\<open>getObject()\<close> of an object (an indirect reference
    answers with its target, through its reader).
  \<^item> \<open>readObject\<close>: \<^verbatim>\<open>readObject(stream, pdf)\<close> on the bytes of the stream at a
    position; it returns the object and the position after it, or raises.
  \<^item> \<open>writeObject\<close>: the bytes that \<^verbatim>\<open>obj.writeToStream(stream, None)\<close> writes;
    \<open>writeSettings\<close>: the same for the settings dictionary of an inline image.
  \<^item> \<open>FloatObject_of\<close>: the constructor \<^verbatim>\<open>FloatObject(a)\<close> on a Python number, which is
    written here as a number object.
  \<^item> \<open>whitespace\<close>: the bytes that \<^verbatim>\<open>utils.readNonWhitespace\<close> skips;
    \<open>delimiterCharacters\<close>: the tuple \<^verbatim>\<open>NameObject.delimiterCharacters\<close>.
\<close>

record content_io =
  getObject_of :: "pdf_obj \<Rightarrow> pdf_obj"
  readObject :: "string \<Rightarrow> nat \<Rightarrow> py_error + pdf_obj \<times> nat"
  writeObject :: "pdf_obj \<Rightarrow> string"
  writeSettings :: "(pdf_obj \<times> pdf_obj) list \<Rightarrow> string"
  FloatObject_of :: "pdf_obj \<Rightarrow> pdf_obj"
  whitespace :: "char \<Rightarrow> bool"
  delimiterCharacters :: "char list"

text \<open>Python's \<^verbatim>\<open>str.isalpha\<close> and \<^verbatim>\<open>str.isspace\<close> on one byte (ASCII).\<close>

definition isalpha :: "char \<Rightarrow> bool" where
  "isalpha c \<longleftrightarrow> c \<in> set ''ABCDEFGHIJKLMNOPQRSTUVWXYZabcdefghijklmnopqrstuvwxyz''"

definition isspace :: "char \<Rightarrow> bool" where
  "isspace c \<longleftrightarrow> c \<in> set [CHR '' '', CHR 0x09, CHR 0x0A, CHR 0x0B, CHR 0x0C, CHR 0x0D]"

text \<open>
  A stream is its bytes \<open>data\<close> and a position. \<^verbatim>\<open>stream.read(1)\<close> at the end returns
  the empty string (\<open>None\<close> here) and does not move; \<^verbatim>\<open>stream.seek(-1, 1)\<close> moves one
  byte back and stops at 0.

  Modelled from the spec: \<^verbatim>\<open>utils.readNonWhitespace\<close> is not among the sources; the
  tokenizer of the specification skips whitespace, and the function returns the first byte
  that is not whitespace, having read it, or the empty string at the end of the stream.
\<close>

function readNonWhitespace :: "content_io \<Rightarrow> string \<Rightarrow> nat \<Rightarrow> char option \<times> nat" where
  "readNonWhitespace g data pos =
     (if pos < length data then
        (if whitespace g (data ! pos) then readNonWhitespace g data (Suc pos)
         else (Some (data ! pos), Suc pos))
      else (None, pos))"
  by pat_completeness auto
termination
  by (relation "measure (\<lambda>(g, data, pos). length data - pos)") auto

declare readNonWhitespace.simps [simp del]

text \<open>
  The inner loop of \<^verbatim>\<open>__parseContentStream\<close>, lines 70-77, which collects the bytes of
  an operator: it stops before a space or delimiter, or at the end of the stream.
\<close>

function read_operator :: "content_io \<Rightarrow> string \<Rightarrow> nat \<Rightarrow> string \<Rightarrow> string \<times> nat" where
  "read_operator g data pos operator =
     (if pos < length data then
        (let tok = data ! pos in
         if isspace tok \<or> tok \<in> set (delimiterCharacters g) then (operator, pos)
         else read_operator g data (Suc pos) (operator @ [tok]))
      else (operator, pos))"
  by pat_completeness auto
termination
  by (relation "measure (\<lambda>(g, data, pos, operator). length data - pos)") auto

declare read_operator.simps [simp del]

text \<open>
  The comment loop, lines 93-94: \<^verbatim>\<open>while peek not in ('\r', '\n'): peek = stream.read(1)\<close>.
  At the end of the stream \<^verbatim>\<open>read\<close> keeps returning the empty string and the loop never
  ends: the result is \<open>None\<close>.
\<close>

function skip_comment :: "string \<Rightarrow> nat \<Rightarrow> nat option" where
  "skip_comment data pos =
     (if pos < length data then
        (if data ! pos = CHR 0x0D \<or> data ! pos = CHR 0x0A then Some (Suc pos)
         else skip_comment data (Suc pos))
      else None)"
  by pat_completeness auto
termination
  by (relation "measure (\<lambda>(data, pos). length data - pos)") auto

declare skip_comment.simps [simp del]

text \<open>
  \<^verbatim>\<open>_readInlineImage\<close>, lines 98-130. First the loop that reads the settings, lines
  102-112; it does not end when \<^verbatim>\<open>readObject\<close> keeps returning without the stream
  reaching the byte \<^verbatim>\<open>I\<close>.
\<close>

partial_function (option) read_settings ::
  "content_io \<Rightarrow> string \<Rightarrow> nat \<Rightarrow> (pdf_obj \<times> pdf_obj) list \<Rightarrow>
   (py_error + (pdf_obj \<times> pdf_obj) list \<times> nat) option" where
  "read_settings g data pos settings =
     (case readNonWhitespace g data pos of
        (tok, pos1) \<Rightarrow>
          (let pos2 = pos1 - 1 in
           if tok = Some CHR ''I'' then Some (Inr (settings, pos2))
           else
             (case readObject g data pos2 of
                Inl e \<Rightarrow> Some (Inl e)
              | Inr (key, pos3) \<Rightarrow>
                  (case readNonWhitespace g data pos3 of
                     (tok', pos4) \<Rightarrow>
                       (case readObject g data (pos4 - 1) of
                          Inl e \<Rightarrow> Some (Inl e)
                        | Inr (val, pos5) \<Rightarrow>
                            read_settings g data pos5 (setitem settings key val))))))"

text \<open>
  The loop that collects the image bytes up to \<^verbatim>\<open>EI\<close>, lines 117-127. At the end of
  the stream it never ends (\<open>None\<close>): \<^verbatim>\<open>read\<close> returns the empty string again and
  again, or, after a last \<^verbatim>\<open>E\<close>, the stream is moved back onto that byte.
\<close>

function read_image_data :: "string \<Rightarrow> nat \<Rightarrow> string \<Rightarrow> (string \<times> nat) option" where
  "read_image_data data pos acc =
     (if pos < length data then
        (if data ! pos = CHR ''E'' then
           (if Suc pos < length data then
              (if data ! Suc pos = CHR ''I'' then Some (acc, Suc (Suc pos))
               else read_image_data data (Suc pos) (acc @ ''E''))
            else None)
         else read_image_data data (Suc pos) (acc @ [data ! pos]))
      else None)"
  by pat_completeness auto
termination
  by (relation "measure (\<lambda>(data, pos, acc). length data - pos)") auto

declare read_image_data.simps [simp del]

definition readInlineImage ::
  "content_io \<Rightarrow> string \<Rightarrow> nat \<Rightarrow> (py_error + operands \<times> nat) option" where
  "readInlineImage g data pos =
     (case read_settings g data pos [] of
        None \<Rightarrow> None
      | Some (Inl e) \<Rightarrow> Some (Inl e)
      | Some (Inr (settings, pos1)) \<Rightarrow>
          (let tmp = take 3 (drop pos1 data);
               pos2 = min (pos1 + 3) (length data)
           in if take 2 tmp \<noteq> ''ID'' then Some (Inl AssertionError)
              else
                (case read_image_data data pos2 [] of
                   None \<Rightarrow> None
                 | Some (img, pos3) \<Rightarrow>
                     (case readNonWhitespace g data pos3 of
                        (tok, pos4) \<Rightarrow> Some (Inr (InlineImage settings img, pos4 - 1))))))"

text \<open>
  \<^verbatim>\<open>__parseContentStream\<close>, lines 60-96, from position \<open>pos\<close> with the operands
  collected so far and the operations appended so far.
\<close>

partial_function (option) parse_loop ::
  "content_io \<Rightarrow> string \<Rightarrow> nat \<Rightarrow> pdf_obj list \<Rightarrow> operation list \<Rightarrow>
   (py_error + operation list) option" where
  "parse_loop g data pos operands operations =
     (case readNonWhitespace g data pos of
        (None, pos1) \<Rightarrow> Some (Inr operations)
      | (Some peek, pos1) \<Rightarrow>
          (let pos2 = pos1 - 1 in
           if isalpha peek \<or> peek = CHR 0x27 \<or> peek = CHR 0x22 then
             (case read_operator g data pos2 [] of
                (operator, pos3) \<Rightarrow>
                  if operator = ''BI'' then
                    (if operands \<noteq> [] then Some (Inl AssertionError)
                     else
                       (case readInlineImage g data pos3 of
                          None \<Rightarrow> None
                        | Some (Inl e) \<Rightarrow> Some (Inl e)
                        | Some (Inr (ii, pos4)) \<Rightarrow>
                            parse_loop g data pos4 operands
                              (operations @ [(ii, ''INLINE IMAGE'')])))
                  else parse_loop g data pos3 [] (operations @ [(Operands operands, operator)]))
           else if peek = CHR ''%'' then
             (case skip_comment data pos2 of
                None \<Rightarrow> None
              | Some pos3 \<Rightarrow> parse_loop g data pos3 operands operations)
           else
             (case readObject g data pos2 of
                Inl e \<Rightarrow> Some (Inl e)
              | Inr (ob, pos3) \<Rightarrow> parse_loop g data pos3 (operands @ [ob]) operations)))"

declare read_settings.simps [code]
declare parse_loop.simps [code]

text \<open>
  \<^verbatim>\<open>_getData\<close>, lines 132-149: the bytes of one operation, and of the list. The branch
  is taken on the operator; operands of the other kind end in the exception of the first
  operation on them (a list subscripted with \<^verbatim>\<open>"settings"\<close>, or \<^verbatim>\<open>writeToStream\<close>
  called on the string that iterating over a Python \<^verbatim>\<open>dict\<close> yields).
\<close>

definition operation_bytes :: "content_io \<Rightarrow> operation \<Rightarrow> py_error + string" where
  "operation_bytes g oper =
     (case oper of
        (operands, operator) \<Rightarrow>
          if operator = ''INLINE IMAGE'' then
            (case operands of
               InlineImage settings img \<Rightarrow>
                 (let dicttext = writeSettings g settings
                  in Inr (''BI'' @ drop 2 (take (length dicttext - 2) dicttext) @ ''ID '' @ img @
                          ''EI'' @ ''\<newline>''))
             | Operands ops \<Rightarrow> Inl TypeError)
          else
            (case operands of
               Operands ops \<Rightarrow>
                 Inr (concat (map (\<lambda>ob. writeObject g ob @ '' '') ops) @ operator @ ''\<newline>'')
             | InlineImage settings img \<Rightarrow> Inl AttributeError))"

fun getData_operations :: "content_io \<Rightarrow> operation list \<Rightarrow> py_error + string" where
  "getData_operations g [] = Inr []"
| "getData_operations g (oper # rest) =
     (case operation_bytes g oper of
        Inl e \<Rightarrow> Inl e
      | Inr b \<Rightarrow>
          (case getData_operations g rest of
             Inl e \<Rightarrow> Inl e
           | Inr bs \<Rightarrow> Inr (b @ bs)))"

text \<open>
  \<^verbatim>\<open>getData()\<close> of a stream: the decoded bytes of a \<^verbatim>\<open>StreamObject\<close>, and
  \<^verbatim>\<open>_getData\<close> for a \<^verbatim>\<open>ContentStream\<close> (whose \<^verbatim>\<open>_data\<close> is that property). Other
  objects have no such method.
\<close>

definition getData :: "content_io \<Rightarrow> pdf_obj \<Rightarrow> py_error + string" where
  "getData g ob =
     (case ob of
        StreamObject d bytes \<Rightarrow> Inr bytes
      | ContentStream operations \<Rightarrow> getData_operations g operations
      | _ \<Rightarrow> Inl AttributeError)"

text \<open>
  \<^verbatim>\<open>ContentStream.__init__(stream, pdf)\<close>, lines 45-58: the bytes of the stream, or of
  all streams of an array, are tokenized. The result is the list \<^verbatim>\<open>operations\<close> of the
  new object.
\<close>

fun getData_all :: "content_io \<Rightarrow> pdf_obj list \<Rightarrow> py_error + string" where
  "getData_all g [] = Inr []"
| "getData_all g (s # rest) =
     (case getData g (getObject_of g s) of
        Inl e \<Rightarrow> Inl e
      | Inr b \<Rightarrow>
          (case getData_all g rest of
             Inl e \<Rightarrow> Inl e
           | Inr bs \<Rightarrow> Inr (b @ bs)))"

definition ContentStream_init :: "content_io \<Rightarrow> pdf_obj \<Rightarrow> (py_error + operation list) option" where
  "ContentStream_init g stream =
     (case (case getObject_of g stream of
              ArrayObject streams \<Rightarrow> getData_all g streams
            | s \<Rightarrow> getData g s) of
        Inl e \<Rightarrow> Some (Inl e)
      | Inr data \<Rightarrow> parse_loop g data 0 [] [])"

section \<open>Pages (\<^verbatim>\<open>page_object.py\<close>, class \<^verbatim>\<open>PageObject\<close>)\<close>

text \<open>
  A page is the list of its dictionary entries. A function that tokenizes a content
  stream returns \<open>None\<close> when the tokenizer does not end, \<open>Some (Inl e)\<close> when it
  raises, and \<open>Some (Inr x)\<close> when it returns \<open>x\<close>; \<open>and_then\<close> chains two such steps.
\<close>

definition and_then ::
  "(py_error + 'a) option \<Rightarrow> ('a \<Rightarrow> (py_error + 'b) option) \<Rightarrow> (py_error + 'b) option" where
  "and_then m f = (case m of None \<Rightarrow> None | Some (Inl e) \<Rightarrow> Some (Inl e) | Some (Inr x) \<Rightarrow> f x)"

text \<open>\<^verbatim>\<open>getContents\<close>, lines 278-282.\<close>

definition getContents :: "content_io \<Rightarrow> pdf_dict \<Rightarrow> pdf_obj option" where
  "getContents g self = map_option (getObject_of g) (map_of self ''/Contents'')"

subsection \<open>Merging resources\<close>

text \<open>
  \<^verbatim>\<open>_mergeResources(res1, res2, resource)\<close>, lines 226-238. \<^verbatim>\<open>d[key]\<close> on a
  dictionary object resolves the value (\<open>getObject_of\<close>), \<^verbatim>\<open>d.raw_get(key)\<close> and
  \<^verbatim>\<open>d.get(key)\<close> return it as stored. \<open>merge_key\<close> is one round of the loop over the
  keys of \<open>page2Res\<close>, on the pair \<open>(newRes, renameRes)\<close>.
\<close>

definition merge_key ::
  "content_io \<Rightarrow> pdf_dict \<Rightarrow> string \<Rightarrow> pdf_dict \<times> (string \<times> pdf_obj) list \<Rightarrow>
   pdf_dict \<times> (string \<times> pdf_obj) list" where
  "merge_key g page2Res key acc =
     (case acc of
        (newRes, renameRes) \<Rightarrow>
          (case (map_of newRes key, map_of page2Res key) of
             (Some v1, Some v2) \<Rightarrow>
               if getObject_of g v1 \<noteq> getObject_of g v2 then
                 (let newname = key @ ''renamed''
                  in (setitem newRes newname (getObject_of g v2),
                      setitem renameRes key (NameObject newname)))
               else (newRes, renameRes)
           | (None, Some v2) \<Rightarrow> (setitem newRes key v2, renameRes)
           | _ \<Rightarrow> (newRes, renameRes)))"

definition mergeResources ::
  "content_io \<Rightarrow> pdf_dict \<Rightarrow> pdf_dict \<Rightarrow> string \<Rightarrow>
   py_error + pdf_dict \<times> (string \<times> pdf_obj) list" where
  "mergeResources g res1 res2 resource =
     (case getObject_of g (case map_of res1 resource of None \<Rightarrow> DictionaryObject [] | Some v \<Rightarrow> v) of
        DictionaryObject d1 \<Rightarrow>
          (let newRes = fold (\<lambda>(k, v) d. setitem d k v) d1 []
           in case getObject_of g
                     (case map_of res2 resource of None \<Rightarrow> DictionaryObject [] | Some v \<Rightarrow> v) of
                DictionaryObject page2Res \<Rightarrow>
                  Inr (fold (merge_key g page2Res) (map fst page2Res) (newRes, []))
              | _ \<Rightarrow> Inl AttributeError)
      | _ \<Rightarrow> Inl TypeError)"

subsection \<open>Rewriting content streams\<close>

text \<open>
  \<^verbatim>\<open>_contentStreamRename\<close>, lines 241-250. With an empty \<open>rename\<close> the stream is
  returned as it is. The loop subscripts the operands with \<^verbatim>\<open>0, 1, ...\<close>; on the
  operands of an inline image, a Python \<^verbatim>\<open>dict\<close> with two keys, that raises
  \<^verbatim>\<open>KeyError\<close>.
\<close>

definition rename_operand :: "(string \<times> pdf_obj) list \<Rightarrow> pdf_obj \<Rightarrow> pdf_obj" where
  "rename_operand rename op =
     (case op of
        NameObject n \<Rightarrow> (case map_of rename n of Some n' \<Rightarrow> n' | None \<Rightarrow> op)
      | _ \<Rightarrow> op)"

fun rename_operations ::
  "(string \<times> pdf_obj) list \<Rightarrow> operation list \<Rightarrow> py_error + operation list" where
  "rename_operations rename [] = Inr []"
| "rename_operations rename ((InlineImage settings img, operator) # rest) = Inl KeyError"
| "rename_operations rename ((Operands ops, operator) # rest) =
     (case rename_operations rename rest of
        Inl e \<Rightarrow> Inl e
      | Inr rest' \<Rightarrow> Inr ((Operands (map (rename_operand rename) ops), operator) # rest'))"

definition contentStreamRename ::
  "content_io \<Rightarrow> pdf_obj \<Rightarrow> (string \<times> pdf_obj) list \<Rightarrow> (py_error + pdf_obj) option" where
  "contentStreamRename g stream rename =
     (if rename = [] then Some (Inr stream)
      else
        and_then (ContentStream_init g stream)
          (\<lambda>operations.
             case rename_operations rename operations of
               Inl e \<Rightarrow> Some (Inl e)
             | Inr operations' \<Rightarrow> Some (Inr (ContentStream operations'))))"

text \<open>\<^verbatim>\<open>_pushPopGS\<close>, lines 253-260.\<close>

definition pushPopGS :: "content_io \<Rightarrow> pdf_obj \<Rightarrow> (py_error + pdf_obj) option" where
  "pushPopGS g contents =
     and_then (ContentStream_init g contents)
       (\<lambda>operations.
          Some (Inr (ContentStream ((Operands [], ''q'') # operations @ [(Operands [], ''Q'')]))))"

text \<open>
  \<^verbatim>\<open>_addTransformationMatrix\<close>, lines 263-272. The tuple assignment needs six
  entries. The operator is written in the source with a leading space, \<^verbatim>\<open>" cm"\<close>.
\<close>

definition addTransformationMatrix ::
  "content_io \<Rightarrow> pdf_obj \<Rightarrow> pdf_obj list \<Rightarrow> (py_error + pdf_obj) option" where
  "addTransformationMatrix g contents ctm =
     (case ctm of
        [a, b, c, d, e, f] \<Rightarrow>
          and_then (ContentStream_init g contents)
            (\<lambda>operations.
               Some (Inr (ContentStream
                 ((Operands [FloatObject_of g a, FloatObject_of g b, FloatObject_of g c,
                             FloatObject_of g d, FloatObject_of g e, FloatObject_of g f],
                   '' cm'') # operations))))
      | _ \<Rightarrow> Some (Inl ValueError))"

subsection \<open>Merging pages\<close>

text \<open>
  The seven resource categories of \<^verbatim>\<open>_mergePage\<close>, and its loop over them (lines
  327-333): the merged category is stored when it is not empty, and its renamings are
  added to \<open>rename\<close>.
\<close>

definition resource_categories :: "string list" where
  "resource_categories =
     [''/ExtGState'', ''/Font'', ''/XObject'', ''/ColorSpace'', ''/Pattern'', ''/Shading'',
      ''/Properties'']"

fun merge_categories ::
  "content_io \<Rightarrow> pdf_dict \<Rightarrow> pdf_dict \<Rightarrow> string list \<Rightarrow> pdf_dict \<times> (string \<times> pdf_obj) list \<Rightarrow>
   py_error + pdf_dict \<times> (string \<times> pdf_obj) list" where
  "merge_categories g originalResources page2Resources [] acc = Inr acc"
| "merge_categories g originalResources page2Resources (res # rest) (newResources, rename) =
     (case mergeResources g originalResources page2Resources res of
        Inl e \<Rightarrow> Inl e
      | Inr (new, newrename) \<Rightarrow>
          merge_categories g originalResources page2Resources rest
            (if new \<noteq> [] then
               (setitem newResources res (DictionaryObject new),
                fold (\<lambda>(k, v) d. setitem d k v) newrename rename)
             else (newResources, rename)))"

text \<open>
  The \<^verbatim>\<open>/ProcSet\<close> entry, lines 335-339: the union of two \<^verbatim>\<open>frozenset\<close>s, made an
  array. Python fixes no order for the elements of a set; here they stand in the order
  of their first occurrence.
\<close>

definition procset_of :: "content_io \<Rightarrow> pdf_dict \<Rightarrow> py_error + pdf_obj list" where
  "procset_of g resources =
     (case getObject_of g (case map_of resources ''/ProcSet'' of
                              None \<Rightarrow> ArrayObject [] | Some v \<Rightarrow> v) of
        ArrayObject xs \<Rightarrow> Inr xs
      | RectangleObject xs \<Rightarrow> Inr xs
      | _ \<Rightarrow> Inl TypeError)"

text \<open>
  The first part of \<^verbatim>\<open>_mergePage\<close>, lines 321-339: the merged resources, with the
  \<^verbatim>\<open>/ProcSet\<close> entry, and the table \<open>rename\<close>.
\<close>

definition merged_resources ::
  "content_io \<Rightarrow> pdf_dict \<Rightarrow> pdf_dict \<Rightarrow> py_error + pdf_dict \<times> (string \<times> pdf_obj) list" where
  "merged_resources g self page2 =
     (case (map_of self ''/Resources'', map_of page2 ''/Resources'') of
        (Some r1, Some r2) \<Rightarrow>
          (case (getObject_of g r1, getObject_of g r2) of
             (DictionaryObject originalResources, DictionaryObject page2Resources) \<Rightarrow>
               (case merge_categories g originalResources page2Resources resource_categories
                       ([], []) of
                  Inl e \<Rightarrow> Inl e
                | Inr (newResources, rename) \<Rightarrow>
                    (case (procset_of g originalResources, procset_of g page2Resources) of
                       (Inr ps1, Inr ps2) \<Rightarrow>
                         Inr (setitem newResources ''/ProcSet'' (ArrayObject (remdups (ps1 @ ps2))),
                              rename)
                     | (Inl e, _) \<Rightarrow> Inl e
                     | (_, Inl e) \<Rightarrow> Inl e))
           | _ \<Rightarrow> Inl AttributeError)
      | _ \<Rightarrow> Inl KeyError)"

text \<open>
  \<^verbatim>\<open>_mergePage(self, page2, page2transformation, ctm, expand)\<close>, lines 317-390, as
  \<^verbatim>\<open>mergePage\<close> and \<^verbatim>\<open>mergeTransformedPage\<close> call it: \<open>expand\<close> keeps its default
  \<^verbatim>\<open>False\<close>, so that the block of lines 355-386 is not run and \<open>ctm\<close> is not read.
  \<open>page2transformation\<close> is \<open>None\<close> for Python's \<^verbatim>\<open>None\<close>. The result is the page
  \<open>self\<close> after the call. \<open>wrapped_page2\<close> is the body of the test
  \<^verbatim>\<open>if page2Content is not None\<close>, lines 345-351.
\<close>

definition wrapped_page2 ::
  "content_io \<Rightarrow> pdf_obj \<Rightarrow> (pdf_obj \<Rightarrow> (py_error + pdf_obj) option) option \<Rightarrow>
   (string \<times> pdf_obj) list \<Rightarrow> (py_error + pdf_obj) option" where
  "wrapped_page2 g page2Content page2transformation rename =
     and_then
       (case page2transformation of
          None \<Rightarrow> Some (Inr page2Content)
        | Some t \<Rightarrow> t page2Content)
       (\<lambda>page2Content1.
          and_then (contentStreamRename g page2Content1 rename)
            (\<lambda>page2Content2. pushPopGS g page2Content2))"

definition mergePage_with ::
  "content_io \<Rightarrow> pdf_dict \<Rightarrow> pdf_dict \<Rightarrow> (pdf_obj \<Rightarrow> (py_error + pdf_obj) option) option \<Rightarrow>
   (py_error + pdf_dict) option" where
  "mergePage_with g self page2 page2transformation =
     (case merged_resources g self page2 of
        Inl e \<Rightarrow> Some (Inl e)
      | Inr (newResources, rename) \<Rightarrow>
          and_then
            (case getContents g self of
               None \<Rightarrow> Some (Inr [])
             | Some originalContent \<Rightarrow>
                 and_then (pushPopGS g originalContent) (\<lambda>c. Some (Inr [c])))
            (\<lambda>newContentArray1.
               and_then
                 (case getContents g page2 of
                    None \<Rightarrow> Some (Inr newContentArray1)
                  | Some page2Content \<Rightarrow>
                      and_then (wrapped_page2 g page2Content page2transformation rename)
                        (\<lambda>page2Content'. Some (Inr (newContentArray1 @ [page2Content']))))
                 (\<lambda>newContentArray.
                    and_then (ContentStream_init g (ArrayObject newContentArray))
                      (\<lambda>operations.
                         Some (Inr (setitem
                           (setitem self ''/Contents'' (ContentStream operations))
                           ''/Resources'' (DictionaryObject newResources)))))))"

text \<open>\<^verbatim>\<open>mergePage\<close>, \<^verbatim>\<open>mergeTransformedPage\<close> and \<^verbatim>\<open>mergeScaledPage\<close>, lines 294-414.\<close>

definition mergePage :: "content_io \<Rightarrow> pdf_dict \<Rightarrow> pdf_dict \<Rightarrow> (py_error + pdf_dict) option" where
  "mergePage g self page2 = mergePage_with g self page2 None"

definition mergeTransformedPage ::
  "content_io \<Rightarrow> pdf_dict \<Rightarrow> pdf_dict \<Rightarrow> pdf_obj list \<Rightarrow> (py_error + pdf_dict) option" where
  "mergeTransformedPage g self page2 ctm =
     mergePage_with g self page2
       (Some (\<lambda>page2Content. addTransformationMatrix g page2Content ctm))"

definition mergeScaledPage ::
  "content_io \<Rightarrow> pdf_dict \<Rightarrow> pdf_dict \<Rightarrow> pdf_obj \<Rightarrow> (py_error + pdf_dict) option" where
  "mergeScaledPage g self page2 factor =
     mergeTransformedPage g self page2
       [factor, NumberObject 0, NumberObject 0, factor, NumberObject 0, NumberObject 0]"

subsection \<open>A stand-in for the object code\<close>

text \<open>
  To run the page code on concrete pages: one indirect reference (object 5) resolves to
  a font dictionary; an operand is read as the run of bytes up to the next whitespace and
  kept as that token (a name when it starts with a slash, a string object otherwise) and
  written as the token; the decimal one half is written \<^verbatim>\<open>0.5\<close>, any other number by
  its integer part; whitespace and delimiters are those of the PDF syntax.
\<close>

definition toy_whitespace :: "char \<Rightarrow> bool" where
  "toy_whitespace c \<longleftrightarrow> c \<in> set [CHR '' '', CHR 0x0A, CHR 0x0D, CHR 0x09, CHR 0x00]"

definition toy_readObject :: "string \<Rightarrow> nat \<Rightarrow> py_error + pdf_obj \<times> nat" where
  "toy_readObject data pos =
     (let tok = takeWhile (\<lambda>c. \<not> toy_whitespace c) (drop pos data)
      in if tok = [] then Inl PdfReadError
         else Inr (if hd tok = CHR ''/'' then NameObject tok else StringObject tok,
                   pos + length tok))"

definition toy_writeObject :: "pdf_obj \<Rightarrow> string" where
  "toy_writeObject ob =
     (case ob of
        NameObject t \<Rightarrow> t
      | StringObject t \<Rightarrow> t
      | FloatObject r \<Rightarrow> if r = 1 / 2 then ''0.5'' else str_nat (nat \<lfloor>r\<rfloor>)
      | NumberObject n \<Rightarrow> str_nat (nat n)
      | _ \<Rightarrow> ''null'')"

definition toy_io :: content_io where
  "toy_io =
     \<lparr>getObject_of =
        (\<lambda>ob. if ob = IndirectObject 5 0
              then DictionaryObject [(''/Type'', NameObject ''/Font'')] else ob),
      readObject = toy_readObject,
      writeObject = toy_writeObject,
      writeSettings = (\<lambda>settings. ''<<>>''),
      FloatObject_of =
        (\<lambda>a. case a of NumberObject n \<Rightarrow> FloatObject (of_int n) | _ \<Rightarrow> a),
      whitespace = toy_whitespace,
      delimiterCharacters = ''()<>[]{}/%''\<rparr>"

subsection \<open>Operations that survive re-tokenization\<close>

text \<open>
  Conditions on the object code under which the tokenizer reads back what
  \<^verbatim>\<open>_getData\<close> wrote.

  \<open>operator_ok\<close>: the operator starts with a letter or a quote that is not skipped as
  whitespace, contains no space and no delimiter, and is not \<^verbatim>\<open>BI\<close>.

  \<open>reads_back g ob ob'\<close>: the bytes written for \<open>ob\<close> are not taken for whitespace, an
  operator or a comment, and wherever they stand in a stream, followed by a space,
  \<^verbatim>\<open>readObject\<close> returns \<open>ob'\<close> and leaves the stream at that space.

  \<open>operation_ok\<close>: an operation with such an operator whose operands are read back as
  they are.
\<close>

definition operator_ok :: "content_io \<Rightarrow> string \<Rightarrow> bool" where
  "operator_ok g operator \<longleftrightarrow>
     operator \<noteq> [] \<and>
     (isalpha (hd operator) \<or> hd operator = CHR 0x27 \<or> hd operator = CHR 0x22) \<and>
     \<not> whitespace g (hd operator) \<and>
     list_all (\<lambda>c. \<not> isspace c \<and> c \<notin> set (delimiterCharacters g)) operator \<and>
     operator \<noteq> ''BI''"

definition reads_back :: "content_io \<Rightarrow> pdf_obj \<Rightarrow> pdf_obj \<Rightarrow> bool" where
  "reads_back g ob ob' \<longleftrightarrow>
     writeObject g ob \<noteq> [] \<and>
     \<not> whitespace g (hd (writeObject g ob)) \<and>
     \<not> isalpha (hd (writeObject g ob)) \<and>
     hd (writeObject g ob) \<notin> {CHR 0x27, CHR 0x22, CHR ''%''} \<and>
     (\<forall>data pos rest.
        drop pos data = writeObject g ob @ CHR '' '' # rest \<longrightarrow>
        readObject g data pos = Inr (ob', pos + length (writeObject g ob)))"

fun operation_ok :: "content_io \<Rightarrow> operation \<Rightarrow> bool" where
  "operation_ok g (Operands obs, operator) \<longleftrightarrow>
     operator_ok g operator \<and> list_all (\<lambda>ob. reads_back g ob ob) obs"
| "operation_ok g (InlineImage settings img, operator) \<longleftrightarrow> False"

text \<open>
  \<open>separators\<close>: the space and the newline that \<^verbatim>\<open>_getData\<close> writes between tokens are
  whitespace for \<^verbatim>\<open>readNonWhitespace\<close>. \<open>direct_objects\<close>: \<^verbatim>\<open>getObject()\<close> of a
  content stream or an array is the object itself.
\<close>

definition separators :: "content_io \<Rightarrow> bool" where
  "separators g \<longleftrightarrow> whitespace g CHR '' '' \<and> whitespace g CHR 0x0A"

definition direct_objects :: "content_io \<Rightarrow> bool" where
  "direct_objects g \<longleftrightarrow>
     (\<forall>operations. getObject_of g (ContentStream operations) = ContentStream operations) \<and>
     (\<forall>xs. getObject_of g (ArrayObject xs) = ArrayObject xs)"

text \<open>The number of places at which the byte sequence \<open>pat\<close> occurs in \<open>s\<close>.\<close>

definition occurrences :: "string \<Rightarrow> string \<Rightarrow> nat" where
  "occurrences pat s =
     length (filter (\<lambda>i. take (length pat) (drop i s) = pat) [0 ..< Suc (length s) - length pat])"

text \<open>
  \<open>written_number g a a' text\<close>: the Python number \<open>a\<close>, made a \<^verbatim>\<open>FloatObject\<close> and
  written, is read back as \<open>a'\<close>; \<open>a'\<close> is not a name, is read back as itself, and is
  written as \<open>text\<close>.
\<close>

definition written_number :: "content_io \<Rightarrow> pdf_obj \<Rightarrow> pdf_obj \<Rightarrow> string \<Rightarrow> bool" where
  "written_number g a a' text \<longleftrightarrow>
     reads_back g (FloatObject_of g a) a' \<and> reads_back g a' a' \<and>
     (case a' of NameObject n \<Rightarrow> False | _ \<Rightarrow> True) \<and>
     writeObject g a' = text"

subsection \<open>Scaling a page\<close>

text \<open>
  What \<^verbatim>\<open>scale\<close> and \<^verbatim>\<open>scaleTo\<close> use of \<^verbatim>\<open>generic.py\<close> and of Python's numbers,
  as parameters: the four corner methods of a \<^verbatim>\<open>RectangleObject\<close>, on the numbers of
  the rectangle, and the operators \<^verbatim>\<open>-\<close>, \<^verbatim>\<open>/\<close>, \<^verbatim>\<open>*\<close> and the conversion
  \<^verbatim>\<open>float(x)\<close>, each of which returns a number or raises. A Python number is written as
  a number object.
\<close>

record numbers =
  getLowerLeft_x :: "pdf_obj list \<Rightarrow> pdf_obj"
  getLowerLeft_y :: "pdf_obj list \<Rightarrow> pdf_obj"
  getUpperRight_x :: "pdf_obj list \<Rightarrow> pdf_obj"
  getUpperRight_y :: "pdf_obj list \<Rightarrow> pdf_obj"
  py_sub :: "pdf_obj \<Rightarrow> pdf_obj \<Rightarrow> py_error + pdf_obj"
  py_div :: "pdf_obj \<Rightarrow> pdf_obj \<Rightarrow> py_error + pdf_obj"
  py_mul :: "pdf_obj \<Rightarrow> pdf_obj \<Rightarrow> py_error + pdf_obj"
  py_float :: "pdf_obj \<Rightarrow> py_error + pdf_obj"

text \<open>\<^verbatim>\<open>addTransformation(self, ctm)\<close>, lines 517-523.\<close>

definition addTransformation ::
  "content_io \<Rightarrow> pdf_dict \<Rightarrow> pdf_obj list \<Rightarrow> (py_error + pdf_dict) option" where
  "addTransformation g self ctm =
     (case getContents g self of
        None \<Rightarrow> Some (Inr self)
      | Some originalContent \<Rightarrow>
          and_then (addTransformationMatrix g originalContent ctm)
            (\<lambda>newContent.
               and_then (pushPopGS g newContent)
                 (\<lambda>newContent'. Some (Inr (setitem self ''/Contents'' newContent')))))"

text \<open>
  One entry of the list that \<^verbatim>\<open>scale\<close> builds, \<^verbatim>\<open>float(self.mediaBox.corner()) * s\<close>:
  the number, and the page as reading the property \<^verbatim>\<open>mediaBox\<close> leaves it.
\<close>

definition scaled_corner ::
  "boxes \<Rightarrow> numbers \<Rightarrow> pdf_dict \<Rightarrow> (pdf_obj list \<Rightarrow> pdf_obj) \<Rightarrow> pdf_obj \<Rightarrow>
   py_error + pdf_obj \<times> pdf_dict" where
  "scaled_corner b a self corner s =
     (case mediaBox b self of
        Inl e \<Rightarrow> Inl e
      | Inr (r, self1) \<Rightarrow>
          (case py_float a (corner r) of
             Inl e \<Rightarrow> Inl e
           | Inr x \<Rightarrow>
               (case py_mul a x s of
                  Inl e \<Rightarrow> Inl e
                | Inr v \<Rightarrow> Inr (v, self1))))"

text \<open>
  \<^verbatim>\<open>scale(self, sx, sy)\<close>, lines 531-539. The right-hand side of the assignment is
  evaluated from left to right, then the property \<^verbatim>\<open>mediaBox\<close> is set
  (\<^verbatim>\<open>setRectangle\<close>).
\<close>

definition scale ::
  "content_io \<Rightarrow> boxes \<Rightarrow> numbers \<Rightarrow> pdf_dict \<Rightarrow> pdf_obj \<Rightarrow> pdf_obj \<Rightarrow>
   (py_error + pdf_dict) option" where
  "scale g b a self sx sy =
     and_then
       (addTransformation g self
          [sx, NumberObject 0, NumberObject 0, sy, NumberObject 0, NumberObject 0])
       (\<lambda>self0.
          Some
            (case scaled_corner b a self0 (getLowerLeft_x a) sx of
               Inl e \<Rightarrow> Inl e
             | Inr (x1, self1) \<Rightarrow>
                 (case scaled_corner b a self1 (getLowerLeft_y a) sy of
                    Inl e \<Rightarrow> Inl e
                  | Inr (y1, self2) \<Rightarrow>
                      (case scaled_corner b a self2 (getUpperRight_x a) sx of
                         Inl e \<Rightarrow> Inl e
                       | Inr (x2, self3) \<Rightarrow>
                           (case scaled_corner b a self3 (getUpperRight_y a) sy of
                              Inl e \<Rightarrow> Inl e
                            | Inr (y2, self4) \<Rightarrow>
                                (case RectangleObject_init b
                                        (Some (ArrayObject [x1, y1, x2, y2])) of
                                   Inl e \<Rightarrow> Inl e
                                 | Inr r \<Rightarrow>
                                     Inr (setitem self4 ''/MediaBox'' (RectangleObject r))))))))"

text \<open>
  One denominator of \<^verbatim>\<open>scaleTo\<close>, \<^verbatim>\<open>self.mediaBox.upper() - self.mediaBox.lower()\<close>:
  the property is read twice.
\<close>

definition extent ::
  "boxes \<Rightarrow> numbers \<Rightarrow> pdf_dict \<Rightarrow> (pdf_obj list \<Rightarrow> pdf_obj) \<Rightarrow> (pdf_obj list \<Rightarrow> pdf_obj) \<Rightarrow>
   py_error + pdf_obj \<times> pdf_dict" where
  "extent b a self upper lower =
     (case mediaBox b self of
        Inl e \<Rightarrow> Inl e
      | Inr (r1, self1) \<Rightarrow>
          (case mediaBox b self1 of
             Inl e \<Rightarrow> Inl e
           | Inr (r2, self2) \<Rightarrow>
               (case py_sub a (upper r1) (lower r2) of
                  Inl e \<Rightarrow> Inl e
                | Inr v \<Rightarrow> Inr (v, self2))))"

text \<open>\<^verbatim>\<open>scaleTo(self, width, height)\<close>, lines 555-560.\<close>

definition scaleTo ::
  "content_io \<Rightarrow> boxes \<Rightarrow> numbers \<Rightarrow> pdf_dict \<Rightarrow> pdf_obj \<Rightarrow> pdf_obj \<Rightarrow>
   (py_error + pdf_dict) option" where
  "scaleTo g b a self width height =
     (case extent b a self (getUpperRight_x a) (getLowerLeft_x a) of
        Inl e \<Rightarrow> Some (Inl e)
      | Inr (dx, self1) \<Rightarrow>
          (case py_div a width dx of
             Inl e \<Rightarrow> Some (Inl e)
           | Inr sx \<Rightarrow>
               (case extent b a self1 (getUpperRight_y a) (getLowerLeft_x a) of
                  Inl e \<Rightarrow> Some (Inl e)
                | Inr (dy, self2) \<Rightarrow>
                    (case py_div a height dy of
                       Inl e \<Rightarrow> Some (Inl e)
                     | Inr sy \<Rightarrow> scale g b a self2 sx sy))))"

text \<open>
  Stand-ins to run the scaling code on concrete pages: the corners are the four entries
  of the rectangle in the order of the PDF syntax, and the numbers are rationals.
\<close>

definition toy_num :: "pdf_obj \<Rightarrow> rat option" where
  "toy_num ob =
     (case ob of
        NumberObject n \<Rightarrow> Some (of_int n)
      | FloatObject r \<Rightarrow> Some r
      | _ \<Rightarrow> None)"

definition toy_op :: "(rat \<Rightarrow> rat \<Rightarrow> rat) \<Rightarrow> pdf_obj \<Rightarrow> pdf_obj \<Rightarrow> py_error + pdf_obj" where
  "toy_op f x y =
     (case (toy_num x, toy_num y) of
        (Some p, Some q) \<Rightarrow> Inr (FloatObject (f p q))
      | _ \<Rightarrow> Inl TypeError)"

definition toy_numbers :: numbers where
  "toy_numbers =
     \<lparr>getLowerLeft_x = (\<lambda>r. r ! 0),
      getLowerLeft_y = (\<lambda>r. r ! 1),
      getUpperRight_x = (\<lambda>r. r ! 2),
      getUpperRight_y = (\<lambda>r. r ! 3),
      py_sub = toy_op (-),
      py_div = (\<lambda>x y. if toy_num y = Some 0 then Inl ZeroDivisionError else toy_op (/) x y),
      py_mul = toy_op (*),
      py_float = (\<lambda>x. toy_op (+) x (NumberObject 0))\<rparr>"

section \<open>Properties of destinations\<close>

lemma Destination_XYZ:
  "Destination title page (NameObject ''/XYZ'') [l, t, z] =
     Inr [(''/Title'', title), (''/Page'', page), (''/Type'', NameObject ''/XYZ''),
          (''/Left'', l), (''/Top'', t), (''/Zoom'', z)]"
  by (simp add: Destination_def)

lemma Destination_unknown_iff:
  "Destination title page (NameObject s) args = Inl PdfReadError \<longleftrightarrow>
     s \<notin> set [''/XYZ'', ''/FitR'', ''/FitH'', ''FitBH'', ''/FitV'', ''FitBV'', ''/Fit'', ''FitB'']"
  by (auto simp: Destination_def Let_def split: list.splits)

text \<open>
  Claim C2. The constructor is to succeed for each of the eight fit types of the table
  with its operands and to raise the malformed-PDF error for every other fit type. The
  source tests for \<^verbatim>\<open>FitBH\<close>, \<^verbatim>\<open>FitBV\<close> and \<^verbatim>\<open>FitB\<close> without the leading
  slash: the three names \<^verbatim>\<open>/FitB\<close>, \<^verbatim>\<open>/FitBH\<close> and \<^verbatim>\<open>/FitBV\<close> of the table are
  rejected as unknown, and the slash-less spellings, which are not in the table, are
  accepted.
\<close>

theorem Destination_FitB_family_rejected:
  "Destination title page (NameObject ''/FitB'') [] = Inl PdfReadError \<and>
   Destination title page (NameObject ''/FitBH'') [tp] = Inl PdfReadError \<and>
   Destination title page (NameObject ''/FitBV'') [lf] = Inl PdfReadError \<and>
   Destination title page (NameObject ''FitBH'') [tp] =
     Inr [(''/Title'', title), (''/Page'', page), (''/Type'', NameObject ''FitBH''),
          (''/Top'', tp)]"
  by (simp add: Destination_def)

section \<open>Properties of the trailer merge\<close>

lemma map_of_setitem: "map_of (setitem d k v) = (map_of d)(k \<mapsto> v)"
  by (induction d) (auto simp: fun_eq_iff)

lemma map_of_setdefault:
  "map_of (setdefault d k v) k' =
     (case map_of d k' of Some w \<Rightarrow> Some w | None \<Rightarrow> if k' = k then Some v else None)"
  by (auto simp: setdefault_def map_of_setitem split: option.splits)

lemma map_of_merge_table:
  "map_of (merge_table_trailer t d) k =
     (case map_of t k of Some w \<Rightarrow> Some w | None \<Rightarrow> map_of d k)"
  unfolding merge_table_trailer_def
proof (induction d arbitrary: t)
  case Nil
  then show ?case by (simp split: option.splits)
next
  case (Cons a d)
  obtain k' v' where a: "a = (k', v')" by (cases a)
  show ?case
    by (simp add: a Cons.IH map_of_setdefault split: option.splits)
qed

lemma map_of_copy_stream_key:
  "map_of (copy_stream_key d key t) k =
     (case map_of t k of Some w \<Rightarrow> Some w
      | None \<Rightarrow> if k = key then map_of d k else None)"
  by (simp add: copy_stream_key_def map_of_setitem split: option.splits)

lemma map_of_merge_stream:
  "map_of (merge_stream_trailer t d) k =
     (case map_of t k of Some w \<Rightarrow> Some w
      | None \<Rightarrow> if k \<in> set trailerKeys then map_of d k else None)"
proof -
  have "map_of (fold (copy_stream_key d) ks t) k =
     (case map_of t k of Some w \<Rightarrow> Some w
      | None \<Rightarrow> if k \<in> set ks then map_of d k else None)" for ks
  proof (induction ks arbitrary: t)
    case Nil
    then show ?case by (simp split: option.splits)
  next
    case (Cons a ks)
    show ?case
      by (simp add: Cons.IH map_of_copy_stream_key split: option.splits)
  qed
  then show ?thesis by (simp add: merge_stream_trailer_def)
qed

text \<open>One section never changes a key the merged trailer already has.\<close>

lemma merge_keeps_present:
  assumes "map_of t k = Some v"
  shows "map_of (merge_table_trailer t d) k = Some v"
    and "map_of (merge_stream_trailer t d) k = Some v"
  using assms by (simp_all add: map_of_merge_table map_of_merge_stream)

text \<open>
  Claim C1. Whenever the \<^verbatim>\<open>/Prev\<close> chain from the tail of the file is finite, the
  loop returns, and the merged trailer gives every key the value of the first section
  in reading order that offers it: a key that is present (from the start, or from a
  section read earlier) keeps its value, a later section only fills keys that are still
  absent; a classical trailer offers all of its keys, a cross-reference stream only
  \<^verbatim>\<open>/Root\<close>, \<^verbatim>\<open>/Encrypt\<close>, \<^verbatim>\<open>/Info\<close> and \<^verbatim>\<open>/ID\<close>.
\<close>

theorem trailer_first_occurrence_wins:
  assumes "prev_chain deref xrefs s ss"
  shows "\<exists>t'. read_trailers deref xrefs s t = Some (Inr t') \<and>
           (\<forall>k. map_of t' k =
              (case map_of t k of Some v \<Rightarrow> Some v | None \<Rightarrow> first_offer ss k))"
  using assms
proof (induction arbitrary: t rule: prev_chain.induct)
  case (table_last s d)
  then show ?case
    by (subst read_trailers.simps) (simp add: map_of_merge_table split: option.splits)
next
  case (table_prev s d p ss)
  from table_prev.IH [of "merge_table_trailer t d"]
  obtain t' where t': "read_trailers deref xrefs p (merge_table_trailer t d) = Some (Inr t')"
    and m: "\<forall>k. map_of t' k =
      (case map_of (merge_table_trailer t d) k of Some v \<Rightarrow> Some v | None \<Rightarrow> first_offer ss k)"
    by blast
  have "read_trailers deref xrefs s t = Some (Inr t')"
    by (subst read_trailers.simps) (simp add: table_prev.hyps t')
  moreover have "\<forall>k. map_of t' k =
      (case map_of t k of Some v \<Rightarrow> Some v | None \<Rightarrow> first_offer (XrefTable d # ss) k)"
    by (simp add: m map_of_merge_table split: option.splits)
  ultimately show ?case by blast
next
  case (stream_last s d ty)
  then show ?case
    by (subst read_trailers.simps) (simp add: map_of_merge_stream split: option.splits)
next
  case (stream_prev s d ty p ss)
  from stream_prev.IH [of "merge_stream_trailer t d"]
  obtain t' where t': "read_trailers deref xrefs p (merge_stream_trailer t d) = Some (Inr t')"
    and m: "\<forall>k. map_of t' k =
      (case map_of (merge_stream_trailer t d) k of Some v \<Rightarrow> Some v | None \<Rightarrow> first_offer ss k)"
    by blast
  have "read_trailers deref xrefs s t = Some (Inr t')"
    by (subst read_trailers.simps) (simp add: stream_prev.hyps t')
  moreover have "\<forall>k. map_of t' k =
      (case map_of t k of Some v \<Rightarrow> Some v | None \<Rightarrow> first_offer (XrefStream d # ss) k)"
    by (simp add: m map_of_merge_stream split: option.splits)
  ultimately show ?case by blast
next
  case (nearby s loc ss)
  from nearby.IH [of t] obtain t' where
    t': "read_trailers deref xrefs (s - (10 - loc)) t = Some (Inr t')"
    and m: "\<forall>k. map_of t' k =
      (case map_of t k of Some v \<Rightarrow> Some v | None \<Rightarrow> first_offer ss k)"
    by blast
  have "read_trailers deref xrefs s t = Some (Inr t')"
    by (subst read_trailers.simps) (simp add: nearby.hyps t')
  with m show ?case by blast
qed

lemma two_revisions_chain:
  "prev_chain (\<lambda>v. v) two_revisions 100
     [XrefTable [(''/Size'', NumberObject 5), (''/Root'', IndirectObject 1 0),
                 (''/Prev'', NumberObject 10)],
      XrefStream [(''/Type'', NameObject ''/XRef''), (''/Size'', NumberObject 3),
                  (''/Root'', IndirectObject 9 0), (''/Info'', IndirectObject 2 0)]]"
  apply (rule prev_chain.table_prev [where p = 10])
    apply (simp add: two_revisions_def)
   apply (simp add: prev_of_def)
  apply (rule prev_chain.stream_last [where ty = "NameObject ''/XRef''"])
     apply (simp_all add: two_revisions_def prev_of_def)
  done

theorem trailer_first_occurrence_wins_witness:
  "\<exists>t'. read_trailers (\<lambda>v. v) two_revisions 100 [] = Some (Inr t') \<and>
     map_of t' ''/Root'' = Some (IndirectObject 1 0) \<and>
     map_of t' ''/Info'' = Some (IndirectObject 2 0) \<and>
     map_of t' ''/Size'' = Some (NumberObject 5) \<and>
     map_of t' ''/Type'' = None"
  using trailer_first_occurrence_wins [OF two_revisions_chain, of "[]"]
  by (auto simp: trailerKeys_def)

lemma read_trailers_two_revisions:
  "read_trailers (\<lambda>v. v) two_revisions 100 [] =
     Some (Inr [(''/Size'', NumberObject 5), (''/Root'', IndirectObject 1 0),
                (''/Prev'', NumberObject 10), (''/Info'', IndirectObject 2 0)])"
  apply (subst read_trailers.simps)
  apply (simp add: two_revisions_def prev_of_def merge_table_trailer_def setdefault_def)
  apply (subst read_trailers.simps)
  apply (simp add: two_revisions_def prev_of_def merge_stream_trailer_def trailerKeys_def
      copy_stream_key_def)
  done

section \<open>Properties of the security handler\<close>

lemma owner_rounds_foldl:
  "owner_rounds algs key n val =
     foldl (\<lambda>val i. RC4_encrypt algs (map (\<lambda>b. b XOR of_nat i) key) val) val (rev [0..<n])"
  by (induction n arbitrary: val) simp_all

lemma authenticateUserPassword_frame [simp]:
  "authenticateUserPassword algs (self\<lparr>override_encryption := b\<rparr>) password =
     authenticateUserPassword algs self password"
  by (simp add: authenticateUserPassword_def cong: option.case_cong)

lemma authenticateUserPassword_returns:
  assumes "Encrypt self = Some encrypt" "ID self = Some (id1 # ids)"
    "R encrypt = 2 \<or> (3 \<le> R encrypt \<and> Length encrypt \<noteq> None)"
  shows "\<exists>ok key. authenticateUserPassword algs self password = Inr (ok, key)"
  using assms
  by (auto simp: authenticateUserPassword_def Let_def split: prod.splits)

text \<open>
  Claim C3, as the code has it. For a document of the Standard handler with \<^verbatim>\<open>/V\<close> 1
  or 2, a first file identifier, and revision 2, or a revision from 3 on together with
  a \<^verbatim>\<open>/Length\<close> entry: \<^verbatim>\<open>decrypt(password)\<close> does not raise; it returns 1 and stores
  the derived key exactly when the password authenticates as the user password;
  otherwise it returns 2 and stores that key exactly when the user password recovered
  from \<^verbatim>\<open>/O\<close> with the candidate as owner password authenticates; otherwise it returns
  0 and leaves the stored key as it was.
\<close>

theorem decrypt_return_codes:
  assumes enc: "Encrypt self = Some encrypt"
    and std: "Filter encrypt = ''/Standard''"
    and v: "V encrypt = 1 \<or> V encrypt = 2"
    and ident: "ID self = Some (id1 # ids)"
    and r: "R encrypt = 2 \<or> (3 \<le> R encrypt \<and> Length encrypt \<noteq> None)"
  shows "\<exists>user_ok user_key owner_ok owner_key.
    authenticateUserPassword algs self password = Inr (user_ok, user_key) \<and>
    authenticateUserPassword algs self (recover_user_password algs encrypt password) =
      Inr (owner_ok, owner_key) \<and>
    decrypt algs self password =
      (if user_ok then
         (Inr 1, self\<lparr>decryption_key := Some user_key, override_encryption := False\<rparr>)
       else if owner_ok then
         (Inr 2, self\<lparr>decryption_key := Some owner_key, override_encryption := False\<rparr>)
       else (Inr 0, self\<lparr>override_encryption := False\<rparr>))"
proof -
  obtain user_ok user_key where
    u: "authenticateUserPassword algs self password = Inr (user_ok, user_key)"
    using authenticateUserPassword_returns [OF enc ident r] by blast
  obtain owner_ok owner_key where
    o: "authenticateUserPassword algs self (recover_user_password algs encrypt password) =
          Inr (owner_ok, owner_key)"
    using authenticateUserPassword_returns [OF enc ident r] by blast
  have "decrypt algs self password =
      (if user_ok then
         (Inr 1, self\<lparr>decryption_key := Some user_key, override_encryption := False\<rparr>)
       else if owner_ok then
         (Inr 2, self\<lparr>decryption_key := Some owner_key, override_encryption := False\<rparr>)
       else (Inr 0, self\<lparr>override_encryption := False\<rparr>))"
  proof (cases "R encrypt = 2")
    case True
    with o have o': "authenticateUserPassword algs self
        (RC4_encrypt algs (alg33_1 algs password 2 5) (O_entry encrypt)) = Inr (owner_ok, owner_key)"
      by (simp add: recover_user_password_def)
    show ?thesis
      using v by (simp add: decrypt_def decrypt_body_def enc std u o' True)
  next
    case False
    with r obtain len where len: "Length encrypt = Some len" by auto
    from o False have o': "authenticateUserPassword algs self
        (owner_rounds algs (alg33_1 algs password (R encrypt) (len div 8)) 20 (O_entry encrypt)) =
        Inr (owner_ok, owner_key)"
      by (simp add: recover_user_password_def owner_rounds_foldl len)
    show ?thesis
      using v by (simp add: decrypt_def decrypt_body_def enc std u o' False len)
  qed
  with u o show ?thesis by blast
qed

lemma toy_user_password:
  "decrypt toy_algorithms (toy_reader 1 2 None) [102, 111, 111] =
     (Inr 1, (toy_reader 1 2 None)\<lparr>decryption_key := Some [102, 111, 111]\<rparr>)"
  by (simp add: decrypt_def decrypt_body_def authenticateUserPassword_def toy_reader_def
      toy_algorithms_def)

lemma toy_wrong_password:
  "decrypt toy_algorithms (toy_reader 1 2 None) [98, 97, 122] = (Inr 0, toy_reader 1 2 None)"
  by (simp add: decrypt_def decrypt_body_def authenticateUserPassword_def toy_reader_def
      toy_algorithms_def)

theorem decrypt_return_codes_witness:
  "decrypt toy_algorithms (toy_reader 1 2 None) [98, 97, 114] =
     (Inr 2, (toy_reader 1 2 None)\<lparr>decryption_key := Some [102, 111, 111]\<rparr>)"
proof -
  let ?enc = "\<lparr>Filter = ''/Standard'', V = 1, R = 2, Length = None,
     O_entry = [23, 30, 30], U_entry = [102, 111, 111, 1], P_entry = - 1,
     EncryptMetadata = None\<rparr>"
  have enc: "Encrypt (toy_reader 1 2 None) = Some ?enc"
    and ident: "ID (toy_reader 1 2 None) = Some ([1] # [[2]])"
    by (simp_all add: toy_reader_def)
  from decrypt_return_codes [OF enc _ _ ident, of toy_algorithms "[98, 97, 114]"]
  obtain user_ok user_key owner_ok owner_key where
    u: "authenticateUserPassword toy_algorithms (toy_reader 1 2 None) [98, 97, 114] =
          Inr (user_ok, user_key)"
    and o: "authenticateUserPassword toy_algorithms (toy_reader 1 2 None)
          (recover_user_password toy_algorithms ?enc [98, 97, 114]) = Inr (owner_ok, owner_key)"
    and d: "decrypt toy_algorithms (toy_reader 1 2 None) [98, 97, 114] =
      (if user_ok then
         (Inr 1, (toy_reader 1 2 None)\<lparr>decryption_key := Some user_key,
                    override_encryption := False\<rparr>)
       else if owner_ok then
         (Inr 2, (toy_reader 1 2 None)\<lparr>decryption_key := Some owner_key,
                    override_encryption := False\<rparr>)
       else (Inr 0, (toy_reader 1 2 None)\<lparr>override_encryption := False\<rparr>))"
    by auto
  have "recover_user_password toy_algorithms ?enc [98, 97, 114] = [102, 111, 111]"
    by (simp add: recover_user_password_def toy_algorithms_def)
  with o have "owner_ok" "owner_key = [102, 111, 111]"
    by (simp_all add: authenticateUserPassword_def toy_reader_def toy_algorithms_def)
  moreover from u have "\<not> user_ok"
    by (simp add: authenticateUserPassword_def toy_reader_def toy_algorithms_def)
  ultimately show ?thesis
    using d by (simp add: toy_reader_def)
qed

text \<open>
  The claim as stated, for every document of the Standard handler with \<^verbatim>\<open>/V\<close> in
  \<open>{1, 2}\<close>, fails where \<^verbatim>\<open>/R\<close> is 3 and the dictionary has no \<^verbatim>\<open>/Length\<close> entry:
  \<^verbatim>\<open>encrypt["/Length"]\<close> raises \<^verbatim>\<open>KeyError\<close> and no code is returned.
\<close>

theorem decrypt_raises_without_Length:
  "decrypt toy_algorithms (toy_reader 2 3 None) [98, 97, 122] =
     (Inl KeyError, toy_reader 2 3 None)"
  by (simp add: decrypt_def decrypt_body_def authenticateUserPassword_def toy_reader_def
      toy_algorithms_def)

subsection \<open>The per-object key\<close>

lemma ucast_drop_bit_word_of_int:
  "(ucast (drop_bit (8 * k) (word_of_int n :: 32 word)) :: 8 word) =
     word_of_int ((n div 256 ^ k) mod 256)"
  if "k < 4"
proof -
  have "(256::int) ^ k = 2 ^ (8 * k)" by (simp add: power_mult)
  then have "n div 256 ^ k = drop_bit (8 * k) n" by (simp add: drop_bit_eq_div)
  moreover have "(word_of_int (m mod 256) :: 8 word) = word_of_int m" for m
    by (simp add: word_of_int_eq_iff take_bit_eq_mod)
  ultimately show ?thesis using that
    by (auto intro!: bit_word_eqI simp: bit_simps)
qed

lemma take3_struct_pack_i: "struct_pack_i n = Inr p \<Longrightarrow> take 3 p = low_bytes_le 3 n"
  using ucast_drop_bit_word_of_int [of 0 n] ucast_drop_bit_word_of_int [of 1 n]
    ucast_drop_bit_word_of_int [of 2 n]
  by (auto simp: struct_pack_i_def low_bytes_le_def Let_def upt_rec split: if_splits)

lemma take2_struct_pack_i: "struct_pack_i n = Inr p \<Longrightarrow> take 2 p = low_bytes_le 2 n"
  using ucast_drop_bit_word_of_int [of 0 n] ucast_drop_bit_word_of_int [of 1 n]
  by (auto simp: struct_pack_i_def low_bytes_le_def Let_def upt_rec split: if_splits)

lemma struct_pack_i_in_range:
  "- (2 ^ 31) \<le> n \<Longrightarrow> n < 2 ^ 31 \<Longrightarrow> \<exists>p. struct_pack_i n = Inr p \<and> length p = 4"
  by (simp add: struct_pack_i_def Let_def)

lemma length_low_bytes_le [simp]: "length (low_bytes_le n x) = n"
  by (simp add: low_bytes_le_def)

text \<open>
  Claim C8. For an object number and generation that \<^verbatim>\<open>struct.pack("<i", ...)\<close>
  accepts (signed 32 bits), the key with which the reader decrypts object
  \<open>(idnum, generation)\<close> and the key with which the writer encrypts its object number
  \<open>i + 1\<close> (generation 0; every object but the \<^verbatim>\<open>/Encrypt\<close> dictionary itself) are both
  the per-object key of the specification: the document key followed by the low 3 bytes
  of the object number and the low 2 bytes of the generation, least significant first,
  digested by MD5 and cut to \<open>min 16 (length K + 5)\<close> bytes.
\<close>

theorem per_object_key_reader_writer:
  assumes "- (2 ^ 31) \<le> idnum" "idnum < 2 ^ 31"
    and "- (2 ^ 31) \<le> generation" "generation < 2 ^ 31"
    and "int i + 1 < 2 ^ 31"
    and "decryption_key self = Some K" "\<not> override_encryption self"
    and "encrypt = Some e" "e \<noteq> int i + 1"
  shows "getObject_key md5 self True idnum generation =
           Inr (Some (per_object_key md5 K idnum generation)) \<and>
         write_key md5 encrypt K i = Inr (Some (per_object_key md5 K (int i + 1) 0))"
proof -
  obtain p1 where p1: "struct_pack_i idnum = Inr p1" "length p1 = 4"
    using struct_pack_i_in_range assms(1,2) by blast
  obtain p2 where p2: "struct_pack_i generation = Inr p2" "length p2 = 4"
    using struct_pack_i_in_range assms(3,4) by blast
  have rd: "getObject_key md5 self True idnum generation =
           Inr (Some (per_object_key md5 K idnum generation))"
    using assms(6,7) p1 p2
    by (simp add: getObject_key_def per_object_key_def Let_def
        take3_struct_pack_i [OF p1(1)] take2_struct_pack_i [OF p2(1)])
  obtain q1 where q1: "struct_pack_i (int i + 1) = Inr q1" "length q1 = 4"
    using struct_pack_i_in_range [of "int i + 1"] assms(5) by auto
  obtain q2 where q2: "struct_pack_i 0 = Inr q2" "length q2 = 4"
    using struct_pack_i_in_range [of 0] by auto
  have wr: "write_key md5 encrypt K i = Inr (Some (per_object_key md5 K (int i + 1) 0))"
    using assms(8,9) q1 q2
    by (auto simp: write_key_def per_object_key_def Let_def
        take3_struct_pack_i [OF q1(1)] take2_struct_pack_i [OF q2(1)])
  from rd wr show ?thesis by simp
qed

theorem per_object_key_reader_writer_witness:
  "getObject_key (\<lambda>key. key)
     \<lparr>Encrypt = None, ID = None, decryption_key = Some [1, 2, 3, 4, 5],
      override_encryption = False\<rparr> True 70000 0 =
     Inr (Some [1, 2, 3, 4, 5, 112, 17, 1, 0, 0]) \<and>
   write_key (\<lambda>key. key) (Some 7) [1, 2, 3, 4, 5] 2 =
     Inr (Some [1, 2, 3, 4, 5, 3, 0, 0, 0, 0])"
  using per_object_key_reader_writer [where idnum = 70000 and generation = 0 and i = 2
      and self = "\<lparr>Encrypt = None, ID = None, decryption_key = Some [1, 2, 3, 4, 5],
        override_encryption = False\<rparr>"
      and K = "[1, 2, 3, 4, 5]" and encrypt = "Some 7" and e = 7 and ?md5.0 = "\<lambda>key. key"]
  by (simp add: per_object_key_def low_bytes_le_def upt_rec)

section \<open>Properties of the writer's page tree\<close>

lemma page_tree_okE:
  assumes "page_tree_ok self"
  obtains pages rest kids where
    "pages_ref self = IndirectObject 1 0"
    "objects self = DictionaryObject pages # rest"
    "map_of pages ''/Type'' = Some (NameObject ''/Pages'')"
    "map_of pages ''/Kids'' = Some (ArrayObject kids)"
    "map_of pages ''/Count'' = Some (NumberObject (int (length kids)))"
    "list_all (\<lambda>k. case k of IndirectObject i gen \<Rightarrow> 2 \<le> i \<and> i \<le> 1 + int (length rest)
                     | _ \<Rightarrow> False) kids"
  using assms unfolding page_tree_ok_def
  by (auto split: list.splits pdf_obj.splits option.splits)

lemma page_tree_okI:
  assumes "pages_ref self = IndirectObject 1 0"
    "objects self = DictionaryObject pages # rest"
    "map_of pages ''/Type'' = Some (NameObject ''/Pages'')"
    "map_of pages ''/Kids'' = Some (ArrayObject kids)"
    "map_of pages ''/Count'' = Some (NumberObject (int (length kids)))"
    "list_all (\<lambda>k. case k of IndirectObject i gen \<Rightarrow> 2 \<le> i \<and> i \<le> 1 + int (length rest)
                     | _ \<Rightarrow> False) kids"
  shows "page_tree_ok self"
  using assms unfolding page_tree_ok_def by simp

lemma kids_of_ok:
  assumes "pages_ref self = IndirectObject 1 0"
    "objects self = DictionaryObject pages # rest"
    "map_of pages ''/Kids'' = Some (ArrayObject kids)"
  shows "kids_of self = Some kids"
  using assms by (simp add: kids_of_def getObject_def py_index_def)

lemma count_of_ok:
  assumes "pages_ref self = IndirectObject 1 0"
    "objects self = DictionaryObject pages # rest"
  shows "count_of self = map_of pages ''/Count''"
  using assms by (simp add: count_of_def getObject_def py_index_def)

lemma length_apply_action [simp]: "length (apply_action act l p) = Suc (length l)"
  by (cases act) (auto simp: py_insert_def Let_def)

lemma set_apply_action: "set (apply_action act l p) = insert p (set l)"
proof (cases act)
  case Append
  then show ?thesis by simp
next
  case (Insert i)
  have "set (take n l) \<union> set (drop n l) = set l" for n
    by (metis append_take_drop_id set_append)
  then show ?thesis using Insert by (auto simp: py_insert_def Let_def)
qed

lemma addPage_action_ok:
  assumes ok: "page_tree_ok self"
  shows "(\<exists>e. addPage_action self page act = (Inl e, self)) \<or>
         (\<exists>self'. addPage_action self page act = (Inr (), self') \<and> page_tree_ok self' \<and>
            map_option length (kids_of self') = map_option Suc (map_option length (kids_of self)))"
proof -
  from ok obtain pages rest kids where
    p: "pages_ref self = IndirectObject 1 0"
    and o: "objects self = DictionaryObject pages # rest"
    and ty: "map_of pages ''/Type'' = Some (NameObject ''/Pages'')"
    and k: "map_of pages ''/Kids'' = Some (ArrayObject kids)"
    and c: "map_of pages ''/Count'' = Some (NumberObject (int (length kids)))"
    and r: "list_all (\<lambda>k. case k of IndirectObject i gen \<Rightarrow> 2 \<le> i \<and> i \<le> 1 + int (length rest)
                     | _ \<Rightarrow> False) kids"
    by (rule page_tree_okE)
  show ?thesis
  proof (cases "\<exists>d ty. page = DictionaryObject d \<and> map_of d ''/Type'' = Some ty \<and> eq_str ty ''/Page''")
    case False
    then have "\<exists>e. addPage_action self page act = (Inl e, self)"
      by (auto simp: addPage_action_def split: pdf_obj.splits option.splits)
    then show ?thesis by blast
  next
    case True
    then obtain d t where d: "page = DictionaryObject d" "map_of d ''/Type'' = Some t"
      "eq_str t ''/Page''" by blast
    let ?page = "DictionaryObject (setitem d ''/Parent'' (IndirectObject 1 0))"
    let ?ref = "IndirectObject (2 + int (length rest)) 0"
    let ?kids = "apply_action act kids ?ref"
    let ?pages = "setitem (setitem pages ''/Kids'' (ArrayObject ?kids)) ''/Count''
                    (NumberObject (int (length kids) + 1))"
    let ?self = "self\<lparr>objects := DictionaryObject ?pages # rest @ [?page]\<rparr>"
    have res: "addPage_action self page act = (Inr (), ?self)"
      using d p o k c
      by (simp add: addPage_action_def addObject_def getObject_def py_index_def Let_def
          object_index_def map_of_setitem)
    have "list_all (\<lambda>k. case k of IndirectObject i gen \<Rightarrow>
              2 \<le> i \<and> i \<le> 1 + int (length (rest @ [?page])) | _ \<Rightarrow> False) ?kids"
      using r by (auto simp: list_all_iff set_apply_action split: pdf_obj.splits)
    then have "page_tree_ok ?self"
      using p ty by (intro page_tree_okI [where pages = ?pages and rest = "rest @ [?page]"
            and kids = ?kids]) (simp_all add: map_of_setitem)
    moreover have "kids_of ?self = Some ?kids"
      using p by (intro kids_of_ok [where pages = ?pages]) (simp_all add: map_of_setitem)
    moreover have "kids_of self = Some kids" using p o k by (rule kids_of_ok)
    ultimately show ?thesis using res by simp
  qed
qed

lemma page_tree_ok_update:
  assumes "page_tree_ok self" "1 \<le> k"
  shows "page_tree_ok (self\<lparr>objects := (objects self)[k := x]\<rparr>)"
    and "kids_of (self\<lparr>objects := (objects self)[k := x]\<rparr>) = kids_of self"
proof -
  from assms(1) obtain pages rest kids where
    p: "pages_ref self = IndirectObject 1 0"
    and o: "objects self = DictionaryObject pages # rest"
    and ty: "map_of pages ''/Type'' = Some (NameObject ''/Pages'')"
    and kd: "map_of pages ''/Kids'' = Some (ArrayObject kids)"
    and c: "map_of pages ''/Count'' = Some (NumberObject (int (length kids)))"
    and r: "list_all (\<lambda>k. case k of IndirectObject i gen \<Rightarrow> 2 \<le> i \<and> i \<le> 1 + int (length rest)
                     | _ \<Rightarrow> False) kids"
    by (rule page_tree_okE)
  from assms(2) obtain j where j: "k = Suc j" by (cases k) auto
  have o': "objects (self\<lparr>objects := (objects self)[k := x]\<rparr>) = DictionaryObject pages # rest[j := x]"
    by (simp add: o j)
  have r': "list_all (\<lambda>k. case k of IndirectObject i gen \<Rightarrow>
       2 \<le> i \<and> i \<le> 1 + int (length (rest[j := x])) | _ \<Rightarrow> False) kids"
    using r unfolding length_list_update .
  show "page_tree_ok (self\<lparr>objects := (objects self)[k := x]\<rparr>)"
    using p ty kd c by (intro page_tree_okI [OF _ o' _ _ _ r']) simp_all
  have "kids_of self = Some kids" using p o kd by (rule kids_of_ok)
  moreover have "kids_of (self\<lparr>objects := (objects self)[k := x]\<rparr>) = Some kids"
    using p kd by (intro kids_of_ok [OF _ o']) simp_all
  ultimately show "kids_of (self\<lparr>objects := (objects self)[k := x]\<rparr>) = kids_of self" by simp
qed

lemma py_index_mem: "py_index xs i = Inr x \<Longrightarrow> x \<in> set xs"
  by (auto simp: py_index_def nat_less_iff split: if_splits)

lemma getPage_index:
  assumes "page_tree_ok self" "getPage self n = Inr (page, k)"
  shows "1 \<le> k"
proof -
  from assms(1) obtain pages rest kids where
    p: "pages_ref self = IndirectObject 1 0"
    and o: "objects self = DictionaryObject pages # rest"
    and kd: "map_of pages ''/Kids'' = Some (ArrayObject kids)"
    and r: "list_all (\<lambda>k. case k of IndirectObject i gen \<Rightarrow> 2 \<le> i \<and> i \<le> 1 + int (length rest)
                     | _ \<Rightarrow> False) kids"
    by (rule page_tree_okE)
  from assms(2) obtain idnum gen where
    kid: "py_index kids n = Inr (IndirectObject idnum gen)" and k: "k = object_index self idnum"
    using p o kd
    by (auto simp: getPage_def getObject_def py_index_def [of "_ # _"] Let_def
        split: sum.splits pdf_obj.splits if_splits)
  from kid have "IndirectObject idnum gen \<in> set kids"
    by (rule py_index_mem)
  with r have "2 \<le> idnum" by (auto simp: list_all_iff)
  then show ?thesis by (simp add: k object_index_def)
qed

lemma page_size_ok:
  assumes "page_tree_ok self" "page_size g self n = (r, self')"
  shows "page_tree_ok self' \<and> kids_of self' = kids_of self"
proof (cases "getPage self n")
  case (Inl e)
  with assms show ?thesis by (simp add: page_size_def)
next
  case (Inr pk)
  then obtain page k where pk: "getPage self n = Inr (page, k)" by (cases pk) auto
  from getPage_index [OF assms(1) pk] have k: "1 \<le> k" .
  show ?thesis
  proof (cases "mediaBox g page")
    case (Inl e)
    with assms pk show ?thesis by (simp add: page_size_def)
  next
    case (Inr rp)
    then obtain r1 page1 where m1: "mediaBox g page = Inr (r1, page1)" by (cases rp) auto
    let ?self1 = "self\<lparr>objects := (objects self)[k := DictionaryObject page1]\<rparr>"
    have ok1: "page_tree_ok ?self1" and k1: "kids_of ?self1 = kids_of self"
      using page_tree_ok_update [OF assms(1) k] by simp_all
    show ?thesis
    proof (cases "mediaBox g page1")
      case (Inl e)
      with assms pk m1 ok1 k1 show ?thesis by (auto simp: page_size_def Let_def)
    next
      case (Inr rp2)
      then obtain r2 page2 where m2: "mediaBox g page1 = Inr (r2, page2)" by (cases rp2) auto
      have "self' = ?self1\<lparr>objects := (objects ?self1)[k := DictionaryObject page2]\<rparr>"
        using assms(2) pk m1 m2 by (simp add: page_size_def Let_def)
      then show ?thesis
        using page_tree_ok_update [OF ok1 k, of "DictionaryObject page2"] k1 by simp
    qed
  qed
qed

lemma blank_size_ok:
  assumes "page_tree_ok pdf" "blank_size g pdf width height = (r, pdf')"
  shows "page_tree_ok pdf' \<and> kids_of pdf' = kids_of pdf"
  using assms page_size_ok [OF assms(1)]
  by (auto simp: blank_size_def split: if_splits sum.splits)

lemma createBlankPage_ok:
  assumes "page_tree_ok pdf" "createBlankPage g pdf width height = (r, pdf')"
  shows "page_tree_ok pdf' \<and> kids_of pdf' = kids_of pdf"
proof -
  obtain r1 pdf1 where b: "blank_size g pdf width height = (r1, pdf1)"
    by (cases "blank_size g pdf width height") auto
  from assms(2) b have "pdf' = pdf1"
    by (auto simp: createBlankPage_def split: sum.splits)
  with blank_size_ok [OF assms(1) b] show ?thesis by simp
qed

lemma old_size_ok:
  assumes "page_tree_ok self" "old_size g self width height index = (r, self')"
  shows "page_tree_ok self' \<and> kids_of self' = kids_of self"
proof -
  obtain r1 s1 where ps: "page_size g self index = (r1, s1)"
    by (cases "page_size g self index") auto
  from page_size_ok [OF assms(1) ps] have "page_tree_ok s1 \<and> kids_of s1 = kids_of self" .
  with assms ps show ?thesis
    by (auto simp: old_size_def split: if_splits sum.splits bool.splits)
qed

lemma do_call_ok:
  assumes "page_tree_ok self" "do_call g c self = (r, self')"
  shows "page_tree_ok self' \<and>
         nkids self' = (case r of Inl e \<Rightarrow> nkids self | Inr u \<Rightarrow> map_option Suc (nkids self))"
proof -
  have add: "page_tree_ok s' \<and>
      nkids s' = (case r of Inl e \<Rightarrow> nkids self | Inr u \<Rightarrow> map_option Suc (nkids self))"
    if "page_tree_ok s" "kids_of s = kids_of self" "addPage_action s page act = (r, s')"
    for s s' page act
    using addPage_action_ok [OF that(1), of page act] that
    by (auto simp: nkids_def)
  have keep: "page_tree_ok s' \<and>
      nkids s' = (case Inl e of Inl e \<Rightarrow> nkids self | Inr u \<Rightarrow> map_option Suc (nkids self))"
    if "page_tree_ok s'" "kids_of s' = kids_of self" for s' and e :: py_error
    using that by (simp add: nkids_def)
  show ?thesis
  proof (cases c)
    case (AddPage page)
    with assms add [of self page Append] show ?thesis by (simp add: addPage_def)
  next
    case (InsertPage page index)
    with assms add [of self page "Insert index"] show ?thesis by (simp add: insertPage_def)
  next
    case (AddBlankPage width height)
    obtain r1 s1 where cb: "createBlankPage g self width height = (r1, s1)"
      by (cases "createBlankPage g self width height") auto
    from createBlankPage_ok [OF assms(1) cb] have s1: "page_tree_ok s1" "kids_of s1 = kids_of self"
      by simp_all
    show ?thesis
    proof (cases r1)
      case (Inl e)
      with assms AddBlankPage cb s1 show ?thesis by (auto simp: addBlankPage_def nkids_def)
    next
      case (Inr page)
      with assms AddBlankPage cb add [OF s1, of page Append] show ?thesis
        by (simp add: addBlankPage_def addPage_def)
    qed
  next
    case (InsertBlankPage width height index)
    obtain r0 s0 where os: "old_size g self width height index = (r0, s0)"
      by (cases "old_size g self width height index") auto
    from old_size_ok [OF assms(1) os] have s0: "page_tree_ok s0" "kids_of s0 = kids_of self"
      by simp_all
    show ?thesis
    proof (cases r0)
      case (Inl e)
      with assms InsertBlankPage os s0 show ?thesis by (auto simp: insertBlankPage_def nkids_def)
    next
      case (Inr wh)
      then obtain w h where wh: "r0 = Inr (w, h)" by (cases wh) auto
      obtain r1 s1 where cb: "createBlankPage g s0 w h = (r1, s1)"
        by (cases "createBlankPage g s0 w h") auto
      from createBlankPage_ok [OF s0(1) cb] s0(2)
      have s1: "page_tree_ok s1" "kids_of s1 = kids_of self" by simp_all
      show ?thesis
      proof (cases r1)
        case (Inl e)
        with assms InsertBlankPage os wh cb s1 show ?thesis
          by (auto simp: insertBlankPage_def nkids_def)
      next
        case (Inr page)
        with assms InsertBlankPage os wh cb add [OF s1, of page "Insert index"] show ?thesis
          by (simp add: insertBlankPage_def insertPage_def)
      qed
    qed
  qed
qed

lemma run_calls_ok:
  assumes "page_tree_ok self"
  shows "page_tree_ok (run_calls g cs self) \<and>
         nkids (run_calls g cs self) = map_option (\<lambda>n. n + returned g cs self) (nkids self)"
  using assms
proof (induction cs arbitrary: self)
  case Nil
  then show ?case by (simp add: option.map_ident)
next
  case (Cons c cs)
  obtain r s1 where d: "do_call g c self = (r, s1)" by (cases "do_call g c self") auto
  from do_call_ok [OF Cons.prems d] have s1: "page_tree_ok s1"
    and n1: "nkids s1 = (case r of Inl e \<Rightarrow> nkids self | Inr u \<Rightarrow> map_option Suc (nkids self))"
    by simp_all
  from Cons.IH [OF s1] d n1 show ?case
    by (cases r) (simp_all add: option.map_comp comp_def)
qed

lemma init_ok: "page_tree_ok PdfFileWriter_init"
  by (simp add: page_tree_ok_def PdfFileWriter_init_def)

lemma page_tree_ok_count:
  assumes "page_tree_ok self"
  shows "\<exists>kids. kids_of self = Some kids \<and> count_of self = Some (NumberObject (int (length kids)))
           \<and> getNumPages self = Inr (int (length kids))"
proof -
  from assms obtain pages rest kids where
    p: "pages_ref self = IndirectObject 1 0"
    and o: "objects self = DictionaryObject pages # rest"
    and kd: "map_of pages ''/Kids'' = Some (ArrayObject kids)"
    and c: "map_of pages ''/Count'' = Some (NumberObject (int (length kids)))"
    by (rule page_tree_okE)
  have "getNumPages self = Inr (int (length kids))"
    using p o c by (simp add: getNumPages_def getObject_def py_index_def)
  with kids_of_ok [OF p o kd] count_of_ok [OF p o] c show ?thesis by simp
qed

text \<open>
  Claim C10. After every sequence of \<^verbatim>\<open>addPage\<close>, \<^verbatim>\<open>insertPage\<close>,
  \<^verbatim>\<open>addBlankPage\<close> and \<^verbatim>\<open>insertBlankPage\<close> calls on a new writer, the pages root
  has a \<^verbatim>\<open>/Kids\<close> array and a \<^verbatim>\<open>/Count\<close> equal to the number of its elements,
  \<^verbatim>\<open>getNumPages\<close> returns that number, and the number is the number of calls that
  returned: each such call adds exactly one kid and one to the count, and a call that
  raises adds nothing.
\<close>

theorem count_is_length_of_kids:
  "\<exists>kids. kids_of (run_calls g calls PdfFileWriter_init) = Some kids \<and>
     count_of (run_calls g calls PdfFileWriter_init) = Some (NumberObject (int (length kids))) \<and>
     getNumPages (run_calls g calls PdfFileWriter_init) = Inr (int (length kids)) \<and>
     length kids = returned g calls PdfFileWriter_init"
proof -
  from run_calls_ok [OF init_ok, of g calls]
  have ok: "page_tree_ok (run_calls g calls PdfFileWriter_init)"
    and n: "nkids (run_calls g calls PdfFileWriter_init) =
      map_option (\<lambda>n. n + returned g calls PdfFileWriter_init) (nkids PdfFileWriter_init)"
    by simp_all
  have "nkids PdfFileWriter_init = Some 0"
    by (simp add: nkids_def kids_of_def PdfFileWriter_init_def getObject_def py_index_def)
  with n have "nkids (run_calls g calls PdfFileWriter_init) = Some (returned g calls PdfFileWriter_init)"
    by simp
  with page_tree_ok_count [OF ok] show ?thesis by (auto simp: nkids_def)
qed

lemma run_calls_example:
  "kids_of (run_calls toy_boxes
      [AddBlankPage (Some (NumberObject 612)) (Some (NumberObject 792)),
       InsertBlankPage None None 0,
       InsertBlankPage None None 7,
       AddPage (DictionaryObject [(''/Type'', NameObject ''/Pages'')])] PdfFileWriter_init) =
     Some [IndirectObject 5 0, IndirectObject 4 0]"
  by (simp add: PdfFileWriter_init_def addBlankPage_def insertBlankPage_def createBlankPage_def
      blank_size_def old_size_def page_size_def getPage_def mediaBox_def getRectangle_def
      addPage_def insertPage_def addPage_action_def addObject_def getObject_def getNumPages_def
      py_index_def py_insert_def object_index_def toy_boxes_def kids_of_def Let_def)

section \<open>Properties of the written file\<close>

lemma digit_val_digit_char: "d < 10 \<Longrightarrow> digit_val (digit_char d) = d"
proof -
  assume "d < 10"
  then have "d \<in> {0, 1, 2, 3, 4, 5, 6, 7, 8, 9}" by auto
  then show ?thesis by (auto simp: digit_val_def digit_char_def)
qed

lemma nat_of_decimal_snoc:
  "nat_of_decimal (s @ [c]) = 10 * nat_of_decimal s + digit_val c"
  by (simp add: nat_of_decimal_def)

lemma nat_of_decimal_str_nat: "nat_of_decimal (str_nat n) = n"
proof (induction n rule: str_nat.induct)
  case (1 n)
  show ?case
  proof (cases "n < 10")
    case True
    then show ?thesis
      by (subst str_nat.simps) (simp add: nat_of_decimal_def digit_val_digit_char)
  next
    case False
    with "1.IH" show ?thesis
      by (subst str_nat.simps) (simp add: nat_of_decimal_snoc digit_val_digit_char)
  qed
qed

lemma nat_of_decimal_zeros: "nat_of_decimal (replicate k CHR ''0'' @ s) = nat_of_decimal s"
proof -
  have "foldl (\<lambda>a c. 10 * a + digit_val c) 0 (replicate k CHR ''0'') = 0"
    by (induction k) (simp_all add: digit_val_def)
  then show ?thesis by (simp add: nat_of_decimal_def)
qed

lemma nat_of_decimal_zero_pad: "nat_of_decimal (zero_pad w (str_nat n)) = n"
  by (simp add: zero_pad_def nat_of_decimal_zeros nat_of_decimal_str_nat)

lemma length_str_nat: "n < 10 ^ k \<Longrightarrow> 0 < k \<Longrightarrow> length (str_nat n) \<le> k"
proof (induction n arbitrary: k rule: str_nat.induct)
  case (1 n)
  show ?case
  proof (cases "n < 10")
    case True
    with "1.prems" show ?thesis by (subst str_nat.simps) simp
  next
    case False
    from "1.prems" obtain j where j: "k = Suc j" by (cases k) auto
    with False "1.prems" have "0 < j" by (cases j) auto
    moreover from "1.prems" j have "n div 10 < 10 ^ j"
      by (simp add: less_mult_imp_div_less mult.commute)
    ultimately have "length (str_nat (n div 10)) \<le> j" using "1.IH" False by simp
    with False j show ?thesis by (subst str_nat.simps) simp
  qed
qed

lemma length_zero_pad: "length s \<le> w \<Longrightarrow> length (zero_pad w s) = w"
  by (simp add: zero_pad_def)

lemma str_nat_0: "str_nat 0 = ''0''"
  by (subst str_nat.simps) (simp add: digit_char_def)

lemma length_xref_entry: "offset < 10 ^ 10 \<Longrightarrow> length (xref_entry offset) = 20"
  using length_str_nat [of offset 10]
  by (simp add: xref_entry_def length_zero_pad str_nat_0 zero_pad_def)

lemma write_key_returns:
  "int i + 1 < 2 ^ 31 \<Longrightarrow> \<exists>key. write_key m e k i = Inr key"
  by (auto simp: write_key_def struct_pack_i_def Let_def)

lemma write_objects_returns:
  assumes "int i + int (length objs) < 2 ^ 31"
  shows "\<exists>stream' positions'. write_objects g self i objs stream positions = Inr (stream', positions')"
  using assms
proof (induction objs arbitrary: i stream positions)
  case Nil
  then show ?case by simp
next
  case (Cons obj objs)
  from Cons.prems have "int i + 1 < 2 ^ 31" by simp
  from write_key_returns [OF this] obtain key where
    key: "write_key (md5_digest g) (encrypt_attr self) (encrypt_key self) i = Inr key" by blast
  from Cons.prems have "int (i + 1) + int (length objs) < 2 ^ 31" by simp
  from Cons.IH [OF this] key show ?case by (simp add: Let_def)
qed

lemma write_objects_positions:
  assumes "write_objects g self i objs stream positions = Inr (stream', positions')"
  shows "length positions' = length positions + length objs \<and>
         take (length positions) positions' = positions \<and>
         take (length stream) stream' = stream \<and>
         length stream \<le> length stream' \<and>
         (\<forall>j < length objs.
            take (length (str_nat (i + j + 1) @ '' 0 obj\<newline>''))
                 (drop (positions' ! (length positions + j)) stream') =
              str_nat (i + j + 1) @ '' 0 obj\<newline>'')"
  using assms
proof (induction objs arbitrary: i stream positions)
  case Nil
  then show ?case by simp
next
  case (Cons obj objs)
  let ?hd = "str_nat (i + 1) @ '' 0 obj\<newline>''"
  from Cons.prems obtain key where
    key: "write_key (md5_digest g) (encrypt_attr self) (encrypt_key self) i = Inr key"
    by (auto simp: Let_def split: sum.splits)
  define body where "body = (case obj of None \<Rightarrow> [] | Some ob \<Rightarrow>
      writeToStream g ob key @ ''\<newline>endobj\<newline>'')"
  have rec: "write_objects g self (i + 1) objs (stream @ ?hd @ body) (positions @ [length stream]) =
      Inr (stream', positions')"
    using Cons.prems key by (cases obj) (simp_all add: Let_def body_def)
  from Cons.IH [OF rec] have
    len: "length positions' = length positions + 1 + length objs"
    and tk: "take (length positions + 1) positions' = positions @ [length stream]"
    and st: "take (length (stream @ ?hd @ body)) stream' = stream @ ?hd @ body"
    and le: "length (stream @ ?hd @ body) \<le> length stream'"
    and hdr: "\<forall>j < length objs.
            take (length (str_nat (i + 1 + j + 1) @ '' 0 obj\<newline>''))
                 (drop (positions' ! (length positions + 1 + j)) stream') =
              str_nat (i + 1 + j + 1) @ '' 0 obj\<newline>''"
    by simp_all
  from st obtain tl where tl: "stream' = stream @ ?hd @ body @ tl"
    by (metis append_take_drop_id append.assoc)
  from tk have p0: "positions' ! length positions = length stream"
    by (metis nth_take lessI Suc_eq_plus1 nth_append_length)
  from tk have tk0: "take (length positions) positions' = positions"
    by (metis append_eq_conv_conj take_take min.absorb1 le_add1 length_append)
  have "take (length (str_nat (i + j + 1) @ '' 0 obj\<newline>''))
             (drop (positions' ! (length positions + j)) stream') =
          str_nat (i + j + 1) @ '' 0 obj\<newline>''" if "j < length (obj # objs)" for j
  proof (cases j)
    case 0
    then show ?thesis by (simp add: p0 tl)
  next
    case (Suc j')
    with that have "j' < length objs" by simp
    with hdr Suc show ?thesis by simp
  qed
  then show ?case using len tk0 tl by simp
qed

lemma str_nat_digit: "n < 10 \<Longrightarrow> str_nat n = [digit_char n]"
  by (subst str_nat.simps) simp

lemma str_nat_more: "\<not> n < 10 \<Longrightarrow> str_nat n = str_nat (n div 10) @ [digit_char (n mod 10)]"
  by (subst str_nat.simps) simp

lemma replicate_numeral: "replicate (numeral k) x = x # replicate (pred_numeral k) x"
  by (simp add: numeral_eq_Suc)

lemma xref_entry_fields: "xref_entry offset = zero_pad 10 (str_nat offset) @ '' 00000 n \<newline>''"
  by (simp add: xref_entry_def zero_pad_def str_nat_0 replicate_numeral)

lemma free_entry: "zero_pad 10 (str_nat 0) @ '' '' @ zero_pad 5 (str_nat 65535) @ '' f \<newline>'' =
    ''0000000000 65535 f \<newline>''"
  by (simp add: zero_pad_def str_nat_digit str_nat_more digit_char_def replicate_numeral)

lemma take_drop_append_left:
  assumes "take (length h) (drop p xs) = h"
  shows "take (length h) (drop p (xs @ ys)) = h"
proof -
  have "length (take (length h) (drop p xs)) = length h"
    by (simp only: assms)
  then have "length h \<le> length (drop p xs)"
    by simp
  then have "take (length h) (drop p xs @ drop (p - length xs) ys) = take (length h) (drop p xs)"
    by simp
  with assms show ?thesis by simp
qed

text \<open>
  Claim C4, as the code has it. For a writer with \<open>N\<close> objects (fewer than \<open>2^31\<close>,
  so that \<^verbatim>\<open>struct.pack\<close> accepts every object number), \<^verbatim>\<open>write\<close> returns, and from
  \<^verbatim>\<open>xref_location\<close> on the stream holds the line \<^verbatim>\<open>xref\<close>, the subsection header
  \<^verbatim>\<open>0 N+1\<close> (the free entry is counted), the free entry
  \<^verbatim>\<open>0000000000 65535 f \<close>, one entry per object in ascending order of object number,
  the trailer, and \<^verbatim>\<open>startxref\<close> with \<^verbatim>\<open>xref_location\<close>. The entry of object
  \<open>i + 1\<close> is its offset padded to ten digits followed by \<^verbatim>\<open> 00000 n \<close> and a
  newline, 20 bytes whenever the offset has at most ten digits; the offset field reads
  back as the stream position recorded for the object, and the bytes of the stream at
  that position are the header \<^verbatim>\<open>i+1 0 obj\<close>.
\<close>

theorem write_xref_table:
  assumes "int (length (swept_objects self)) < 2 ^ 31"
  shows "\<exists>out object_positions xref_location.
     write_swept g self stream = Inr (out, object_positions, xref_location) \<and>
     length object_positions = length (swept_objects self) \<and>
     drop xref_location out =
       ''xref\<newline>'' @ ''0 '' @ str_nat (length (swept_objects self) + 1) @ ''\<newline>'' @
       ''0000000000 65535 f \<newline>'' @ concat (map xref_entry object_positions) @
       ''trailer\<newline>'' @ writeToStream g (DictionaryObject (trailer_of self)) None @
       ''\<newline>startxref\<newline>'' @ str_nat xref_location @ ''\<newline>%%EOF\<newline>'' \<and>
     (\<forall>i < length (swept_objects self).
        xref_entry (object_positions ! i) =
          zero_pad 10 (str_nat (object_positions ! i)) @ '' 00000 n \<newline>'' \<and>
        nat_of_decimal (zero_pad 10 (str_nat (object_positions ! i))) = object_positions ! i \<and>
        (object_positions ! i < 10 ^ 10 \<longrightarrow> length (xref_entry (object_positions ! i)) = 20) \<and>
        take (length (str_nat (i + 1) @ '' 0 obj\<newline>'')) (drop (object_positions ! i) out) =
          str_nat (i + 1) @ '' 0 obj\<newline>'')"
proof -
  let ?start = "stream @ header self @ ''\<newline>''"
  from write_objects_returns [of 0 "swept_objects self" g self ?start "[]"] assms
  obtain stream1 positions where
    wo: "write_objects g self 0 (swept_objects self) ?start [] = Inr (stream1, positions)"
    by auto
  define rest where "rest =
       ''xref\<newline>'' @ ''0 '' @ str_nat (length (swept_objects self) + 1) @ ''\<newline>'' @
       ''0000000000 65535 f \<newline>'' @ concat (map xref_entry positions) @
       ''trailer\<newline>'' @ writeToStream g (DictionaryObject (trailer_of self)) None @
       ''\<newline>startxref\<newline>'' @ str_nat (length stream1) @ ''\<newline>%%EOF\<newline>''"
  have res: "write_swept g self stream = Inr (stream1 @ rest, positions, length stream1)"
    using free_entry by (simp add: write_swept_def wo Let_def rest_def)
  from write_objects_positions [OF wo] have
    len: "length positions = length (swept_objects self)"
    and hdr: "\<forall>j < length (swept_objects self).
            take (length (str_nat (j + 1) @ '' 0 obj\<newline>'')) (drop (positions ! j) stream1) =
              str_nat (j + 1) @ '' 0 obj\<newline>''"
    by simp_all
  have "take (length (str_nat (i + 1) @ '' 0 obj\<newline>'')) (drop (positions ! i) (stream1 @ rest)) =
          str_nat (i + 1) @ '' 0 obj\<newline>''" if "i < length (swept_objects self)" for i
    using hdr that by (intro take_drop_append_left) blast
  note hh = this
  have "write_swept g self stream = Inr (stream1 @ rest, positions, length stream1) \<and>
     length positions = length (swept_objects self) \<and>
     drop (length stream1) (stream1 @ rest) =
       ''xref\<newline>'' @ ''0 '' @ str_nat (length (swept_objects self) + 1) @ ''\<newline>'' @
       ''0000000000 65535 f \<newline>'' @ concat (map xref_entry positions) @
       ''trailer\<newline>'' @ writeToStream g (DictionaryObject (trailer_of self)) None @
       ''\<newline>startxref\<newline>'' @ str_nat (length stream1) @ ''\<newline>%%EOF\<newline>'' \<and>
     (\<forall>i < length (swept_objects self).
        xref_entry (positions ! i) =
          zero_pad 10 (str_nat (positions ! i)) @ '' 00000 n \<newline>'' \<and>
        nat_of_decimal (zero_pad 10 (str_nat (positions ! i))) = positions ! i \<and>
        (positions ! i < 10 ^ 10 \<longrightarrow> length (xref_entry (positions ! i)) = 20) \<and>
        take (length (str_nat (i + 1) @ '' 0 obj\<newline>'')) (drop (positions ! i) (stream1 @ rest)) =
          str_nat (i + 1) @ '' 0 obj\<newline>'')"
  proof (intro conjI allI impI)
    show "write_swept g self stream = Inr (stream1 @ rest, positions, length stream1)"
      by (rule res)
    show "length positions = length (swept_objects self)" by (rule len)
    show "drop (length stream1) (stream1 @ rest) =
       ''xref\<newline>'' @ ''0 '' @ str_nat (length (swept_objects self) + 1) @ ''\<newline>'' @
       ''0000000000 65535 f \<newline>'' @ concat (map xref_entry positions) @
       ''trailer\<newline>'' @ writeToStream g (DictionaryObject (trailer_of self)) None @
       ''\<newline>startxref\<newline>'' @ str_nat (length stream1) @ ''\<newline>%%EOF\<newline>''"
    proof -
      have "drop (length stream1) (stream1 @ rest) = rest" by simp
      then show ?thesis unfolding rest_def .
    qed
  next
    fix i
    show "xref_entry (positions ! i) = zero_pad 10 (str_nat (positions ! i)) @ '' 00000 n \<newline>''"
      by (rule xref_entry_fields)
    show "nat_of_decimal (zero_pad 10 (str_nat (positions ! i))) = positions ! i"
      by (rule nat_of_decimal_zero_pad)
    show "length (xref_entry (positions ! i)) = 20" if "positions ! i < 10 ^ 10"
      using that by (rule length_xref_entry)
    show "take (length (str_nat (i + 1) @ '' 0 obj\<newline>'')) (drop (positions ! i) (stream1 @ rest)) =
          str_nat (i + 1) @ '' 0 obj\<newline>''" if "i < length (swept_objects self)"
      using that by (rule hh)
  qed
  then show ?thesis by blast
qed

text \<open>
  The claim as stated has the subsection header \<^verbatim>\<open>0 N\<close>. A new writer has
  three objects, and the header written is \<^verbatim>\<open>0 4\<close>.
\<close>

theorem write_xref_header_counts_free_entry:
  "write_swept toy_serializer new_swept_writer [] =
     Inr (''%PDF-1.3\<newline>1 0 obj\<newline><<>>\<newline>endobj\<newline>2 0 obj\<newline><<>>\<newline>endobj\<newline>3 0 obj\<newline><<>>\<newline>endobj\<newline>xref\<newline>0 4\<newline>0000000000 65535 f \<newline>0000000009 00000 n \<newline>0000000029 00000 n \<newline>0000000049 00000 n \<newline>trailer\<newline><<>>\<newline>startxref\<newline>69\<newline>%%EOF\<newline>'',
      [9, 29, 49], 69)"
  by (simp add: write_swept_def new_swept_writer_def toy_serializer_def PdfFileWriter_init_def
      write_key_def xref_entry_def zero_pad_def str_nat_digit str_nat_more digit_char_def Let_def
      replicate_numeral)

theorem write_xref_table_witness:
  "\<exists>out object_positions xref_location.
     write_swept toy_serializer new_swept_writer [] = Inr (out, object_positions, xref_location) \<and>
     length object_positions = 3 \<and>
     take 9 (drop xref_location out) = ''xref\<newline>0 4\<newline>''"
proof -
  have n: "length (swept_objects new_swept_writer) = 3"
    by (simp add: new_swept_writer_def PdfFileWriter_init_def)
  from write_xref_table [of new_swept_writer toy_serializer "[]"] n
  obtain out object_positions xref_location where
    "write_swept toy_serializer new_swept_writer [] = Inr (out, object_positions, xref_location)"
    "length object_positions = 3"
    "drop xref_location out =
       ''xref\<newline>'' @ ''0 '' @ str_nat (3 + 1) @ ''\<newline>'' @
       ''0000000000 65535 f \<newline>'' @ concat (map xref_entry object_positions) @
       ''trailer\<newline>'' @
       writeToStream toy_serializer (DictionaryObject (trailer_of new_swept_writer)) None @
       ''\<newline>startxref\<newline>'' @ str_nat xref_location @ ''\<newline>%%EOF\<newline>''"
    by auto
  then show ?thesis by (simp add: str_nat_digit digit_char_def)
qed

section \<open>Properties of the page code\<close>

subsection \<open>Merged resources\<close>

lemma map_of_fold_setitem:
  "map_of (fold (\<lambda>(k, v) d. setitem d k v) items acc) key = None \<longleftrightarrow>
     map_of items key = None \<and> map_of acc key = None"
proof (induction items arbitrary: acc)
  case Nil
  then show ?case by simp
next
  case (Cons a items)
  obtain k v where a: "a = (k, v)" by (cases a)
  show ?case by (auto simp: a Cons.IH map_of_setitem)
qed

lemma merge_key_keeps:
  assumes "map_of newRes key = Some v" "k @ ''renamed'' \<noteq> key"
  shows "map_of (fst (merge_key g page2Res k (newRes, renameRes))) key = Some v"
  using assms
  by (auto simp: merge_key_def map_of_setitem Let_def split: option.splits)

lemma fold_merge_key_keeps:
  assumes "map_of (fst acc) key = Some v" "\<forall>k \<in> set ks. k @ ''renamed'' \<noteq> key"
  shows "map_of (fst (fold (merge_key g page2Res) ks acc)) key = Some v"
  using assms
proof (induction ks arbitrary: acc)
  case Nil
  then show ?case by simp
next
  case (Cons k ks)
  obtain newRes renameRes where acc: "acc = (newRes, renameRes)" by (cases acc)
  from Cons.prems acc have "map_of (fst (merge_key g page2Res k acc)) key = Some v"
    by (simp add: merge_key_keeps)
  with Cons show ?case by simp
qed

lemma merge_key_absent:
  assumes "map_of newRes key = None" "k \<noteq> key" "k @ ''renamed'' \<noteq> key"
  shows "map_of (fst (merge_key g page2Res k (newRes, renameRes))) key = None"
  using assms
  by (auto simp: merge_key_def map_of_setitem Let_def split: option.splits)

lemma fold_merge_key_copies:
  assumes "map_of (fst acc) key = None" "key \<in> set ks" "map_of page2Res key = Some v"
    "\<forall>k \<in> set ks. k @ ''renamed'' \<noteq> key"
  shows "map_of (fst (fold (merge_key g page2Res) ks acc)) key = Some v"
  using assms
proof (induction ks arbitrary: acc)
  case Nil
  then show ?case by simp
next
  case (Cons k ks)
  obtain newRes renameRes where acc: "acc = (newRes, renameRes)" by (cases acc)
  show ?case
  proof (cases "k = key")
    case True
    with Cons.prems acc have "map_of (fst (merge_key g page2Res k acc)) key = Some v"
      by (simp add: merge_key_def map_of_setitem)
    with Cons.prems show ?thesis by (simp add: fold_merge_key_keeps)
  next
    case False
    with Cons.prems acc have "map_of (fst (merge_key g page2Res k acc)) key = None"
      by (simp add: merge_key_absent)
    with Cons.prems False Cons.IH show ?thesis by simp
  qed
qed

text \<open>
  Claim C7, as the code has it. A key of the second page's resource category that is
  absent from the first page's category is stored with the raw value
  \<^verbatim>\<open>page2Res.raw_get(key)\<close>, an indirect reference when the second page holds one;
  this for every key that is not itself the renamed form \<^verbatim>\<open>k + "renamed"\<close> of a key
  \<open>k\<close> of the second page (such a name can be taken by a renaming before the loop
  reaches the key).
\<close>

theorem mergeResources_absent_key_raw:
  assumes "getObject_of g (case map_of res1 resource of None \<Rightarrow> DictionaryObject [] | Some v \<Rightarrow> v) =
             DictionaryObject d1"
    and "getObject_of g (case map_of res2 resource of None \<Rightarrow> DictionaryObject [] | Some v \<Rightarrow> v) =
             DictionaryObject page2Res"
    and "map_of page2Res key = Some v"
    and "map_of d1 key = None"
    and "\<forall>k \<in> set (map fst page2Res). k @ ''renamed'' \<noteq> key"
  shows "\<exists>newRes renameRes. mergeResources g res1 res2 resource = Inr (newRes, renameRes) \<and>
           map_of newRes key = Some v"
proof -
  let ?new = "fold (\<lambda>(k, v) d. setitem d k v) d1 []"
  let ?res = "fold (merge_key g page2Res) (map fst page2Res) (?new, [])"
  have r: "mergeResources g res1 res2 resource = Inr ?res"
    using assms(1,2) by (simp add: mergeResources_def)
  have "map_of ?new key = None" using assms(4) by (simp add: map_of_fold_setitem)
  moreover from assms(3) have "key \<in> set (map fst page2Res)"
    by (metis map_of_eq_None_iff option.distinct(1) set_map)
  ultimately have "map_of (fst ?res) key = Some v"
    using assms(3,5) by (intro fold_merge_key_copies) simp_all
  with r show ?thesis by (cases ?res) auto
qed

theorem mergeResources_absent_key_raw_witness:
  "\<exists>newRes renameRes.
     mergeResources toy_io [] [(''/Font'', DictionaryObject [(''/F1'', IndirectObject 5 0)])]
       ''/Font'' = Inr (newRes, renameRes) \<and>
     map_of newRes ''/F1'' = Some (IndirectObject 5 0)"
  using mergeResources_absent_key_raw [of toy_io "[]" "''/Font''" "[]"
      "[(''/Font'', DictionaryObject [(''/F1'', IndirectObject 5 0)])]"
      "[(''/F1'', IndirectObject 5 0)]" "''/F1''" "IndirectObject 5 0"]
  by (simp add: toy_io_def)

text \<open>
  The claim as stated has the resolved object stored. The second page holds the font
  \<^verbatim>\<open>/F1\<close> as a reference to object 5, which resolves to a font dictionary; the
  merged category holds the reference, not the dictionary. (Where a key is renamed, the
  resolved object is stored: the second equation.)
\<close>

theorem mergeResources_stores_reference:
  "mergeResources toy_io [] [(''/Font'', DictionaryObject [(''/F1'', IndirectObject 5 0)])]
     ''/Font'' = Inr ([(''/F1'', IndirectObject 5 0)], []) \<and>
   getObject_of toy_io (IndirectObject 5 0) = DictionaryObject [(''/Type'', NameObject ''/Font'')] \<and>
   mergeResources toy_io [(''/Font'', DictionaryObject [(''/F1'', NumberObject 1)])]
     [(''/Font'', DictionaryObject [(''/F1'', IndirectObject 5 0)])] ''/Font'' =
     Inr ([(''/F1'', NumberObject 1),
           (''/F1renamed'', DictionaryObject [(''/Type'', NameObject ''/Font'')])],
          [(''/F1'', NameObject ''/F1renamed'')])"
  by (simp add: mergeResources_def merge_key_def toy_io_def Let_def)

subsection \<open>Re-tokenizing written operations\<close>

lemma drop_eq_ConsD:
  assumes "drop n xs = y # ys"
  shows "n < length xs" and "xs ! n = y" and "drop (Suc n) xs = ys"
proof -
  show n: "n < length xs"
    using assms by (cases "n < length xs") auto
  from Cons_nth_drop_Suc [OF n] assms show "xs ! n = y" and "drop (Suc n) xs = ys"
    by auto
qed

lemma drop_eq_appendD:
  assumes "drop n xs = ys @ zs"
  shows "drop (n + length ys) xs = zs"
proof -
  have "drop (length ys) (drop n xs) = zs"
    by (simp add: assms)
  then show ?thesis
    by (simp add: add.commute)
qed

lemma readNonWhitespace_skip:
  assumes "drop pos data = c # rest" and "whitespace g c"
  shows "readNonWhitespace g data pos = readNonWhitespace g data (Suc pos)"
  using drop_eq_ConsD(1,2) [OF assms(1)] assms(2)
  by (subst readNonWhitespace.simps) simp

lemma readNonWhitespace_stop:
  assumes "drop pos data = c # rest" and "\<not> whitespace g c"
  shows "readNonWhitespace g data pos = (Some c, Suc pos)"
  using drop_eq_ConsD(1,2) [OF assms(1)] assms(2)
  by (subst readNonWhitespace.simps) simp

lemma readNonWhitespace_end:
  assumes "length data \<le> pos"
  shows "readNonWhitespace g data pos = (None, pos)"
  using assms by (subst readNonWhitespace.simps) simp

lemma parse_loop_same:
  assumes "readNonWhitespace g data pos = readNonWhitespace g data pos'"
  shows "parse_loop g data pos operands acc = parse_loop g data pos' operands acc"
  by (simp add: parse_loop.simps [of g data pos] parse_loop.simps [of g data pos'] assms)

lemma parse_loop_skip:
  assumes "drop pos data = c # rest" and "whitespace g c"
  shows "parse_loop g data pos operands acc = parse_loop g data (Suc pos) operands acc"
  by (rule parse_loop_same) (rule readNonWhitespace_skip [OF assms])

lemma parse_loop_end:
  assumes "length data \<le> pos"
  shows "parse_loop g data pos operands acc = Some (Inr acc)"
  by (simp add: parse_loop.simps [of g data pos] readNonWhitespace_end [OF assms])

lemma read_operator_run:
  assumes "drop pos data = operator @ c # rest"
    and "list_all (\<lambda>c. \<not> isspace c \<and> c \<notin> set (delimiterCharacters g)) operator"
    and "isspace c"
  shows "read_operator g data pos acc = (acc @ operator, pos + length operator)"
  using assms
proof (induction operator arbitrary: pos acc)
  case Nil
  then show ?case
    using drop_eq_ConsD(1,2) [of pos data c rest]
    by (subst read_operator.simps) simp
next
  case (Cons x xs)
  from Cons.prems(1) have d: "drop pos data = x # (xs @ c # rest)"
    by simp
  have "read_operator g data pos acc = read_operator g data (Suc pos) (acc @ [x])"
    using drop_eq_ConsD(1,2) [OF d] Cons.prems(2)
    by (subst read_operator.simps) simp
  also have "\<dots> = ((acc @ [x]) @ xs, Suc pos + length xs)"
    using drop_eq_ConsD(3) [OF d] Cons.prems(2,3)
    by (intro Cons.IH) simp_all
  finally show ?case
    by simp
qed

lemma parse_loop_operator:
  assumes "drop pos data = operator @ c # rest"
    and "operator_ok g operator"
    and "isspace c"
  shows "parse_loop g data pos operands acc =
     parse_loop g data (pos + length operator) [] (acc @ [(Operands operands, operator)])"
proof -
  from assms(2) obtain x xs where op: "operator = x # xs"
    by (cases operator) (auto simp: operator_ok_def)
  from assms(1) have d: "drop pos data = x # (xs @ c # rest)"
    by (simp add: op)
  have peek: "readNonWhitespace g data pos = (Some x, Suc pos)"
    using assms(2) by (intro readNonWhitespace_stop [OF d]) (simp add: operator_ok_def op)
  have run: "read_operator g data pos [] = (operator, pos + length operator)"
    using read_operator_run [OF assms(1) _ assms(3), of g "[]"] assms(2)
    by (simp add: operator_ok_def)
  have start: "isalpha x \<or> x = CHR 0x27 \<or> x = CHR 0x22" and ne: "operator \<noteq> ''BI''"
    using assms(2) by (simp_all add: operator_ok_def op)
  show ?thesis
    by (subst parse_loop.simps) (simp add: peek run start ne)
qed

lemma parse_loop_operand:
  assumes "drop pos data = writeObject g ob @ CHR '' '' # rest"
    and "reads_back g ob ob'"
    and "whitespace g CHR '' ''"
  shows "parse_loop g data pos operands acc =
     parse_loop g data (Suc (pos + length (writeObject g ob))) (operands @ [ob']) acc"
proof -
  from assms(2) obtain x xs where w: "writeObject g ob = x # xs"
    by (cases "writeObject g ob") (auto simp: reads_back_def)
  from assms(1) have d: "drop pos data = x # (xs @ CHR '' '' # rest)"
    by (simp add: w)
  have peek: "readNonWhitespace g data pos = (Some x, Suc pos)"
    using assms(2) by (intro readNonWhitespace_stop [OF d]) (simp add: reads_back_def w)
  have rd: "readObject g data pos = Inr (ob', pos + length (writeObject g ob))"
    using assms(1,2) by (simp add: reads_back_def)
  have start: "\<not> isalpha x" "x \<noteq> CHR 0x27" "x \<noteq> CHR 0x22" "x \<noteq> CHR ''%''"
    using assms(2) by (simp_all add: reads_back_def w)
  have "parse_loop g data pos operands acc =
      parse_loop g data (pos + length (writeObject g ob)) (operands @ [ob']) acc"
    by (subst parse_loop.simps) (simp add: peek rd start)
  also have "\<dots> = parse_loop g data (Suc (pos + length (writeObject g ob))) (operands @ [ob']) acc"
    by (rule parse_loop_skip [OF drop_eq_appendD [OF assms(1)] assms(3)])
  finally show ?thesis .
qed

lemma parse_loop_operands:
  assumes "drop pos data = concat (map (\<lambda>ob. writeObject g ob @ '' '') obs) @ rest"
    and "list_all2 (reads_back g) obs obs'"
    and "whitespace g CHR '' ''"
  shows "parse_loop g data pos operands acc =
     parse_loop g data (pos + length (concat (map (\<lambda>ob. writeObject g ob @ '' '') obs)))
       (operands @ obs') acc"
  using assms(1,2)
proof (induction obs arbitrary: pos operands obs')
  case Nil
  then show ?case by simp
next
  case (Cons ob obs)
  from Cons.prems(2) obtain ob' obs'' where o: "obs' = ob' # obs''"
    and r: "reads_back g ob ob'" and rs: "list_all2 (reads_back g) obs obs''"
    by (auto simp: list_all2_Cons1)
  let ?tl = "concat (map (\<lambda>ob. writeObject g ob @ '' '') obs)"
  from Cons.prems(1) have d: "drop pos data = writeObject g ob @ CHR '' '' # (?tl @ rest)"
    by simp
  have d': "drop (Suc (pos + length (writeObject g ob))) data = ?tl @ rest"
    using drop_eq_appendD [of pos data "writeObject g ob @ '' ''" "?tl @ rest"] d
    by simp
  have "parse_loop g data pos operands acc =
     parse_loop g data (Suc (pos + length (writeObject g ob))) (operands @ [ob']) acc"
    by (rule parse_loop_operand [OF d r assms(3)])
  also have "\<dots> = parse_loop g data (Suc (pos + length (writeObject g ob)) + length ?tl)
       ((operands @ [ob']) @ obs'') acc"
    by (rule Cons.IH [OF d' rs])
  finally show ?case
    by (simp add: o add.assoc)
qed


lemma parse_loop_skips:
  assumes "drop pos data = pad @ rest" and "list_all (whitespace g) pad"
  shows "parse_loop g data pos operands acc = parse_loop g data (pos + length pad) operands acc"
  using assms
proof (induction pad arbitrary: pos)
  case Nil
  then show ?case by simp
next
  case (Cons c pad)
  from Cons.prems(1) have d: "drop pos data = c # (pad @ rest)"
    by simp
  have "parse_loop g data pos operands acc = parse_loop g data (Suc pos) operands acc"
    using Cons.prems(2) by (intro parse_loop_skip [OF d]) simp
  also have "\<dots> = parse_loop g data (Suc pos + length pad) operands acc"
    using Cons.prems(2) drop_eq_ConsD(3) [OF d] by (intro Cons.IH) simp_all
  finally show ?case by simp
qed

lemma isspace_newline: "isspace CHR 0x0A"
  by (simp add: isspace_def)

lemma parse_loop_operation_text:
  assumes d: "drop pos data =
      (concat (map (\<lambda>ob. writeObject g ob @ '' '') obs) @ pad @ operator @ ''\<newline>'') @ rest"
    and obs: "list_all2 (reads_back g) obs obs'"
    and pad: "list_all (whitespace g) pad"
    and op: "operator_ok g operator"
    and sep: "separators g"
  shows "parse_loop g data pos [] acc =
     parse_loop g data
       (pos + length (concat (map (\<lambda>ob. writeObject g ob @ '' '') obs) @ pad @ operator @ ''\<newline>''))
       [] (acc @ [(Operands obs', operator)])"
proof -
  let ?a = "concat (map (\<lambda>ob. writeObject g ob @ '' '') obs)"
  from sep have sp: "whitespace g CHR '' ''" and nl: "whitespace g CHR 0x0A"
    by (simp_all add: separators_def)
  from d have d1: "drop pos data = ?a @ (pad @ operator @ ''\<newline>'' @ rest)"
    by simp
  have d2: "drop (pos + length ?a) data = pad @ (operator @ ''\<newline>'' @ rest)"
    using drop_eq_appendD [OF d1] by simp
  have d3: "drop (pos + length ?a + length pad) data = operator @ CHR 0x0A # rest"
    using drop_eq_appendD [OF d2] by simp
  have d4: "drop (pos + length ?a + length pad + length operator) data = CHR 0x0A # rest"
    using drop_eq_appendD [OF d3] by simp
  have "parse_loop g data pos [] acc = parse_loop g data (pos + length ?a) ([] @ obs') acc"
    by (rule parse_loop_operands [OF d1 obs sp])
  also have "\<dots> = parse_loop g data (pos + length ?a + length pad) obs' acc"
    using parse_loop_skips [OF d2 pad] by simp
  also have "\<dots> = parse_loop g data (pos + length ?a + length pad + length operator) []
      (acc @ [(Operands obs', operator)])"
    by (rule parse_loop_operator [OF d3 op isspace_newline])
  also have "\<dots> = parse_loop g data (Suc (pos + length ?a + length pad + length operator)) []
      (acc @ [(Operands obs', operator)])"
    by (rule parse_loop_skip [OF d4 nl])
  finally show ?thesis
    by (simp add: add.assoc)
qed

lemma operator_ok_not_image:
  assumes "operator_ok g operator"
  shows "operator \<noteq> ''INLINE IMAGE''"
  using assms by (auto simp: operator_ok_def isspace_def)

lemma operation_bytes_ok:
  assumes "operator_ok g operator"
  shows "operation_bytes g (Operands obs, operator) =
     Inr (concat (map (\<lambda>ob. writeObject g ob @ '' '') obs) @ operator @ ''\<newline>'')"
  using operator_ok_not_image [OF assms] by (simp add: operation_bytes_def)

text \<open>What \<^verbatim>\<open>_getData\<close> writes for operations of this kind is tokenized into them.\<close>

lemma parse_loop_operations:
  assumes "list_all (operation_ok g) ops" and "separators g"
  shows "\<exists>bytes. getData_operations g ops = Inr bytes \<and>
     (\<forall>data pos rest acc.
        drop pos data = bytes @ rest \<longrightarrow>
        parse_loop g data pos [] acc = parse_loop g data (pos + length bytes) [] (acc @ ops))"
  using assms(1)
proof (induction ops)
  case Nil
  then show ?case by simp
next
  case (Cons oper ops)
  from Cons.prems obtain obs operator where oper: "oper = (Operands obs, operator)"
    and op: "operator_ok g operator" and obs: "list_all (\<lambda>ob. reads_back g ob ob) obs"
    by (cases "(g, oper)" rule: operation_ok.cases) auto
  from Cons obtain bytes where b: "getData_operations g ops = Inr bytes"
    and step: "\<And>data pos rest acc. drop pos data = bytes @ rest \<Longrightarrow>
        parse_loop g data pos [] acc = parse_loop g data (pos + length bytes) [] (acc @ ops)"
    by auto
  let ?b = "concat (map (\<lambda>ob. writeObject g ob @ '' '') obs) @ [] @ operator @ ''\<newline>''"
  have obs2: "list_all2 (reads_back g) obs obs"
    using obs by (simp add: list_all2_same list_all_iff)
  have "getData_operations g (oper # ops) = Inr (?b @ bytes)"
    by (simp add: oper operation_bytes_ok [OF op] b)
  moreover have "parse_loop g data pos [] acc =
      parse_loop g data (pos + length (?b @ bytes)) [] (acc @ oper # ops)"
    if d: "drop pos data = (?b @ bytes) @ rest" for data pos rest acc
  proof -
    from d have d1: "drop pos data = ?b @ (bytes @ rest)"
      by simp
    have "parse_loop g data pos [] acc =
        parse_loop g data (pos + length ?b) [] (acc @ [(Operands obs, operator)])"
      by (rule parse_loop_operation_text [OF d1 obs2 _ op assms(2)]) simp
    also have "\<dots> = parse_loop g data (pos + length ?b + length bytes) []
        ((acc @ [(Operands obs, operator)]) @ ops)"
      by (rule step [OF drop_eq_appendD [OF d1]])
    finally show ?thesis
      by (simp add: oper add.assoc)
  qed
  ultimately show ?case
    by blast
qed

lemma tokenize_written:
  assumes "list_all (operation_ok g) ops" and "separators g"
  shows "\<exists>bytes. getData_operations g ops = Inr bytes \<and>
     parse_loop g bytes 0 [] [] = Some (Inr ops)"
proof -
  from parse_loop_operations [OF assms] obtain bytes where b: "getData_operations g ops = Inr bytes"
    and step: "\<And>data pos rest acc. drop pos data = bytes @ rest \<Longrightarrow>
        parse_loop g data pos [] acc = parse_loop g data (pos + length bytes) [] (acc @ ops)"
    by auto
  have "parse_loop g bytes 0 [] [] = parse_loop g bytes (0 + length bytes) [] ([] @ ops)"
    by (rule step) simp
  also have "\<dots> = Some (Inr ops)"
    by (simp add: parse_loop_end)
  finally show ?thesis
    using b by blast
qed

lemma getData_operations_append:
  "getData_operations g (xs @ ys) =
     (case getData_operations g xs of
        Inl e \<Rightarrow> Inl e
      | Inr a \<Rightarrow> (case getData_operations g ys of Inl e \<Rightarrow> Inl e | Inr b \<Rightarrow> Inr (a @ b)))"
  by (induction xs) (auto split: sum.splits)

lemma getData_all_written:
  assumes "direct_objects g"
  shows "getData_all g (map ContentStream opss) = getData_operations g (concat opss)"
proof (induction opss)
  case Nil
  show ?case by simp
next
  case (Cons ops opss)
  have "getObject_of g (ContentStream ops) = ContentStream ops"
    using assms by (simp add: direct_objects_def)
  then show ?case
    using Cons by (simp add: getData_def getData_operations_append split: sum.splits)
qed

lemma ContentStream_init_array:
  assumes "direct_objects g" and "separators g" and "list_all (operation_ok g) (concat opss)"
  shows "ContentStream_init g (ArrayObject (map ContentStream opss)) = Some (Inr (concat opss))"
proof -
  from tokenize_written [OF assms(3,2)] obtain bytes where
    "getData_operations g (concat opss) = Inr bytes" "parse_loop g bytes 0 [] [] = Some (Inr (concat opss))"
    by auto
  moreover have "getObject_of g (ArrayObject (map ContentStream opss)) =
      ArrayObject (map ContentStream opss)"
    using assms(1) by (simp add: direct_objects_def)
  ultimately show ?thesis
    by (simp add: ContentStream_init_def getData_all_written [OF assms(1)])
qed

lemma ContentStream_init_written:
  assumes "direct_objects g" and "separators g" and "list_all (operation_ok g) ops"
  shows "ContentStream_init g (ContentStream ops) = Some (Inr ops)"
proof -
  from tokenize_written [OF assms(3,2)] obtain bytes where
    "getData_operations g ops = Inr bytes" "parse_loop g bytes 0 [] [] = Some (Inr ops)"
    by auto
  moreover have "getObject_of g (ContentStream ops) = ContentStream ops"
    using assms(1) by (simp add: direct_objects_def)
  ultimately show ?thesis
    by (simp add: ContentStream_init_def getData_def)
qed


lemma pushPopGS_tokens:
  assumes "ContentStream_init g contents = Some (Inr ops)"
  shows "pushPopGS g contents =
     Some (Inr (ContentStream ((Operands [], ''q'') # ops @ [(Operands [], ''Q'')])))"
  by (simp add: pushPopGS_def and_then_def assms)

lemma wrapped_operations_ok:
  assumes "list_all (operation_ok g) ops" and "operator_ok g ''q''" and "operator_ok g ''Q''"
  shows "list_all (operation_ok g) ((Operands [], ''q'') # ops @ [(Operands [], ''Q'')])"
  using assms by simp

lemma toy_reads_back:
  assumes "toy_writeObject ob = tok" and "tok \<noteq> []"
    and "list_all (\<lambda>c. \<not> toy_whitespace c) tok"
    and "\<not> isalpha (hd tok)"
    and "hd tok \<notin> {CHR 0x27, CHR 0x22, CHR ''%'', CHR ''/''}"
  shows "reads_back toy_io ob (StringObject tok)"
proof -
  have "takeWhile (\<lambda>c. \<not> toy_whitespace c) (tok @ CHR '' '' # rest) = tok" for rest
    using assms(3) by (simp add: takeWhile_append2 list_all_iff toy_whitespace_def)
  then have "toy_readObject data pos = Inr (StringObject tok, pos + length tok)"
    if "drop pos data = tok @ CHR '' '' # rest" for data pos rest
    using that assms(2,5) by (simp add: toy_readObject_def)
  then show ?thesis
    using assms by (auto simp: reads_back_def toy_io_def list_all_iff hd_in_set)
qed

text \<open>
  Claim C6, as the code has it. The page has content that tokenizes into operations
  which survive re-tokenization; the merged page has no \<^verbatim>\<open>/Contents\<close>, so the test
  \<^verbatim>\<open>if page2Content is not None\<close> fails and nothing is added for it. \<^verbatim>\<open>mergePage\<close>
  returns, and the content of the page is the original operations between one
  \<^verbatim>\<open>q\<close> and one \<^verbatim>\<open>Q\<close>; its bytes are \<^verbatim>\<open>q\<close>, the original operations as
  \<^verbatim>\<open>_getData\<close> writes them, and \<^verbatim>\<open>Q\<close>. No second pair follows.
\<close>

theorem mergePage_blank:
  assumes "merged_resources g self page2 = Inr (newResources, rename)"
    and "getContents g self = Some originalContent"
    and "ContentStream_init g originalContent = Some (Inr ops)"
    and "list_all (operation_ok g) ops"
    and "getContents g page2 = None"
    and "separators g" and "direct_objects g"
    and "operator_ok g ''q''" and "operator_ok g ''Q''"
  shows "\<exists>original.
     getData_operations g ops = Inr original \<and>
     mergePage g self page2 =
       Some (Inr (setitem
         (setitem self ''/Contents''
            (ContentStream ((Operands [], ''q'') # ops @ [(Operands [], ''Q'')])))
         ''/Resources'' (DictionaryObject newResources))) \<and>
     getData g (ContentStream ((Operands [], ''q'') # ops @ [(Operands [], ''Q'')])) =
       Inr (''q\<newline>'' @ original @ ''Q\<newline>'')"
proof -
  let ?w = "(Operands [], ''q'') # ops @ [(Operands [], ''Q'')]"
  from tokenize_written [OF assms(4,6)] obtain original where
    o: "getData_operations g ops = Inr original"
    by auto
  have ok: "list_all (operation_ok g) (concat [?w])"
    using wrapped_operations_ok [OF assms(4,8,9)] by simp
  have "ContentStream_init g (ArrayObject (map ContentStream [?w])) = Some (Inr (concat [?w]))"
    by (rule ContentStream_init_array [OF assms(7,6) ok])
  then have final: "ContentStream_init g (ArrayObject [ContentStream ?w]) = Some (Inr ?w)"
    by simp
  have "mergePage g self page2 =
      Some (Inr (setitem (setitem self ''/Contents'' (ContentStream ?w))
        ''/Resources'' (DictionaryObject newResources)))"
    by (simp add: mergePage_def mergePage_with_def assms(1,2,5) and_then_def
        pushPopGS_tokens [OF assms(3)] final)
  moreover have "getData g (ContentStream ?w) = Inr (''q\<newline>'' @ original @ ''Q\<newline>'')"
    using assms(8,9)
    by (simp add: getData_def getData_operations_append o operation_bytes_ok)
  ultimately show ?thesis
    using o by blast
qed

theorem mergePage_blank_witness:
  "\<exists>original.
     getData_operations toy_io [(Operands [StringObject ''1''], ''w''), (Operands [], ''S'')] =
       Inr original \<and>
     mergePage toy_io
       [(''/Resources'', DictionaryObject []),
        (''/Contents'', StreamObject [] ''1 w\<newline>S\<newline>'')]
       [(''/Resources'', DictionaryObject [])] =
       Some (Inr
         [(''/Resources'', DictionaryObject [(''/ProcSet'', ArrayObject [])]),
          (''/Contents'',
           ContentStream [(Operands [], ''q''), (Operands [StringObject ''1''], ''w''),
                          (Operands [], ''S''), (Operands [], ''Q'')])]) \<and>
     getData toy_io
       (ContentStream [(Operands [], ''q''), (Operands [StringObject ''1''], ''w''),
                       (Operands [], ''S''), (Operands [], ''Q'')]) =
       Inr (''q\<newline>'' @ original @ ''Q\<newline>'')"
proof -
  let ?self = "[(''/Resources'', DictionaryObject []),
                (''/Contents'', StreamObject [] ''1 w\<newline>S\<newline>'')]"
  let ?page2 = "[(''/Resources'', DictionaryObject [])]"
  let ?ops = "[(Operands [StringObject ''1''], ''w''), (Operands [], ''S'')]"
  have res: "merged_resources toy_io ?self ?page2 = Inr ([(''/ProcSet'', ArrayObject [])], [])"
    by code_simp
  have c: "getContents toy_io ?self = Some (StreamObject [] ''1 w\<newline>S\<newline>'')"
    by code_simp
  have t: "ContentStream_init toy_io (StreamObject [] ''1 w\<newline>S\<newline>'') = Some (Inr ?ops)"
    by code_simp
  have one: "reads_back toy_io (StringObject ''1'') (StringObject ''1'')"
    by (rule toy_reads_back) (simp_all add: toy_writeObject_def toy_whitespace_def isalpha_def)
  have ok: "list_all (operation_ok toy_io) ?ops"
    using one by (simp add: operator_ok_def isalpha_def isspace_def toy_io_def toy_whitespace_def)
  have blank: "getContents toy_io ?page2 = None"
    by code_simp
  have sep: "separators toy_io"
    by (simp add: separators_def toy_io_def toy_whitespace_def)
  have dir: "direct_objects toy_io"
    by (simp add: direct_objects_def toy_io_def)
  have q: "operator_ok toy_io ''q''" and Q: "operator_ok toy_io ''Q''"
    by (simp_all add: operator_ok_def isalpha_def isspace_def toy_io_def toy_whitespace_def)
  from mergePage_blank [OF res c t ok blank sep dir q Q] show ?thesis
    by simp
qed

text \<open>
  The claim as stated has a second, empty pair after the first. On a page with the
  content \<^verbatim>\<open>1 w\<close>, \<^verbatim>\<open>S\<close>, merged with a page that has resources and no content, the
  content has four operations and its bytes end after the first \<^verbatim>\<open>Q\<close>.
\<close>

theorem mergePage_blank_single_pair:
  "mergePage toy_io
     [(''/Resources'', DictionaryObject []),
      (''/Contents'', StreamObject [] ''1 w\<newline>S\<newline>'')]
     [(''/Resources'', DictionaryObject [])] =
     Some (Inr
       [(''/Resources'', DictionaryObject [(''/ProcSet'', ArrayObject [])]),
        (''/Contents'',
         ContentStream [(Operands [], ''q''), (Operands [StringObject ''1''], ''w''),
                        (Operands [], ''S''), (Operands [], ''Q'')])]) \<and>
   getData toy_io
     (ContentStream [(Operands [], ''q''), (Operands [StringObject ''1''], ''w''),
                     (Operands [], ''S''), (Operands [], ''Q'')]) =
     Inr ''q\<newline>1 w\<newline>S\<newline>Q\<newline>'' \<and>
   ''q\<newline>1 w\<newline>S\<newline>Q\<newline>'' \<noteq> ''q\<newline>1 w\<newline>S\<newline>Q\<newline>q\<newline>Q\<newline>'' \<and>
   ''q\<newline>1 w\<newline>S\<newline>Q\<newline>'' \<noteq> ''q\<newline>1 w\<newline>S\<newline>\<newline>Q\<newline>q\<newline>Q\<newline>''"
  by code_simp

subsection \<open>Merging a scaled page\<close>

lemma addTransformationMatrix_tokens:
  assumes "ContentStream_init g contents = Some (Inr ops)"
  shows "addTransformationMatrix g contents [a, b, c, d, e, f] =
     Some (Inr (ContentStream
       ((Operands [FloatObject_of g a, FloatObject_of g b, FloatObject_of g c,
                   FloatObject_of g d, FloatObject_of g e, FloatObject_of g f], '' cm'') # ops)))"
  by (simp add: addTransformationMatrix_def and_then_def assms)

text \<open>
  The operation that \<^verbatim>\<open>_addTransformationMatrix\<close> inserts has the operator \<^verbatim>\<open>" cm"\<close>;
  written and tokenized again, the operator is \<^verbatim>\<open>cm\<close> and the operands are what
  \<^verbatim>\<open>readObject\<close> makes of them.
\<close>

lemma ContentStream_init_matrix:
  assumes dir: "direct_objects g" and sep: "separators g"
    and ok: "list_all (operation_ok g) ops"
    and obs: "list_all2 (reads_back g) obs obs'"
    and cm: "operator_ok g ''cm''"
  shows "ContentStream_init g (ContentStream ((Operands obs, '' cm'') # ops)) =
     Some (Inr ((Operands obs', ''cm'') # ops))"
proof -
  let ?b = "concat (map (\<lambda>ob. writeObject g ob @ '' '') obs) @ '' '' @ ''cm'' @ ''\<newline>''"
  from parse_loop_operations [OF ok sep] obtain bytes where
    b: "getData_operations g ops = Inr bytes"
    and step: "\<And>data pos rest acc. drop pos data = bytes @ rest \<Longrightarrow>
        parse_loop g data pos [] acc = parse_loop g data (pos + length bytes) [] (acc @ ops)"
    by auto
  have data: "getData_operations g ((Operands obs, '' cm'') # ops) = Inr (?b @ bytes)"
    by (simp add: operation_bytes_def b)
  have pad: "list_all (whitespace g) '' ''"
    using sep by (simp add: separators_def)
  have d0: "drop 0 (?b @ bytes) = ?b @ bytes"
    by simp
  have "parse_loop g (?b @ bytes) 0 [] [] =
      parse_loop g (?b @ bytes) (0 + length ?b) [] ([] @ [(Operands obs', ''cm'')])"
    by (rule parse_loop_operation_text [OF d0 obs pad cm sep])
  also have "\<dots> = parse_loop g (?b @ bytes) (0 + length ?b + length bytes) []
      (([] @ [(Operands obs', ''cm'')]) @ ops)"
    by (rule step [of _ _ "[]"]) simp
  also have "\<dots> = Some (Inr ((Operands obs', ''cm'') # ops))"
    by (simp add: parse_loop_end)
  finally have "parse_loop g (?b @ bytes) 0 [] [] = Some (Inr ((Operands obs', ''cm'') # ops))" .
  moreover have "getObject_of g (ContentStream ((Operands obs, '' cm'') # ops)) =
      ContentStream ((Operands obs, '' cm'') # ops)"
    using dir by (simp add: direct_objects_def)
  ultimately show ?thesis
    by (simp add: ContentStream_init_def getData_def data del: getData_operations.simps)
qed

lemma rename_operand_empty: "map (rename_operand []) obs = obs"
  by (induction obs) (simp_all add: rename_operand_def split: pdf_obj.splits)

lemma rename_operations_empty:
  assumes "list_all (operation_ok g) ops"
  shows "rename_operations [] ops = Inr ops"
  using assms
proof (induction ops)
  case Nil
  show ?case by simp
next
  case (Cons oper ops)
  from Cons.prems obtain obs operator where "oper = (Operands obs, operator)"
    by (cases "(g, oper)" rule: operation_ok.cases) auto
  with Cons show ?case
    by (simp add: rename_operand_empty)
qed


lemma wrapped_page2_matrix:
  assumes dir: "direct_objects g" and sep: "separators g"
    and ok2: "list_all (operation_ok g) ops2"
    and obs: "list_all2 (reads_back g) obs obs'"
    and obs': "list_all (\<lambda>ob. reads_back g ob ob) obs'"
    and fixed: "map (rename_operand rename) obs' = obs'"
    and cm: "operator_ok g ''cm''"
    and rn: "rename_operations rename ops2 = Inr ops2r"
    and okr: "list_all (operation_ok g) ops2r"
  shows "and_then (contentStreamRename g (ContentStream ((Operands obs, '' cm'') # ops2)) rename)
       (pushPopGS g) =
     Some (Inr (ContentStream
       ((Operands [], ''q'') # ((Operands obs', ''cm'') # ops2r) @ [(Operands [], ''Q'')])))"
proof (cases "rename = []")
  case True
  with rn rename_operations_empty [OF ok2] have "ops2r = ops2"
    by simp
  then show ?thesis
    using True pushPopGS_tokens [OF ContentStream_init_matrix [OF dir sep ok2 obs cm]]
    by (simp add: contentStreamRename_def and_then_def)
next
  case False
  let ?r = "(Operands obs', ''cm'') # ops2r"
  have "list_all (operation_ok g) ?r"
    using cm obs' okr by simp
  from pushPopGS_tokens [OF ContentStream_init_written [OF dir sep this]]
  show ?thesis
    using False
    by (simp add: contentStreamRename_def and_then_def
        ContentStream_init_matrix [OF dir sep ok2 obs cm] rn fixed)
qed

lemma written_number_fixed:
  assumes "written_number g a a' text"
  shows "rename_operand rename a' = a'"
  using assms by (cases a') (simp_all add: written_number_def rename_operand_def)

text \<open>
  Claim C5, as the code has it. Both pages have content that tokenizes into operations
  which survive re-tokenization, also after the renaming of the resource merge; the
  factor is written \<^verbatim>\<open>0.5\<close> and zero is written \<^verbatim>\<open>0\<close>. Then
  \<^verbatim>\<open>mergeScaledPage\<close> returns, and the content of the page is: \<^verbatim>\<open>q\<close>, the original
  operations, \<^verbatim>\<open>Q\<close>, \<^verbatim>\<open>q\<close>, the operation \<^verbatim>\<open>cm\<close> with the six numbers, the
  operations of the other page (renamed), \<^verbatim>\<open>Q\<close>. Its bytes begin with \<^verbatim>\<open>q\<close>, have
  the line \<^verbatim>\<open>0.5 0 0 0.5 0 0 cm\<close> directly after the second \<^verbatim>\<open>q\<close> and before the
  other page's content, and end with \<^verbatim>\<open>Q\<close>. How often the byte sequence occurs
  depends on the two contents.
\<close>

theorem mergeScaledPage_content:
  assumes "merged_resources g self page2 = Inr (newResources, rename)"
    and "getContents g self = Some originalContent"
    and "ContentStream_init g originalContent = Some (Inr ops1)"
    and "list_all (operation_ok g) ops1"
    and "getContents g page2 = Some page2Content"
    and "ContentStream_init g page2Content = Some (Inr ops2)"
    and "list_all (operation_ok g) ops2"
    and "rename_operations rename ops2 = Inr ops2r"
    and "list_all (operation_ok g) ops2r"
    and "written_number g factor f ''0.5''"
    and "written_number g (NumberObject 0) z ''0''"
    and "separators g" and "direct_objects g"
    and "operator_ok g ''q''" and "operator_ok g ''Q''" and "operator_ok g ''cm''"
  shows "\<exists>original other.
     getData_operations g ops1 = Inr original \<and>
     getData_operations g ops2r = Inr other \<and>
     mergeScaledPage g self page2 factor =
       Some (Inr (setitem
         (setitem self ''/Contents''
            (ContentStream
               (((Operands [], ''q'') # ops1 @ [(Operands [], ''Q'')]) @
                ((Operands [], ''q'') # ((Operands [f, z, z, f, z, z], ''cm'') # ops2r) @
                   [(Operands [], ''Q'')]))))
         ''/Resources'' (DictionaryObject newResources))) \<and>
     getData g
       (ContentStream
          (((Operands [], ''q'') # ops1 @ [(Operands [], ''Q'')]) @
           ((Operands [], ''q'') # ((Operands [f, z, z, f, z, z], ''cm'') # ops2r) @
              [(Operands [], ''Q'')]))) =
       Inr (''q\<newline>'' @ original @ ''Q\<newline>'' @
            ''q\<newline>'' @ ''0.5 0 0 0.5 0 0 cm\<newline>'' @ other @ ''Q\<newline>'')"
proof -
  let ?F = "FloatObject_of g factor" and ?Z = "FloatObject_of g (NumberObject 0)"
  let ?w1 = "(Operands [], ''q'') # ops1 @ [(Operands [], ''Q'')]"
  let ?w2 = "(Operands [], ''q'') # ((Operands [f, z, z, f, z, z], ''cm'') # ops2r) @
      [(Operands [], ''Q'')]"
  note sep = assms(12) and dir = assms(13)
  from tokenize_written [OF assms(4) sep] obtain original where
    o: "getData_operations g ops1 = Inr original"
    by auto
  from tokenize_written [OF assms(9) sep] obtain other where
    p: "getData_operations g ops2r = Inr other"
    by auto
  have obs: "list_all2 (reads_back g) [?F, ?Z, ?Z, ?F, ?Z, ?Z] [f, z, z, f, z, z]"
    and obs': "list_all (\<lambda>ob. reads_back g ob ob) [f, z, z, f, z, z]"
    using assms(10,11) by (simp_all add: written_number_def)
  have fixed: "map (rename_operand rename) [f, z, z, f, z, z] = [f, z, z, f, z, z]"
    by (simp add: written_number_fixed [OF assms(10)] written_number_fixed [OF assms(11)])
  have w2: "wrapped_page2 g page2Content
      (Some (\<lambda>page2Content. addTransformationMatrix g page2Content
         [factor, NumberObject 0, NumberObject 0, factor, NumberObject 0, NumberObject 0]))
      rename = Some (Inr (ContentStream ?w2))"
    using wrapped_page2_matrix [OF dir sep assms(7) obs obs' fixed assms(16) assms(8,9)]
    by (simp add: wrapped_page2_def addTransformationMatrix_tokens [OF assms(6)]
        and_then_def [of "Some (Inr x)" for x])
  have ok: "list_all (operation_ok g) (concat [?w1, ?w2])"
    using assms(4,9,14,15,16) obs' by simp
  have "ContentStream_init g (ArrayObject (map ContentStream [?w1, ?w2])) =
      Some (Inr (concat [?w1, ?w2]))"
    by (rule ContentStream_init_array [OF dir sep ok])
  then have final: "ContentStream_init g (ArrayObject ([ContentStream ?w1] @ [ContentStream ?w2])) =
      Some (Inr (?w1 @ ?w2))"
    by simp
  have "mergeScaledPage g self page2 factor =
      Some (Inr (setitem (setitem self ''/Contents'' (ContentStream (?w1 @ ?w2)))
        ''/Resources'' (DictionaryObject newResources)))"
    unfolding mergeScaledPage_def mergeTransformedPage_def mergePage_with_def
    by (simp add: assms(1,2,5) and_then_def [of "Some (Inr x)" for x]
        pushPopGS_tokens [OF assms(3)] w2 final del: append.simps)
  moreover have "getData g (ContentStream (?w1 @ ?w2)) =
      Inr (''q\<newline>'' @ original @ ''Q\<newline>'' @
           ''q\<newline>'' @ ''0.5 0 0 0.5 0 0 cm\<newline>'' @ other @ ''Q\<newline>'')"
  proof -
    have f: "writeObject g f = ''0.5''" and z: "writeObject g z = ''0''"
      using assms(10,11) by (simp_all add: written_number_def)
    show ?thesis
      using assms(14,15,16)
      by (simp add: getData_def getData_operations_append o p operation_bytes_ok f z)
  qed
  ultimately show ?thesis
    using o p by blast
qed


theorem mergeScaledPage_content_witness:
  "\<exists>original other.
     getData_operations toy_io [(Operands [StringObject ''1''], ''w''), (Operands [], ''S'')] =
       Inr original \<and>
     getData_operations toy_io
       [(Operands [StringObject ''0'', StringObject ''0''], ''m''), (Operands [], ''S'')] =
       Inr other \<and>
     mergeScaledPage toy_io
       [(''/Resources'', DictionaryObject []),
        (''/Contents'', StreamObject [] ''1 w\<newline>S\<newline>'')]
       [(''/Resources'', DictionaryObject []),
        (''/Contents'', StreamObject [] ''0 0 m\<newline>S\<newline>'')]
       (FloatObject (1 / 2)) =
       Some (Inr
         [(''/Resources'', DictionaryObject [(''/ProcSet'', ArrayObject [])]),
          (''/Contents'',
           ContentStream
             [(Operands [], ''q''), (Operands [StringObject ''1''], ''w''),
              (Operands [], ''S''), (Operands [], ''Q''), (Operands [], ''q''),
              (Operands [StringObject ''0.5'', StringObject ''0'', StringObject ''0'',
                         StringObject ''0.5'', StringObject ''0'', StringObject ''0''], ''cm''),
              (Operands [StringObject ''0'', StringObject ''0''], ''m''),
              (Operands [], ''S''), (Operands [], ''Q'')])]) \<and>
     getData toy_io
       (ContentStream
          [(Operands [], ''q''), (Operands [StringObject ''1''], ''w''),
           (Operands [], ''S''), (Operands [], ''Q''), (Operands [], ''q''),
           (Operands [StringObject ''0.5'', StringObject ''0'', StringObject ''0'',
                      StringObject ''0.5'', StringObject ''0'', StringObject ''0''], ''cm''),
           (Operands [StringObject ''0'', StringObject ''0''], ''m''),
           (Operands [], ''S''), (Operands [], ''Q'')]) =
       Inr (''q\<newline>'' @ original @ ''Q\<newline>'' @
            ''q\<newline>'' @ ''0.5 0 0 0.5 0 0 cm\<newline>'' @ other @ ''Q\<newline>'')"
proof -
  let ?self = "[(''/Resources'', DictionaryObject []),
                (''/Contents'', StreamObject [] ''1 w\<newline>S\<newline>'')]"
  let ?page2 = "[(''/Resources'', DictionaryObject []),
                 (''/Contents'', StreamObject [] ''0 0 m\<newline>S\<newline>'')]"
  let ?ops1 = "[(Operands [StringObject ''1''], ''w''), (Operands [], ''S'')]"
  let ?ops2 = "[(Operands [StringObject ''0'', StringObject ''0''], ''m''), (Operands [], ''S'')]"
  have res: "merged_resources toy_io ?self ?page2 = Inr ([(''/ProcSet'', ArrayObject [])], [])"
    by code_simp
  have c1: "getContents toy_io ?self = Some (StreamObject [] ''1 w\<newline>S\<newline>'')"
    by code_simp
  have t1: "ContentStream_init toy_io (StreamObject [] ''1 w\<newline>S\<newline>'') = Some (Inr ?ops1)"
    by code_simp
  have c2: "getContents toy_io ?page2 = Some (StreamObject [] ''0 0 m\<newline>S\<newline>'')"
    by code_simp
  have t2: "ContentStream_init toy_io (StreamObject [] ''0 0 m\<newline>S\<newline>'') = Some (Inr ?ops2)"
    by code_simp
  have one: "reads_back toy_io (StringObject ''1'') (StringObject ''1'')"
    by (rule toy_reads_back) (simp_all add: toy_writeObject_def toy_whitespace_def isalpha_def)
  have zero: "reads_back toy_io (StringObject ''0'') (StringObject ''0'')"
    by (rule toy_reads_back) (simp_all add: toy_writeObject_def toy_whitespace_def isalpha_def)
  have half: "reads_back toy_io (StringObject ''0.5'') (StringObject ''0.5'')"
    by (rule toy_reads_back) (simp_all add: toy_writeObject_def toy_whitespace_def isalpha_def)
  have fzero: "reads_back toy_io (FloatObject 0) (StringObject ''0'')"
    by (rule toy_reads_back)
      (simp_all add: toy_writeObject_def toy_whitespace_def isalpha_def str_nat_0)
  have fhalf: "reads_back toy_io (FloatObject (1 / 2)) (StringObject ''0.5'')"
    by (rule toy_reads_back) (simp_all add: toy_writeObject_def toy_whitespace_def isalpha_def)
  have ops: "operator_ok toy_io ''w''" "operator_ok toy_io ''S''" "operator_ok toy_io ''m''"
    and q: "operator_ok toy_io ''q''" and Q: "operator_ok toy_io ''Q''"
    and cm: "operator_ok toy_io ''cm''"
    by (simp_all add: operator_ok_def isalpha_def isspace_def toy_io_def toy_whitespace_def)
  have ok1: "list_all (operation_ok toy_io) ?ops1"
    using one ops by simp
  have ok2: "list_all (operation_ok toy_io) ?ops2"
    using zero ops by simp
  have rn: "rename_operations [] ?ops2 = Inr ?ops2"
    by (rule rename_operations_empty [OF ok2])
  have f: "written_number toy_io (FloatObject (1 / 2)) (StringObject ''0.5'') ''0.5''"
    using fhalf half by (simp add: written_number_def toy_io_def toy_writeObject_def)
  have z: "written_number toy_io (NumberObject 0) (StringObject ''0'') ''0''"
    using fzero zero by (simp add: written_number_def toy_io_def toy_writeObject_def)
  have sep: "separators toy_io"
    by (simp add: separators_def toy_io_def toy_whitespace_def)
  have dir: "direct_objects toy_io"
    by (simp add: direct_objects_def toy_io_def)
  from mergeScaledPage_content [OF res c1 t1 ok1 c2 t2 ok2 rn ok2 f z sep dir q Q cm]
  show ?thesis
    by simp
qed

text \<open>
  The claim as stated has exactly one occurrence of the byte sequence. When the other
  page's content itself starts with that operation, the sequence occurs twice.
\<close>

theorem mergeScaledPage_two_occurrences:
  "mergeScaledPage toy_io
     [(''/Resources'', DictionaryObject []),
      (''/Contents'', StreamObject [] ''1 w\<newline>S\<newline>'')]
     [(''/Resources'', DictionaryObject []),
      (''/Contents'', StreamObject [] ''0.5 0 0 0.5 0 0 cm\<newline>S\<newline>'')]
     (FloatObject (1 / 2)) =
     Some (Inr
       [(''/Resources'', DictionaryObject [(''/ProcSet'', ArrayObject [])]),
        (''/Contents'',
         ContentStream
           [(Operands [], ''q''), (Operands [StringObject ''1''], ''w''),
            (Operands [], ''S''), (Operands [], ''Q''), (Operands [], ''q''),
            (Operands [StringObject ''0.5'', StringObject ''0'', StringObject ''0'',
                       StringObject ''0.5'', StringObject ''0'', StringObject ''0''], ''cm''),
            (Operands [StringObject ''0.5'', StringObject ''0'', StringObject ''0'',
                       StringObject ''0.5'', StringObject ''0'', StringObject ''0''], ''cm''),
            (Operands [], ''S''), (Operands [], ''Q'')])]) \<and>
   getData toy_io
     (ContentStream
        [(Operands [], ''q''), (Operands [StringObject ''1''], ''w''),
         (Operands [], ''S''), (Operands [], ''Q''), (Operands [], ''q''),
         (Operands [StringObject ''0.5'', StringObject ''0'', StringObject ''0'',
                    StringObject ''0.5'', StringObject ''0'', StringObject ''0''], ''cm''),
         (Operands [StringObject ''0.5'', StringObject ''0'', StringObject ''0'',
                    StringObject ''0.5'', StringObject ''0'', StringObject ''0''], ''cm''),
         (Operands [], ''S''), (Operands [], ''Q'')]) =
     Inr ''q\<newline>1 w\<newline>S\<newline>Q\<newline>q\<newline>0.5 0 0 0.5 0 0 cm\<newline>0.5 0 0 0.5 0 0 cm\<newline>S\<newline>Q\<newline>'' \<and>
   occurrences ''0.5 0 0 0.5 0 0 cm''
     ''q\<newline>1 w\<newline>S\<newline>Q\<newline>q\<newline>0.5 0 0 0.5 0 0 cm\<newline>0.5 0 0 0.5 0 0 cm\<newline>S\<newline>Q\<newline>'' = 2"
  by code_simp

subsection \<open>Scaling to a size\<close>

text \<open>Once the property \<^verbatim>\<open>mediaBox\<close> has been read, reading it again changes nothing.\<close>

lemma mediaBox_again:
  assumes "mediaBox b self = Inr (r, self')"
  shows "mediaBox b self' = Inr (r, self')"
proof -
  have "map_of self' ''/MediaBox'' = Some (RectangleObject r)"
    using assms
    by (auto simp: mediaBox_def getRectangle_def Let_def map_of_setitem
        split: option.splits pdf_obj.splits sum.splits)
  then show ?thesis
    by (simp add: mediaBox_def getRectangle_def)
qed

lemma extent_mediaBox:
  assumes "mediaBox b self = Inr (r, self')"
  shows "extent b a self upper lower =
     (case py_sub a (upper r) (lower r) of Inl e \<Rightarrow> Inl e | Inr v \<Rightarrow> Inr (v, self'))"
  by (simp add: extent_def assms mediaBox_again [OF assms])

text \<open>
  Claim C9. On a page whose media box can be read as the rectangle \<open>r\<close>,
  \<^verbatim>\<open>scaleTo(width, height)\<close> is \<^verbatim>\<open>scale(sx, sy)\<close> with \<open>sx\<close> the width divided by
  upper-right x minus lower-left x, and \<open>sy\<close> the height divided by upper-right y minus
  lower-left \<open>x\<close>: the method \<^verbatim>\<open>getLowerLeft_x\<close> is used in both denominators,
  \<^verbatim>\<open>getLowerLeft_y\<close> in none.
\<close>

theorem scaleTo_factors:
  assumes "mediaBox b self = Inr (r, self')"
    and "py_sub a (getUpperRight_x a r) (getLowerLeft_x a r) = Inr dx"
    and "py_div a width dx = Inr sx"
    and "py_sub a (getUpperRight_y a r) (getLowerLeft_x a r) = Inr dy"
    and "py_div a height dy = Inr sy"
  shows "scaleTo g b a self width height = scale g b a self' sx sy"
  using assms(2-5)
  by (simp add: scaleTo_def extent_mediaBox [OF assms(1)]
      extent_mediaBox [OF mediaBox_again [OF assms(1)]])

theorem scaleTo_factors_witness:
  "scaleTo toy_io toy_boxes toy_numbers
     [(''/MediaBox'', ArrayObject [NumberObject 10, NumberObject 20, NumberObject 110,
                                   NumberObject 220])]
     (NumberObject 200) (NumberObject 420) =
   scale toy_io toy_boxes toy_numbers
     [(''/MediaBox'', RectangleObject [NumberObject 10, NumberObject 20, NumberObject 110,
                                       NumberObject 220])]
     (FloatObject 2) (FloatObject 2) \<and>
   scale toy_io toy_boxes toy_numbers
     [(''/MediaBox'', RectangleObject [NumberObject 10, NumberObject 20, NumberObject 110,
                                       NumberObject 220])]
     (FloatObject 2) (FloatObject 2) =
   Some (Inr [(''/MediaBox'', RectangleObject [FloatObject 20, FloatObject 40, FloatObject 220,
                                               FloatObject 440])])"
proof -
  let ?r = "[NumberObject 10, NumberObject 20, NumberObject 110, NumberObject 220]"
  have box: "mediaBox toy_boxes [(''/MediaBox'', ArrayObject ?r)] =
     Inr (?r, [(''/MediaBox'', RectangleObject ?r)])"
    by (simp add: mediaBox_def getRectangle_def toy_boxes_def)
  have dx: "py_sub toy_numbers (getUpperRight_x toy_numbers ?r) (getLowerLeft_x toy_numbers ?r) =
     Inr (FloatObject 100)"
    by (simp add: toy_numbers_def toy_op_def toy_num_def)
  have sx: "py_div toy_numbers (NumberObject 200) (FloatObject 100) = Inr (FloatObject 2)"
    by (simp add: toy_numbers_def toy_op_def toy_num_def)
  have dy: "py_sub toy_numbers (getUpperRight_y toy_numbers ?r) (getLowerLeft_x toy_numbers ?r) =
     Inr (FloatObject 210)"
    by (simp add: toy_numbers_def toy_op_def toy_num_def)
  have sy: "py_div toy_numbers (NumberObject 420) (FloatObject 210) = Inr (FloatObject 2)"
    by (simp add: toy_numbers_def toy_op_def toy_num_def)
  have run: "scale toy_io toy_boxes toy_numbers [(''/MediaBox'', RectangleObject ?r)]
      (FloatObject 2) (FloatObject 2) =
    Some (Inr [(''/MediaBox'', RectangleObject [FloatObject 20, FloatObject 40, FloatObject 220,
                                                FloatObject 440])])"
    by (simp add: scale_def addTransformation_def getContents_def and_then_def
        scaled_corner_def mediaBox_def getRectangle_def toy_boxes_def toy_numbers_def
        toy_op_def toy_num_def)
  from scaleTo_factors [OF box dx sx dy sy, of toy_io] run show ?thesis
    by simp
qed

end
